(* ===== verification/Codec.thy ===== *)
theory Codec
  imports Prelude
begin

text \<open>
  The two base64 encoders and the decoder: the agent's template filters
  (\<open>render.rs\<close>) and the webhook's patch envelope (\<open>patch.rs\<close>). Blocks and
  bit buffers are 32-bit words, as in the sources, so shifts drop what leaves the word.
\<close>

unbundle bit_operations_syntax

definition b64_alphabet :: string where
  "b64_alphabet = ''ABCDEFGHIJKLMNOPQRSTUVWXYZabcdefghijklmnopqrstuvwxyz0123456789+/''"

text \<open>\<open>slice::chunks(3)\<close>.\<close>

fun chunks3 :: "'a list \<Rightarrow> 'a list list" where
  "chunks3 (a # b # c # d # xs) = [a, b, c] # chunks3 (d # xs)"
| "chunks3 [] = []"
| "chunks3 xs = [xs]"

text \<open>\<open>chunk.get(i).copied().unwrap_or(0)\<close>, widened to 32 bits.\<close>

definition byte_at :: "8 word list \<Rightarrow> nat \<Rightarrow> 32 word" where
  "byte_at chunk i = (if i < length chunk then ucast (chunk ! i) else 0)"

definition b64_block :: "8 word list \<Rightarrow> 32 word" where
  "b64_block chunk =
     push_bit 16 (byte_at chunk 0) OR push_bit 8 (byte_at chunk 1) OR byte_at chunk 2"

text \<open>\<open>render.rs\<close>: the agent's \<open>base64\<close>, a loop over the four positions of a block.\<close>

definition agent_b64_char :: "8 word list \<Rightarrow> nat \<Rightarrow> char" where
  "agent_b64_char chunk index =
     (if index \<le> length chunk
      then b64_alphabet ! unat (drop_bit (18 - index * 6) (b64_block chunk) AND 0x3F)
      else CHR ''='')"

definition agent_base64 :: "8 word list \<Rightarrow> string" where
  "agent_base64 bytes = concat (map (\<lambda>chunk. map (agent_b64_char chunk) [0..<4]) (chunks3 bytes))"

text \<open>\<open>patch.rs\<close>: the webhook's \<open>base64\<close>, the four positions written out.\<close>

definition webhook_b64_chunk :: "8 word list \<Rightarrow> string" where
  "webhook_b64_chunk chunk =
     (let n = b64_block chunk in
      [b64_alphabet ! unat (drop_bit 18 n AND 63),
       b64_alphabet ! unat (drop_bit 12 n AND 63),
       (if 1 < length chunk then b64_alphabet ! unat (drop_bit 6 n AND 63) else CHR ''=''),
       (if 2 < length chunk then b64_alphabet ! unat (n AND 63) else CHR ''='')])"

definition webhook_base64 :: "8 word list \<Rightarrow> string" where
  "webhook_base64 bytes = concat (map webhook_b64_chunk (chunks3 bytes))"

text \<open>The decoder's reading of one byte: a value, a byte to skip, or not base64.\<close>

datatype b64_read = Sextet "32 word" | Skipped | Alien

definition b64_value :: "char \<Rightarrow> b64_read" where
  "b64_value c =
     (let n = (of_char c :: nat) in
      if is_upper c then Sextet (of_nat (n - 65))
      else if is_lower c then Sextet (of_nat (n - 97) + 26)
      else if is_digit c then Sextet (of_nat (n - 48) + 52)
      else if c = CHR ''+'' then Sextet 62
      else if c = CHR ''/'' then Sextet 63
      else if c = CHR ''='' \<or> n = 10 \<or> n = 13 then Skipped
      else Alien)"

fun unbase64_loop :: "string \<Rightarrow> 32 word \<Rightarrow> nat \<Rightarrow> 8 word list \<Rightarrow> 8 word list option" where
  "unbase64_loop [] bits held bytes = Some bytes"
| "unbase64_loop (c # cs) bits held bytes =
     (case b64_value c of
        Alien \<Rightarrow> None
      | Skipped \<Rightarrow> unbase64_loop cs bits held bytes
      | Sextet v \<Rightarrow>
          (let bits' = push_bit 6 bits OR v; held' = held + 6 in
           if 8 \<le> held'
           then unbase64_loop cs bits' (held' - 8)
                  (bytes @ [ucast (drop_bit (held' - 8) bits' AND 0xFF)])
           else unbase64_loop cs bits' held' bytes))"

definition unbase64 :: "string \<Rightarrow> 8 word list option" where
  "unbase64 text = unbase64_loop text 0 0 []"

section \<open>The alphabet\<close>

lemma b64_alphabet_ranges:
  "b64_alphabet = map (\<lambda>i. char_of (65 + i)) [0..<26] @ map (\<lambda>i. char_of (97 + i)) [0..<26]
     @ map (\<lambda>i. char_of (48 + i)) [0..<10] @ ''+/''"
  unfolding b64_alphabet_def by code_simp

lemma b64_value_alphabet_nat:
  assumes "v < 64"
  shows "b64_value (b64_alphabet ! v) = Sextet (of_nat v)"
proof -
  consider "v < 26" | i where "v = 26 + i" "i < 26" | i where "v = 52 + i" "i < 10"
    | "v = 62" | "v = 63"
  proof -
    have "v < 26 \<or> (\<exists>i. v = 26 + i \<and> i < 26) \<or> (\<exists>i. v = 52 + i \<and> i < 10) \<or> v = 62 \<or> v = 63"
      using assms by presburger
    then show thesis using that by blast
  qed
  then show ?thesis
    by cases (simp_all add: b64_alphabet_ranges nth_append b64_value_def is_upper_def is_lower_def
      is_digit_def Let_def)
qed

lemma mask63: "(63 :: 32 word) = mask 6" by (simp add: mask_eq_exp_minus_1)
lemma mask255: "(0xFF :: 32 word) = mask 8" by (simp add: mask_eq_exp_minus_1)

lemma sextet_bound: "unat (w AND 63 :: 32 word) < 64"
proof -
  have "w AND 63 = take_bit 6 w" by (simp add: take_bit_eq_mask mask63)
  then have "unat (w AND 63) = take_bit 6 (unat w)" by (simp add: unsigned_take_bit_eq)
  then show ?thesis using take_bit_nat_less_exp [of 6 "unat w"] by simp
qed

lemma b64_value_alphabet [simp]:
  "b64_value (b64_alphabet ! unat (w AND 63 :: 32 word)) = Sextet (w AND 63)"
  using b64_value_alphabet_nat [OF sextet_bound [of w]] by simp

lemma b64_value_pad [simp]: "b64_value (CHR ''='') = Skipped"
  by code_simp

section \<open>One block read back\<close>

lemma beyond8: "8 \<le> n \<Longrightarrow> \<not> bit (v :: 8 word) n"
  using bit_imp_le_length [of v n] by auto

lemmas block_bits = mask63 mask255 beyond8 bit_and_iff bit_or_iff bit_push_bit_iff
  bit_drop_bit_eq bit_mask_iff bit_ucast_iff

lemma eight: "(n::nat) < 8 \<Longrightarrow> n = 0 \<or> n = 1 \<or> n = 2 \<or> n = 3 \<or> n = 4 \<or> n = 5 \<or> n = 6 \<or> n = 7"
  by arith

definition block3 :: "8 word \<Rightarrow> 8 word \<Rightarrow> 8 word \<Rightarrow> 32 word" where
  "block3 a b c = push_bit 16 (ucast a) OR push_bit 8 (ucast b) OR ucast c"

lemma bit8_eqI: "(\<And>n. n < 8 \<Longrightarrow> bit (v :: 8 word) n = bit w n) \<Longrightarrow> v = w"
  by (rule bit_word_eqI) simp

lemma first_byte:
  "ucast (drop_bit 4 (push_bit 6 (push_bit 6 bits OR drop_bit 18 (block3 a b c) AND 63)
     OR drop_bit 12 (block3 a b c) AND 63) AND 0xFF) = a"
  by (rule bit8_eqI, drule eight, elim disjE) (simp_all add: block3_def block_bits)

lemma second_byte:
  "ucast (drop_bit 2 (push_bit 6 (push_bit 6 bits OR drop_bit 12 (block3 a b c) AND 63)
     OR drop_bit 6 (block3 a b c) AND 63) AND 0xFF) = b"
  by (rule bit8_eqI, drule eight, elim disjE) (simp_all add: block3_def block_bits)

lemma third_byte:
  "ucast ((push_bit 6 (push_bit 6 bits OR drop_bit 6 (block3 a b c) AND 63)
     OR block3 a b c AND 63) AND 0xFF) = c"
  by (rule bit8_eqI, drule eight, elim disjE) (simp_all add: block3_def block_bits)

lemmas block_bytes = first_byte second_byte third_byte

lemma b64_block_simps:
  "b64_block [a] = block3 a 0 0"
  "b64_block [a, b] = block3 a b 0"
  "b64_block [a, b, c] = block3 a b c"
  by (simp_all add: b64_block_def byte_at_def block3_def)

lemma four_positions: "[0..<4] = [0, 1, 2, 3 :: nat]"
  by code_simp

lemma agent_block_chars:
  "map (agent_b64_char [a]) [0..<4] =
     [b64_alphabet ! unat (drop_bit 18 (block3 a 0 0) AND 63),
      b64_alphabet ! unat (drop_bit 12 (block3 a 0 0) AND 63), CHR ''='', CHR ''='']"
  "map (agent_b64_char [a, b]) [0..<4] =
     [b64_alphabet ! unat (drop_bit 18 (block3 a b 0) AND 63),
      b64_alphabet ! unat (drop_bit 12 (block3 a b 0) AND 63),
      b64_alphabet ! unat (drop_bit 6 (block3 a b 0) AND 63), CHR ''='']"
  "map (agent_b64_char [a, b, c]) [0..<4] =
     [b64_alphabet ! unat (drop_bit 18 (block3 a b c) AND 63),
      b64_alphabet ! unat (drop_bit 12 (block3 a b c) AND 63),
      b64_alphabet ! unat (drop_bit 6 (block3 a b c) AND 63),
      b64_alphabet ! unat (block3 a b c AND 63)]"
  by (simp_all add: four_positions agent_b64_char_def b64_block_simps)

lemma webhook_block_chars:
  "webhook_b64_chunk [a] = map (agent_b64_char [a]) [0..<4]"
  "webhook_b64_chunk [a, b] = map (agent_b64_char [a, b]) [0..<4]"
  "webhook_b64_chunk [a, b, c] = map (agent_b64_char [a, b, c]) [0..<4]"
  by (simp_all only: agent_block_chars) (simp_all add: webhook_b64_chunk_def b64_block_simps Let_def)

section \<open>Whole strings\<close>

lemma chunks3_cases: "chunk \<in> set (chunks3 bytes) \<Longrightarrow>
    (\<exists>a. chunk = [a]) \<or> (\<exists>a b. chunk = [a, b]) \<or> (\<exists>a b c. chunk = [a, b, c])"
  by (induction bytes rule: chunks3.induct) auto

lemma encoders_agree: "webhook_base64 bytes = agent_base64 bytes"
  unfolding webhook_base64_def agent_base64_def
  by (rule arg_cong [where f = concat], rule map_cong)
    (auto dest!: chunks3_cases simp: webhook_block_chars)

text \<open>Two, three and four characters of a block, with an empty bit buffer before them.\<close>

lemma unbase64_two:
  assumes "b64_value c0 = Sextet v0" and "b64_value c1 = Sextet v1"
  shows "unbase64_loop (c0 # c1 # cs) bits 0 acc =
    unbase64_loop cs (push_bit 6 (push_bit 6 bits OR v0) OR v1) 4
      (acc @ [ucast (drop_bit 4 (push_bit 6 (push_bit 6 bits OR v0) OR v1) AND 0xFF)])"
  using assms by (simp add: Let_def)

lemma unbase64_third:
  assumes "b64_value c = Sextet v"
  shows "unbase64_loop (c # cs) bits 4 acc =
    unbase64_loop cs (push_bit 6 bits OR v) 2
      (acc @ [ucast (drop_bit 2 (push_bit 6 bits OR v) AND 0xFF)])"
  using assms by (simp add: Let_def)

lemma unbase64_fourth:
  assumes "b64_value c = Sextet v"
  shows "unbase64_loop (c # cs) bits 2 acc =
    unbase64_loop cs (push_bit 6 bits OR v) 0 (acc @ [ucast ((push_bit 6 bits OR v) AND 0xFF)])"
  using assms by (simp add: Let_def)

lemma unbase64_pad: "unbase64_loop (CHR ''='' # cs) bits held acc = unbase64_loop cs bits held acc"
  by simp

lemmas unbase64_block = unbase64_two unbase64_third unbase64_fourth unbase64_pad
  b64_value_alphabet block_bytes

lemma agent_base64_unfold:
  "agent_base64 [] = []"
  "agent_base64 [a] = map (agent_b64_char [a]) [0..<4] @ agent_base64 []"
  "agent_base64 [a, b] = map (agent_b64_char [a, b]) [0..<4] @ agent_base64 []"
  "agent_base64 [a, b, c] = map (agent_b64_char [a, b, c]) [0..<4] @ agent_base64 []"
  "agent_base64 (a # b # c # d # xs) =
     map (agent_b64_char [a, b, c]) [0..<4] @ agent_base64 (d # xs)"
  by (simp_all only: agent_base64_def chunks3.simps list.map concat.simps append_Nil2)

lemma unbase64_loop_agent:
  "unbase64_loop (agent_base64 bytes) bits 0 acc = Some (acc @ bytes)"
  by (induction bytes arbitrary: bits acc rule: chunks3.induct)
    (simp_all only: agent_base64_unfold agent_block_chars append_Cons append_Nil append_assoc
      unbase64_block unbase64_loop.simps(1) append_Nil2)

lemma base64_reads_back: "unbase64 (agent_base64 bytes) = Some bytes"
  by (simp add: unbase64_def unbase64_loop_agent)

text \<open>C31: the agent's base64 reads back byte for byte, and the webhook's encoder, written apart from it,
  writes the same characters.\<close>

theorem base64_round_trip:
  "unbase64 (agent_base64 bytes) = Some bytes \<and> unbase64 (webhook_base64 bytes) = Some bytes \<and>
   webhook_base64 bytes = agent_base64 bytes"
  by (simp add: base64_reads_back encoders_agree)

section \<open>The interface: an encoder with its decoder\<close>

locale codec =
  fixes enc :: "'b \<Rightarrow> 't" and dec :: "'t \<Rightarrow> 'b option"
  assumes reads_back: "dec (enc b) = Some b"
begin

lemma enc_inj: "enc a = enc b \<longleftrightarrow> a = b"
  by (metis option.inject reads_back)

lemma dec_sound: "dec t = Some b \<Longrightarrow> dec (enc b) = dec t"
  by (simp add: reads_back)

end

interpretation agent_codec: codec agent_base64 unbase64
  by unfold_locales (rule base64_reads_back)

interpretation webhook_codec: codec webhook_base64 unbase64
  by unfold_locales (simp add: encoders_agree base64_reads_back)

end
