(* ===== verification/Contract.thy ===== *)
theory Contract
  imports Prelude
begin

text \<open>
  The first half of \<open>annotations.rs\<close>: the registry of annotation keys and its deprecation
  warnings, the reading of quantities, permissions, identities and environment lists, the
  namespace-scoped name gates, and the removal of URL credentials from refusals. A refusal is a
  value of \<open>refusal\<close>; each constructor stands for one sentence of the source and carries what
  the sentence interpolates.
\<close>

datatype refusal =
    MarkWithoutAgent
  | MarkForeign string
  | NotBool string string
  | UnknownKey string
  | UnknownSource string string
  | Pinned string string string
  | PinnedHalf string string
  | NotOneOf string string
  | NotWholeSeconds string string
  | NotPort string string
  | NotQuantity string string
  | NotOctal string string
  | ModeTooWide string string
  | OwnerCannotRead string string
  | NotNumericId string string
  | RootId string
  | NotSecretForm string string
  | NotPair string string
  | BadVariableName string string
  | SetTwice string string
  | NamesNothing string
  | NotNamespace string
  | NotOfKind string string
  | NoStoreHead string
  | NotKnob string string
  | NotAbsolute string string
  | EmptyValue string string
  | Required string
  | BothSet string string
  | Contradicts string string
  | NotOffered string string
  | NoSuchContainer string string
  | NothingToInherit string
  | NotUid string
  | ZeroValue string
  | TooLarge string string
  | AnotherDirectory string string
  | LeftOut string string
  | NoCommand string
  | ProbeTaken string
  | InVariable string refusal

text \<open>What a refusal's sentence interpolates.\<close>

fun refusal_parts :: "refusal \<Rightarrow> string list" where
  "refusal_parts MarkWithoutAgent = []"
| "refusal_parts (InVariable v r) = v # refusal_parts r"
| "refusal_parts (MarkForeign a) = [a]"
| "refusal_parts (UnknownKey a) = [a]"
| "refusal_parts (RootId a) = [a]"
| "refusal_parts (NamesNothing a) = [a]"
| "refusal_parts (NotNamespace a) = [a]"
| "refusal_parts (NoStoreHead a) = [a]"
| "refusal_parts (Required a) = [a]"
| "refusal_parts (NothingToInherit a) = [a]"
| "refusal_parts (NotUid a) = [a]"
| "refusal_parts (ZeroValue a) = [a]"
| "refusal_parts (NoCommand a) = [a]"
| "refusal_parts (ProbeTaken a) = [a]"
| "refusal_parts (NotBool a b) = [a, b]"
| "refusal_parts (UnknownSource a b) = [a, b]"
| "refusal_parts (PinnedHalf a b) = [a, b]"
| "refusal_parts (NotOneOf a b) = [a, b]"
| "refusal_parts (NotWholeSeconds a b) = [a, b]"
| "refusal_parts (NotPort a b) = [a, b]"
| "refusal_parts (NotQuantity a b) = [a, b]"
| "refusal_parts (NotOctal a b) = [a, b]"
| "refusal_parts (ModeTooWide a b) = [a, b]"
| "refusal_parts (OwnerCannotRead a b) = [a, b]"
| "refusal_parts (NotNumericId a b) = [a, b]"
| "refusal_parts (NotSecretForm a b) = [a, b]"
| "refusal_parts (NotPair a b) = [a, b]"
| "refusal_parts (BadVariableName a b) = [a, b]"
| "refusal_parts (SetTwice a b) = [a, b]"
| "refusal_parts (NotOfKind a b) = [a, b]"
| "refusal_parts (NotKnob a b) = [a, b]"
| "refusal_parts (NotAbsolute a b) = [a, b]"
| "refusal_parts (EmptyValue a b) = [a, b]"
| "refusal_parts (BothSet a b) = [a, b]"
| "refusal_parts (Contradicts a b) = [a, b]"
| "refusal_parts (NotOffered a b) = [a, b]"
| "refusal_parts (NoSuchContainer a b) = [a, b]"
| "refusal_parts (TooLarge a b) = [a, b]"
| "refusal_parts (AnotherDirectory a b) = [a, b]"
| "refusal_parts (LeftOut a b) = [a, b]"
| "refusal_parts (Pinned a b c) = [a, b, c]"

definition PINS :: string where
  "PINS = ''the installation pins''"

text \<open>
  Whether the sentence contains \<open>PINS\<close>: the two sentences written with it do, and any other does
  when a value it echoes does.
\<close>

definition mentions_pins :: "refusal \<Rightarrow> bool" where
  "mentions_pins r =
     (case r of
        Pinned _ _ _ \<Rightarrow> True
      | PinnedHalf _ _ \<Rightarrow> True
      | _ \<Rightarrow> list_ex (contains_sub PINS) (refusal_parts r))"

definition PREFIX :: string where
  "PREFIX = ''dynamic-config.rs/''"

unbundle bit_operations_syntax

section \<open>Refusals without credentials\<close>

definition ellipsis :: string where
  "ellipsis = [char_of (0xE2 :: nat), char_of (0x80 :: nat), char_of (0xA6 :: nat)]"

definition ends_authority :: "char \<Rightarrow> bool" where
  "ends_authority c \<longleftrightarrow> c = CHR ''/'' \<or> c = CHR ''?'' \<or> c = CHR ''#''"

definition without_userinfo :: "string \<Rightarrow> string" where
  "without_userinfo value =
     (case find_sub ''://'' value of
        None \<Rightarrow> value
      | Some scheme \<Rightarrow>
          (let rest = drop (scheme + 3) value;
               authority = takeWhile (\<lambda>c. \<not> ends_authority c) rest;
               tail = dropWhile (\<lambda>c. \<not> ends_authority c) rest
           in case rsplit_once (CHR ''@'') authority of
                None \<Rightarrow> value
              | Some (userinfo, host) \<Rightarrow>
                  take (scheme + 3) value @ ellipsis @ ''@'' @ host @ tail))"

section \<open>The registry\<close>

record annotation_spec =
  spec_name :: string
  spec_per_render :: bool
  deprecated_since :: "string option"
  replacement :: "string option"

definition known :: "string \<Rightarrow> annotation_spec" where
  "known name = \<lparr> spec_name = name, spec_per_render = False, deprecated_since = None,
     replacement = None \<rparr>"

definition per_render :: "annotation_spec \<Rightarrow> annotation_spec" where
  "per_render spec = spec \<lparr> spec_per_render := True \<rparr>"

definition deprecated :: "string \<Rightarrow> string option \<Rightarrow> annotation_spec \<Rightarrow> annotation_spec" where
  "deprecated since repl spec = spec \<lparr> deprecated_since := Some since, replacement := repl \<rparr>"

definition REGISTRY :: "annotation_spec list" where
  "REGISTRY = [
    known ''inject'',
    per_render (known ''source''),
    per_render (known ''endpoint''),
    per_render (known ''endpoint-secret''),
    per_render (known ''key''),
    per_render (known ''path''),
    known ''mode'',
    per_render (known ''watch-seconds''),
    per_render (known ''timeout''),
    known ''agent-image'',
    per_render (known ''section''),
    per_render (known ''auth''),
    per_render (known ''auth-mount''),
    per_render (known ''auth-role''),
    per_render (known ''auth-username''),
    per_render (known ''auth-token-path''),
    per_render (known ''namespace''),
    per_render (known ''ref''),
    per_render (known ''api-url''),
    per_render (known ''token-secret''),
    per_render (known ''password-secret''),
    per_render (known ''ca-configmap''),
    per_render (known ''tls-secret''),
    per_render (known ''ssh-secret''),
    known ''volume-medium'',
    known ''native-sidecar'',
    known ''agent-cpu-request'',
    known ''agent-memory-request'',
    known ''agent-cpu-limit'',
    known ''agent-memory-limit'',
    per_render (known ''file-mode''),
    known ''agent-run-as-user'',
    known ''agent-run-as-group'',
    known ''agent-ephemeral-request'',
    known ''agent-ephemeral-limit'',
    known ''env-inject'',
    known ''env-restart'',
    per_render (known ''metrics-port''),
    known ''readiness'',
    known ''inject-containers'',
    known ''revoke-grace'',
    known ''init-first'',
    known ''notify-http'',
    known ''on-drift'',
    per_render (known ''tls-reload''),
    known ''history'',
    known ''require-ack'',
    known ''events'',
    known ''class'',
    known ''canary-configmap'',
    known ''agent-run-as-same-user'',
    known ''extra-secret'',
    per_render (known ''tls-server-name''),
    per_render (known ''tls-skip-verify''),
    known ''schema-configmap'',
    known ''startup-policy'',
    known ''on-delete'',
    known ''max-document-bytes'',
    known ''max-staleness'',
    known ''meta'',
    known ''dynamic'',
    known ''revoke-on-shutdown'',
    known ''aws-secret'',
    known ''agent-env'',
    per_render (known ''template''),
    per_render (known ''template-configmap'')]"

definition is_known :: "string \<Rightarrow> bool" where
  "is_known name \<longleftrightarrow> list_ex (\<lambda>spec. spec_name spec = name) REGISTRY"

definition is_per_render :: "string \<Rightarrow> bool" where
  "is_per_render name \<longleftrightarrow> list_ex (\<lambda>spec. spec_name spec = name \<and> spec_per_render spec) REGISTRY"

text \<open>A deprecation warning: the key as written, the release, and what replaces it.\<close>

datatype deprecation = Deprecated string string "string option"

definition deprecation_of :: "annotation_spec list \<Rightarrow> string \<Rightarrow> deprecation option" where
  "deprecation_of registry key =
     (case strip_prefix PREFIX key of
        None \<Rightarrow> None
      | Some name \<Rightarrow>
          (let base = (case split_once (CHR ''.'') name of Some (b, _) \<Rightarrow> b | None \<Rightarrow> name)
           in case find (\<lambda>spec. spec_name spec = base \<and> deprecated_since spec \<noteq> None) registry of
                None \<Rightarrow> None
              | Some spec \<Rightarrow>
                  Some (Deprecated name
                    (unwrap_or (deprecated_since spec) ''a previous release'')
                    (replacement spec))))"

definition deprecation_warnings :: "annotation_spec list \<Rightarrow> string list \<Rightarrow> deprecation list" where
  "deprecation_warnings registry present = List.map_filter (deprecation_of registry) present"

definition deprecations :: "string list \<Rightarrow> deprecation list" where
  "deprecations keys = deprecation_warnings REGISTRY keys"

section \<open>Quantities\<close>

definition MOST_HISTORY :: nat where
  "MOST_HISTORY = 10"

definition checked_mul64 :: "nat \<Rightarrow> nat \<Rightarrow> nat option" where
  "checked_mul64 a b = (if a * b < 2 ^ 64 then Some (a * b) else None)"

definition quantity_scale :: "string \<Rightarrow> string \<times> nat" where
  "quantity_scale q =
     (if ends_with ''Ki'' q then (take (length q - 2) q, 1024)
      else if ends_with ''Mi'' q then (take (length q - 2) q, 1024 * 1024)
      else if ends_with ''Gi'' q then (take (length q - 2) q, 1024 * 1024 * 1024)
      else if ends_with ''k'' q then (take (length q - 1) q, 1000)
      else if ends_with ''M'' q then (take (length q - 1) q, 1000000)
      else if ends_with ''G'' q then (take (length q - 1) q, 1000000000)
      else (q, 1))"

definition bytes_of :: "string \<Rightarrow> nat option" where
  "bytes_of q =
     (case quantity_scale q of (number, scale) \<Rightarrow>
        (case parse_uint 10 64 number of None \<Rightarrow> None | Some n \<Rightarrow> checked_mul64 n scale))"

record Resources =
  cpu_request :: string
  memory_request :: string
  cpu_limit :: "string option"
  memory_limit :: string
  ephemeral_request :: "string option"
  ephemeral_limit :: "string option"

definition SOURCES :: "string list" where
  "SOURCES = [''consul'', ''vault'', ''config-server'', ''firestore'', ''git'', ''redis'',
     ''etcd'', ''nats'', ''s3'']"

section \<open>Names grouped by namespace\<close>

type_synonym scoped_names = "(string \<times> string list) list"

definition no_names :: scoped_names where
  "no_names = []"

text \<open>\<open>split(..).map(str::trim).filter(non-empty)\<close>, the reading every list here shares.\<close>

definition split_trim :: "char \<Rightarrow> string \<Rightarrow> string list" where
  "split_trim c s = filter (\<lambda>f. f \<noteq> []) (map trim (split_on c s))"

definition namespace_ok :: "string \<Rightarrow> bool" where
  "namespace_ok n \<longleftrightarrow> n = ''*'' \<or>
     (n \<noteq> [] \<and> list_all (\<lambda>c. is_lower c \<or> is_digit c \<or> c = CHR ''-'') n)"

definition parse_group :: "(string \<Rightarrow> bool) \<Rightarrow> string \<Rightarrow> string \<Rightarrow> refusal + string \<times> string list" where
  "parse_group valid kind grp =
     (let (namespace, names) =
        (case split_once (CHR '':'') grp of
           Some (namespace, names) \<Rightarrow> (trim namespace, names)
         | None \<Rightarrow> (''*'', grp));
        list = split_trim (CHR '','') names
      in rbind (ensure (namespace_ok namespace) (NotNamespace namespace)) (\<lambda>_.
         rbind (rmap (\<lambda>name. if name = ''*'' \<or> valid name then Inr name
                             else Inl (NotOfKind kind name)) list) (\<lambda>names.
         if names = [] then Inl (NamesNothing namespace) else Inr (namespace, names))))"

definition parse_scoped :: "(string \<Rightarrow> bool) \<Rightarrow> string \<Rightarrow> string \<Rightarrow> refusal + scoped_names" where
  "parse_scoped valid kind spec = rmap (parse_group valid kind) (split_trim (CHR '';'') spec)"

definition upper_snake :: "char \<Rightarrow> bool" where
  "upper_snake c \<longleftrightarrow> is_upper c \<or> is_digit c \<or> c = CHR ''_''"

definition variable_head :: "string \<Rightarrow> bool" where
  "variable_head s = (case s of [] \<Rightarrow> False | c # _ \<Rightarrow> is_upper c \<or> c = CHR ''_'')"

definition env_name_pattern :: "string \<Rightarrow> bool" where
  "env_name_pattern name =
     (let stem = unwrap_or (strip_suffix ''*'' name) name
      in variable_head stem \<and> list_all upper_snake stem)"

definition env_names :: "string \<Rightarrow> refusal + scoped_names" where
  "env_names spec = parse_scoped env_name_pattern ''a variable name'' spec"

definition scoped_sources :: "string \<Rightarrow> refusal + scoped_names" where
  "scoped_sources spec =
     parse_scoped (\<lambda>name. name \<in> set SOURCES) ''a store this contract knows'' spec"

definition pattern_allows :: "string \<Rightarrow> string \<Rightarrow> bool" where
  "pattern_allows name pattern =
     (case strip_suffix ''*'' pattern of
        Some prefix \<Rightarrow> if pattern \<noteq> ''*'' then starts_with prefix name else True
      | None \<Rightarrow> pattern = name)"

definition in_scope :: "scoped_names \<Rightarrow> string \<Rightarrow> string list" where
  "in_scope groups namespace =
     concat (map snd (filter (\<lambda>(scope, _). scope = ''*'' \<or> scope = namespace) groups))"

definition allows :: "scoped_names \<Rightarrow> string \<Rightarrow> string \<Rightarrow> bool" where
  "allows groups namespace name = list_ex (pattern_allows name) (in_scope groups namespace)"

definition listing :: "scoped_names \<Rightarrow> string \<Rightarrow> string" where
  "listing groups namespace = join '', '' (in_scope groups namespace)"

section \<open>Permissions, identities and environment lists\<close>

definition octal_mode :: "string \<Rightarrow> string \<Rightarrow> refusal + string" where
  "octal_mode ctx text =
     rbind (ok_or (parse_uint 8 32 (unwrap_or (strip_prefix ''0o'' text) text)) (NotOctal ctx text))
       (\<lambda>value.
     rbind (ensure (value \<le> 511) (ModeTooWide ctx text)) (\<lambda>_.
     rbind (ensure (value AND 256 \<noteq> 0) (OwnerCannotRead ctx text)) (\<lambda>_.
     Inr (show_radix 8 value))))"

definition sane_quantity :: "string \<Rightarrow> bool" where
  "sane_quantity text \<longleftrightarrow>
     (case text of [] \<Rightarrow> False | c # _ \<Rightarrow> is_digit c) \<and>
     list_all (\<lambda>c. is_alnum c \<or> c = CHR ''.'') text"

definition nonroot_id :: "string \<Rightarrow> string \<Rightarrow> refusal + nat" where
  "nonroot_id ctx text =
     rbind (ok_or (parse_uint 10 32 text) (NotNumericId ctx text)) (\<lambda>id.
     if id = 0 then Inl (RootId ctx) else Inr id)"

definition env_entry :: "string \<Rightarrow> string \<Rightarrow> (string \<times> string) list \<Rightarrow> refusal + (string \<times> string) list" where
  "env_entry ctx entry entries =
     (case split_once (CHR ''='') entry of
        None \<Rightarrow> Inl (NotPair ctx entry)
      | Some (name, value) \<Rightarrow>
          (let name = trim name in
           if \<not> variable_head name \<or> \<not> list_all upper_snake name then Inl (BadVariableName ctx name)
           else if list_ex (\<lambda>(existing, _). existing = name) entries then Inl (SetTwice ctx name)
           else Inr (entries @ [(name, value)])))"

definition env_entries :: "string \<Rightarrow> string \<Rightarrow> refusal + (string \<times> string) list" where
  "env_entries ctx text =
     rbind (rfold (env_entry ctx) (split_trim (CHR '','') text) []) (\<lambda>entries.
     if entries = [] then Inl (NamesNothing ctx) else Inr entries)"

section \<open>Facts\<close>

lemma find_sub_first:
  assumes "CHR '':'' \<notin> set scheme"
  shows "find_sub ''://'' (scheme @ ''://'' @ t) = Some (length scheme)"
  using assms by (induction scheme) (auto simp: starts_with_def)

lemma takeWhile_authority:
  assumes "list_all (\<lambda>c. \<not> ends_authority c) a" and "tail = [] \<or> ends_authority (hd tail)"
  shows "takeWhile (\<lambda>c. \<not> ends_authority c) (a @ tail) = a"
    and "dropWhile (\<lambda>c. \<not> ends_authority c) (a @ tail) = tail"
  using assms by (induction a; cases tail; simp)+

lemma without_userinfo_url:
  assumes "CHR '':'' \<notin> set scheme"
    and "list_all (\<lambda>c. \<not> ends_authority c) (user @ host)"
    and "CHR ''@'' \<notin> set host" and "tail = [] \<or> ends_authority (hd tail)"
  shows "without_userinfo (scheme @ ''://'' @ user @ ''@'' @ host @ tail)
           = scheme @ ''://'' @ ellipsis @ ''@'' @ host @ tail"
proof -
  have "list_all (\<lambda>c. \<not> ends_authority c) (user @ ''@'' @ host)"
    using assms(2) by (simp add: ends_authority_def)
  note parts = takeWhile_authority [OF this assms(4)]
  have "rsplit_once (CHR ''@'') (user @ ''@'' @ host) = Some (user, host)"
    using rsplit_once_append [OF assms(3), of user] by simp
  with parts show ?thesis
    using find_sub_first [OF assms(1), of "user @ ''@'' @ host @ tail"]
    by (simp add: without_userinfo_def Let_def)
qed

lemma without_userinfo_plain:
  "find_sub ''://'' value = None \<Longrightarrow> without_userinfo value = value"
  by (simp add: without_userinfo_def)

subsection \<open>The registry\<close>

lemma registry_names:
  "map spec_name REGISTRY = [''inject'', ''source'', ''endpoint'', ''endpoint-secret'', ''key'',
    ''path'', ''mode'', ''watch-seconds'', ''timeout'', ''agent-image'', ''section'', ''auth'',
    ''auth-mount'', ''auth-role'', ''auth-username'', ''auth-token-path'', ''namespace'', ''ref'',
    ''api-url'', ''token-secret'', ''password-secret'', ''ca-configmap'', ''tls-secret'',
    ''ssh-secret'', ''volume-medium'', ''native-sidecar'', ''agent-cpu-request'',
    ''agent-memory-request'', ''agent-cpu-limit'', ''agent-memory-limit'', ''file-mode'',
    ''agent-run-as-user'', ''agent-run-as-group'', ''agent-ephemeral-request'',
    ''agent-ephemeral-limit'', ''env-inject'', ''env-restart'', ''metrics-port'', ''readiness'',
    ''inject-containers'', ''revoke-grace'', ''init-first'', ''notify-http'', ''on-drift'',
    ''tls-reload'', ''history'', ''require-ack'', ''events'', ''class'', ''canary-configmap'',
    ''agent-run-as-same-user'', ''extra-secret'', ''tls-server-name'', ''tls-skip-verify'',
    ''schema-configmap'', ''startup-policy'', ''on-delete'', ''max-document-bytes'',
    ''max-staleness'', ''meta'', ''dynamic'', ''revoke-on-shutdown'', ''aws-secret'',
    ''agent-env'', ''template'', ''template-configmap'']"
  by (simp add: REGISTRY_def known_def per_render_def)

lemma is_known_iff: "is_known name \<longleftrightarrow> name \<in> set (map spec_name REGISTRY)"
  by (auto simp: is_known_def list_ex_iff)

lemma registry_no_dot: "spec \<in> set REGISTRY \<Longrightarrow> CHR ''.'' \<notin> set (spec_name spec)"
proof -
  have "list_all (\<lambda>n. CHR ''.'' \<notin> set n) (map spec_name REGISTRY)"
    unfolding registry_names by simp
  then show "spec \<in> set REGISTRY \<Longrightarrow> CHR ''.'' \<notin> set (spec_name spec)"
    by (simp add: list_all_iff)
qed

lemma per_render_known: "is_per_render name \<Longrightarrow> is_known name"
  by (auto simp: is_per_render_def is_known_def list_ex_iff)

lemma suffixed_not_known: "\<not> is_known (base @ ''.'' @ suffix)"
proof
  assume "is_known (base @ ''.'' @ suffix)"
  then obtain spec where "spec \<in> set REGISTRY" "spec_name spec = base @ ''.'' @ suffix"
    by (auto simp: is_known_def list_ex_iff)
  then show False using registry_no_dot [of spec] by simp
qed

lemma registry_current: "spec \<in> set REGISTRY \<Longrightarrow> deprecated_since spec = None"
proof -
  have "list_all (\<lambda>spec. deprecated_since spec = None) REGISTRY"
    by (simp add: REGISTRY_def known_def per_render_def)
  then show "spec \<in> set REGISTRY \<Longrightarrow> deprecated_since spec = None" by (simp add: list_all_iff)
qed

lemma no_deprecations: "deprecations keys = []"
proof -
  have "find (\<lambda>spec. spec_name spec = b \<and> deprecated_since spec \<noteq> None) REGISTRY = None" for b
    using registry_current by (auto simp: find_None_iff)
  then have "deprecation_of REGISTRY key = None" for key
    by (simp add: deprecation_of_def split: option.splits)
  then show ?thesis
    by (simp add: deprecations_def deprecation_warnings_def map_filter_def)
qed
lemma registry_distinct: "distinct (map spec_name REGISTRY)"
  unfolding registry_names by simp

subsection \<open>Gates\<close>

lemma parse_group_sound:
  assumes "parse_group valid kind grp = Inr (scope, names)"
  shows "namespace_ok scope \<and> names \<noteq> [] \<and> (\<forall>n \<in> set names. n = ''*'' \<or> valid n)"
  using assms
  by (auto simp: parse_group_def Let_def res_simps rmap_check split: prod.splits if_splits)

lemma parse_scoped_sound:
  assumes "parse_scoped valid kind spec = Inr groups" and "(scope, names) \<in> set groups"
  shows "namespace_ok scope \<and> names \<noteq> [] \<and> (\<forall>n \<in> set names. n = ''*'' \<or> valid n)"
  using assms by (auto simp: parse_scoped_def dest!: rmap_Inr_in_set parse_group_sound)

lemma allows_iff:
  "allows groups namespace name \<longleftrightarrow>
     (\<exists>(scope, names) \<in> set groups. (scope = ''*'' \<or> scope = namespace) \<and>
        (\<exists>p \<in> set names. pattern_allows name p))"
  by (fastforce simp: allows_def in_scope_def list_ex_iff)

lemma source_pattern:
  assumes "p = ''*'' \<or> p \<in> set SOURCES"
  shows "pattern_allows name p \<longleftrightarrow> p = ''*'' \<or> p = name"
  using assms
  by (auto simp: SOURCES_def pattern_allows_def strip_suffix_def ends_with_def starts_with_def)

lemma source_gate_iff:
  assumes "scoped_sources spec = Inr groups"
  shows "allows groups namespace name \<longleftrightarrow>
     (\<exists>(scope, names) \<in> set groups. (scope = ''*'' \<or> scope = namespace) \<and>
        (''*'' \<in> set names \<or> name \<in> set names))"
proof -
  have names_iff: "(\<exists>p \<in> set names. pattern_allows name p) \<longleftrightarrow> ''*'' \<in> set names \<or> name \<in> set names"
    if "(scope, names) \<in> set groups" for scope names
  proof -
    have "\<forall>p \<in> set names. pattern_allows name p \<longleftrightarrow> p = ''*'' \<or> p = name"
      using parse_scoped_sound [OF assms [unfolded scoped_sources_def] that]
      by (simp add: source_pattern)
    then show ?thesis by metis
  qed
  show ?thesis
    unfolding allows_iff by (rule bex_cong [OF refl]) (use names_iff in blast)
qed

lemma in_scope_other_tenant:
  assumes "other \<noteq> ''*''" and "other \<noteq> namespace"
  shows "in_scope (before @ (other, names) # after) namespace = in_scope (before @ after) namespace"
  using assms by (simp add: in_scope_def)

subsection \<open>Permissions and environment lists\<close>

lemma show_radix_no_prefix: "r \<le> 10 \<Longrightarrow> 2 \<le> r \<Longrightarrow> strip_prefix ''0o'' (show_radix r n) = None"
proof (rule ccontr)
  assume r: "r \<le> 10" "2 \<le> r" and "strip_prefix ''0o'' (show_radix r n) \<noteq> None"
  then obtain t where "show_radix r n = ''0o'' @ t" by (auto simp: strip_prefix_eq_Some)
  then show False using digits_value_show [OF r(2,1), of n] r
    by (auto simp: digit_value_def Let_def split: option.splits if_splits)
qed

lemma octal_mode_eq_Inr:
  "octal_mode ctx text = Inr m \<longleftrightarrow>
     (\<exists>v. parse_uint 8 32 (unwrap_or (strip_prefix ''0o'' text) text) = Some v \<and>
          v \<le> 511 \<and> v AND 256 \<noteq> 0 \<and> m = show_radix 8 v)"
  by (auto simp: octal_mode_def res_simps)

lemma octal_mode_sound:
  assumes "octal_mode ctx text = Inr m"
  shows "\<exists>v. m = show_radix 8 v \<and> v \<le> 511 \<and> v AND 256 \<noteq> 0"
  using assms by (auto simp: octal_mode_eq_Inr)

definition env_ok :: "(string \<times> string) list \<Rightarrow> bool" where
  "env_ok entries \<longleftrightarrow> distinct (map fst entries) \<and>
     list_all (\<lambda>(name, _). variable_head name \<and> list_all upper_snake name) entries"

lemma env_entry_ok:
  assumes "env_ok entries" and "env_entry ctx entry entries = Inr entries'"
  shows "env_ok entries'"
  using assms
  by (force simp: env_entry_def env_ok_def list_ex_iff image_iff Let_def
      split: option.splits prod.splits if_splits)

lemma env_entries_ok:
  assumes "env_entries ctx text = Inr entries"
  shows "env_ok entries" and "entries \<noteq> []"
proof -
  from assms have fold: "rfold (env_entry ctx) (split_trim (CHR '','') text) [] = Inr entries"
    and "entries \<noteq> []"
    by (auto simp: env_entries_def res_simps split: if_splits)
  from fold show "env_ok entries"
    by (rule rfold_invariant) (auto simp: env_ok_def [of "[]"] intro: env_entry_ok)
  show "entries \<noteq> []" by fact
qed

end
