(* ===== verification/Knobs.thy ===== *)
theory Knobs
  imports Contract
begin

text \<open>
  What an installation decides (\<open>annotations.rs\<close>): one tier of knob defaults and its
  \<open>key=value\<close> setter with the pin markers, the installation read from its variables, and the
  resolution of a knob through the tiers, with the pin that goes with the value.
\<close>

datatype Mode = Init | Sidecar | Both

record knob_defaults =
  k_cpu_request :: "string option"
  k_memory_request :: "string option"
  k_cpu_limit :: "string option"
  k_memory_limit :: "string option"
  k_file_mode :: "string option"
  k_watch_seconds :: "nat option"
  k_mode :: "Mode option"
  k_volume_memory :: "bool option"
  k_native_sidecar :: "bool option"
  k_run_as_user :: "nat option"
  k_run_as_group :: "nat option"
  k_metrics_port :: "nat option"
  k_path :: "string option"
  k_endpoint :: "string option"
  k_endpoint_secret :: "string option"
  k_key :: "string option"
  k_token_secret :: "string option"
  k_password_secret :: "string option"
  k_ca_configmap :: "string option"
  k_tls_secret :: "string option"
  k_ssh_secret :: "string option"
  k_aws_secret :: "string option"
  k_section :: "string option"
  k_auth :: "string option"
  k_auth_mount :: "string option"
  k_auth_role :: "string option"
  k_auth_username :: "string option"
  k_auth_token_path :: "string option"
  k_namespace :: "string option"
  k_reference :: "string option"
  k_api_url :: "string option"
  k_template :: "string option"
  k_template_configmap :: "string option"
  k_overridable :: "bool option"
  k_rules :: "(string \<times> bool) list"

definition no_knobs :: knob_defaults where
  "no_knobs = \<lparr> k_cpu_request = None, k_memory_request = None, k_cpu_limit = None,
     k_memory_limit = None, k_file_mode = None, k_watch_seconds = None, k_mode = None,
     k_volume_memory = None, k_native_sidecar = None, k_run_as_user = None, k_run_as_group = None,
     k_metrics_port = None, k_path = None, k_endpoint = None, k_endpoint_secret = None,
     k_key = None, k_token_secret = None, k_password_secret = None, k_ca_configmap = None,
     k_tls_secret = None, k_ssh_secret = None, k_aws_secret = None, k_section = None,
     k_auth = None, k_auth_mount = None, k_auth_role = None, k_auth_username = None,
     k_auth_token_path = None, k_namespace = None, k_reference = None, k_api_url = None,
     k_template = None, k_template_configmap = None, k_overridable = None, k_rules = [] \<rparr>"

unbundle bit_operations_syntax

section \<open>The setter of one tier\<close>

text \<open>The trailing \<open>!\<close> or \<open>?\<close> of a value, as \<open>set\<close> and the fleet source read it.\<close>

definition marker :: "string \<Rightarrow> string \<times> bool option" where
  "marker value =
     (case strip_suffix ''!'' value of
        Some v \<Rightarrow> (trim_end v, Some False)
      | None \<Rightarrow> (case strip_suffix ''?'' value of
          Some v \<Rightarrow> (trim_end v, Some True)
        | None \<Rightarrow> (value, None)))"

definition parse_mode :: "refusal \<Rightarrow> string \<Rightarrow> refusal + Mode" where
  "parse_mode err value =
     (if value = ''init'' then Inr Init
      else if value = ''sidecar'' then Inr Sidecar
      else if value = ''both'' then Inr Both
      else Inl err)"

definition parse_bool :: "refusal \<Rightarrow> string \<Rightarrow> refusal + bool" where
  "parse_bool err value =
     (if value = ''true'' then Inr True else if value = ''false'' then Inr False else Inl err)"

definition parse_medium :: "refusal \<Rightarrow> string \<Rightarrow> refusal + bool" where
  "parse_medium err value =
     (if value = ''memory'' then Inr True else if value = ''disk'' then Inr False else Inl err)"

definition quantity_keys :: "string list" where
  "quantity_keys =
     [''agent-cpu-request'', ''agent-memory-request'', ''agent-cpu-limit'', ''agent-memory-limit'']"

definition set_quantity :: "string \<Rightarrow> string \<Rightarrow> string \<Rightarrow> knob_defaults \<Rightarrow> refusal + knob_defaults" where
  "set_quantity ctx key value d =
     (if \<not> sane_quantity value then Inl (NotQuantity (ctx @ '': '' @ key) value)
      else Inr (if key = ''agent-cpu-request'' then d \<lparr> k_cpu_request := Some value \<rparr>
                else if key = ''agent-memory-request'' then d \<lparr> k_memory_request := Some value \<rparr>
                else if key = ''agent-cpu-limit'' then d \<lparr> k_cpu_limit := Some value \<rparr>
                else d \<lparr> k_memory_limit := Some value \<rparr>))"

definition string_keys :: "string list" where
  "string_keys = [''endpoint'', ''endpoint-secret'', ''key'', ''token-secret'', ''password-secret'', ''ca-configmap'', ''tls-secret'', ''ssh-secret'', ''aws-secret'', ''section'', ''auth'', ''auth-mount'', ''auth-role'', ''auth-username'', ''auth-token-path'', ''namespace'', ''ref'', ''api-url'', ''template'', ''template-configmap'']"

definition string_slot :: "string \<Rightarrow> string \<Rightarrow> knob_defaults \<Rightarrow> knob_defaults" where
  "string_slot key value d =
     (if key = ''endpoint'' then d \<lparr> k_endpoint := Some value \<rparr>
      else if key = ''endpoint-secret'' then d \<lparr> k_endpoint_secret := Some value \<rparr>
      else if key = ''key'' then d \<lparr> k_key := Some value \<rparr>
      else if key = ''token-secret'' then d \<lparr> k_token_secret := Some value \<rparr>
      else if key = ''password-secret'' then d \<lparr> k_password_secret := Some value \<rparr>
      else if key = ''ca-configmap'' then d \<lparr> k_ca_configmap := Some value \<rparr>
      else if key = ''tls-secret'' then d \<lparr> k_tls_secret := Some value \<rparr>
      else if key = ''ssh-secret'' then d \<lparr> k_ssh_secret := Some value \<rparr>
      else if key = ''aws-secret'' then d \<lparr> k_aws_secret := Some value \<rparr>
      else if key = ''section'' then d \<lparr> k_section := Some value \<rparr>
      else if key = ''auth'' then d \<lparr> k_auth := Some value \<rparr>
      else if key = ''auth-mount'' then d \<lparr> k_auth_mount := Some value \<rparr>
      else if key = ''auth-role'' then d \<lparr> k_auth_role := Some value \<rparr>
      else if key = ''auth-username'' then d \<lparr> k_auth_username := Some value \<rparr>
      else if key = ''auth-token-path'' then d \<lparr> k_auth_token_path := Some value \<rparr>
      else if key = ''namespace'' then d \<lparr> k_namespace := Some value \<rparr>
      else if key = ''ref'' then d \<lparr> k_reference := Some value \<rparr>
      else if key = ''api-url'' then d \<lparr> k_api_url := Some value \<rparr>
      else if key = ''template'' then d \<lparr> k_template := Some value \<rparr>
      else d \<lparr> k_template_configmap := Some value \<rparr>)"

definition secret_keys :: "string list" where
  "secret_keys = [''token-secret'', ''password-secret'', ''endpoint-secret'']"

definition set_string :: "string \<Rightarrow> string \<Rightarrow> string \<Rightarrow> knob_defaults \<Rightarrow> refusal + knob_defaults" where
  "set_string ctx key value d =
     (if value = [] then Inl (EmptyValue ctx key)
      else if key \<in> set secret_keys \<and> CHR ''/'' \<notin> set value
      then Inl (NotSecretForm (ctx @ '': '' @ key) value)
      else Inr (string_slot key value d))"

definition set_value :: "string \<Rightarrow> string \<Rightarrow> string \<Rightarrow> knob_defaults \<Rightarrow> refusal + knob_defaults" where
  "set_value ctx key value d =
     (let at = ctx @ '': '' @ key in
      if key \<in> set quantity_keys then set_quantity ctx key value d
      else if key = ''file-mode'' then
        rbind (octal_mode at value) (\<lambda>m. Inr (d \<lparr> k_file_mode := Some m \<rparr>))
      else if key = ''watch-seconds'' then
        rbind (ok_or (parse_uint 10 64 value) (NotWholeSeconds at value))
          (\<lambda>n. Inr (d \<lparr> k_watch_seconds := Some n \<rparr>))
      else if key = ''mode'' then
        rbind (parse_mode (NotOneOf at value) value) (\<lambda>m. Inr (d \<lparr> k_mode := Some m \<rparr>))
      else if key = ''volume-medium'' then
        rbind (parse_medium (NotOneOf at value) value)
          (\<lambda>b. Inr (d \<lparr> k_volume_memory := Some b \<rparr>))
      else if key = ''native-sidecar'' then
        rbind (parse_bool (NotBool at value) value)
          (\<lambda>b. Inr (d \<lparr> k_native_sidecar := Some b \<rparr>))
      else if key = ''agent-run-as-user'' then
        rbind (nonroot_id at value) (\<lambda>i. Inr (d \<lparr> k_run_as_user := Some i \<rparr>))
      else if key = ''agent-run-as-group'' then
        rbind (nonroot_id at value) (\<lambda>i. Inr (d \<lparr> k_run_as_group := Some i \<rparr>))
      else if key = ''metrics-port'' then
        rbind (ok_or (parse_uint 10 16 value) (NotPort at value))
          (\<lambda>n. Inr (d \<lparr> k_metrics_port := Some n \<rparr>))
      else if key = ''path'' then
        (if \<not> starts_with ''/'' value then Inl (NotAbsolute at value)
         else Inr (d \<lparr> k_path := Some value \<rparr>))
      else if key = ''overridable'' then
        rbind (parse_bool (NotBool at value) value) (\<lambda>b. Inr (d \<lparr> k_overridable := Some b \<rparr>))
      else if key \<in> set string_keys then set_string ctx key value d
      else Inl (NotKnob ctx key))"

definition knob_set :: "string \<Rightarrow> string \<Rightarrow> string \<Rightarrow> knob_defaults \<Rightarrow> refusal + knob_defaults" where
  "knob_set ctx key text d =
     (case marker text of (value, rule) \<Rightarrow>
        set_value ctx key value
          (case rule of None \<Rightarrow> d | Some overridable \<Rightarrow>
             d \<lparr> k_rules := k_rules d @ [(key, overridable)] \<rparr>))"

section \<open>The installation\<close>

definition FLEET_KNOBS :: "(string \<times> string) list" where
  "FLEET_KNOBS = [
     (''DYNAMIC_CONFIG_AGENT_CPU_REQUEST'', ''agent-cpu-request''),
     (''DYNAMIC_CONFIG_AGENT_MEMORY_REQUEST'', ''agent-memory-request''),
     (''DYNAMIC_CONFIG_AGENT_CPU_LIMIT'', ''agent-cpu-limit''),
     (''DYNAMIC_CONFIG_AGENT_MEMORY_LIMIT'', ''agent-memory-limit''),
     (''DYNAMIC_CONFIG_AGENT_FILE_MODE'', ''file-mode''),
     (''DYNAMIC_CONFIG_AGENT_WATCH_SECONDS'', ''watch-seconds''),
     (''DYNAMIC_CONFIG_AGENT_MODE'', ''mode''),
     (''DYNAMIC_CONFIG_AGENT_VOLUME_MEDIUM'', ''volume-medium''),
     (''DYNAMIC_CONFIG_AGENT_NATIVE_SIDECAR'', ''native-sidecar''),
     (''DYNAMIC_CONFIG_AGENT_RUN_AS_USER'', ''agent-run-as-user''),
     (''DYNAMIC_CONFIG_AGENT_RUN_AS_GROUP'', ''agent-run-as-group''),
     (''DYNAMIC_CONFIG_AGENT_METRICS_PORT'', ''metrics-port''),
     (''DYNAMIC_CONFIG_AGENT_PATH'', ''path'')]"

record Installation =
  fleet :: knob_defaults
  per_store :: "(string \<times> knob_defaults) list"
  fleet_source :: "string option"
  source_rule :: "bool option"
  overridable :: bool
  install_env :: "(string \<times> string) list"
  agent_env_allow :: scoped_names
  source_allow :: scoped_names
  source_deny :: scoped_names
  allow_tls_skip_verify :: bool
  allow_events :: bool
  agent_image_allow :: "string list"

text \<open>A variable that is set and empty counts as absent here.\<close>

definition set_var :: "(string \<Rightarrow> string option) \<Rightarrow> string \<Rightarrow> string option" where
  "set_var lookup name = (case lookup name of Some [] \<Rightarrow> None | v \<Rightarrow> v)"

definition fleet_knob :: "(string \<Rightarrow> string option) \<Rightarrow> string \<times> string \<Rightarrow> knob_defaults
    \<Rightarrow> refusal + knob_defaults" where
  "fleet_knob var entry d =
     (case entry of (variable, knob) \<Rightarrow>
        (case var variable of None \<Rightarrow> Inr d | Some text \<Rightarrow> knob_set variable knob text d))"

definition STORE_DEFAULTS :: string where
  "STORE_DEFAULTS = ''DYNAMIC_CONFIG_AGENT_STORE_DEFAULTS''"

definition store_pair :: "string \<Rightarrow> string \<Rightarrow> knob_defaults \<Rightarrow> refusal + knob_defaults" where
  "store_pair store pair d =
     (case split_once (CHR ''='') pair of
        None \<Rightarrow> Inl (NotPair (STORE_DEFAULTS @ '' ('' @ store @ '')'') pair)
      | Some (key, value) \<Rightarrow>
          knob_set (STORE_DEFAULTS @ '' ('' @ store @ '')'') (trim key) (trim value) d)"

definition store_group :: "string \<Rightarrow> (string \<times> knob_defaults) list
    \<Rightarrow> refusal + (string \<times> knob_defaults) list" where
  "store_group grp stores =
     (case split_once (CHR '':'') grp of
        None \<Rightarrow> Inl (NoStoreHead grp)
      | Some (head, knobs) \<Rightarrow>
          (let store = trim head in
           if store \<notin> set SOURCES then Inl (UnknownSource STORE_DEFAULTS store)
           else if list_ex (\<lambda>(name, _). name = store) stores then Inl (SetTwice STORE_DEFAULTS store)
           else rbind (rfold (store_pair store) (split_trim (CHR '','') knobs) no_knobs)
                  (\<lambda>d. Inr (stores @ [(store, d)]))))"

definition fleet_source_of :: "string option \<Rightarrow> refusal + string option \<times> bool option" where
  "fleet_source_of text =
     (case text of
        None \<Rightarrow> Inr (None, None)
      | Some t \<Rightarrow>
          (case marker t of (name, rule) \<Rightarrow>
             if name \<notin> set SOURCES then Inl (UnknownSource ''DYNAMIC_CONFIG_AGENT_SOURCE'' name)
             else Inr (Some name, rule)))"

definition scoped_var :: "(string \<Rightarrow> string option) \<Rightarrow> string \<Rightarrow> (string \<Rightarrow> refusal + scoped_names)
    \<Rightarrow> refusal + scoped_names" where
  "scoped_var var variable parse =
     (case var variable of
        None \<Rightarrow> Inr no_names
      | Some spec \<Rightarrow> map_err (InVariable variable) (parse spec))"

definition flag_var :: "bool \<Rightarrow> (string \<Rightarrow> string option) \<Rightarrow> string \<Rightarrow> refusal + bool" where
  "flag_var default_value var variable =
     (case var variable of
        None \<Rightarrow> Inr default_value
      | Some text \<Rightarrow> parse_bool (NotBool variable text) text)"

definition from_lookup :: "(string \<Rightarrow> string option) \<Rightarrow> refusal + Installation" where
  "from_lookup lookup =
     (let var = set_var lookup in
      rbind (rfold (fleet_knob var) FLEET_KNOBS no_knobs) (\<lambda>fleet.
      rbind (rfold store_group (split_trim (CHR '';'') (unwrap_or (var STORE_DEFAULTS) [])) [])
        (\<lambda>per_store.
      rbind (flag_var True var ''DYNAMIC_CONFIG_AGENT_DEFAULTS_OVERRIDABLE'') (\<lambda>overridable.
      rbind (fleet_source_of (var ''DYNAMIC_CONFIG_AGENT_SOURCE'')) (\<lambda>(source, rule).
      rbind (case var ''DYNAMIC_CONFIG_AGENT_ENV'' of
               None \<Rightarrow> Inr []
             | Some text \<Rightarrow> env_entries ''DYNAMIC_CONFIG_AGENT_ENV'' text) (\<lambda>agent_env.
      rbind (scoped_var var ''DYNAMIC_CONFIG_WEBHOOK_AGENT_ENV_ALLOW'' env_names) (\<lambda>env_allow.
      rbind (scoped_var var ''DYNAMIC_CONFIG_WEBHOOK_SOURCE_ALLOW'' scoped_sources) (\<lambda>allow.
      rbind (scoped_var var ''DYNAMIC_CONFIG_WEBHOOK_SOURCE_DENY'' scoped_sources) (\<lambda>deny.
      rbind (flag_var False var ''DYNAMIC_CONFIG_WEBHOOK_ALLOW_EVENTS'') (\<lambda>events.
      rbind (flag_var False var ''DYNAMIC_CONFIG_WEBHOOK_ALLOW_TLS_SKIP_VERIFY'') (\<lambda>skip.
      Inr \<lparr> fleet = fleet, per_store = per_store, fleet_source = source, source_rule = rule,
            overridable = overridable, install_env = agent_env, agent_env_allow = env_allow,
            source_allow = allow, source_deny = deny, allow_tls_skip_verify = skip,
            allow_events = events,
            agent_image_allow =
              (case var ''DYNAMIC_CONFIG_WEBHOOK_AGENT_IMAGE_ALLOW'' of
                 None \<Rightarrow> [] | Some text \<Rightarrow> split_trim (CHR '','') text) \<rparr>)))))))))))"

text \<open>The environment over the mounted document: only a variable that is not set falls through.\<close>

definition layered :: "(string \<Rightarrow> string option) \<Rightarrow> (string \<Rightarrow> string option) \<Rightarrow> string \<Rightarrow> string option" where
  "layered environment mounted name = or_else (environment name) (mounted name)"

definition from_environment :: "(string \<Rightarrow> string option) \<Rightarrow> (string \<Rightarrow> string option)
    \<Rightarrow> refusal + Installation" where
  "from_environment environment mounted = from_lookup (layered environment mounted)"

section \<open>Resolution through the tiers\<close>

definition store_tier :: "Installation \<Rightarrow> string option \<Rightarrow> knob_defaults option" where
  "store_tier inst source =
     (case source of None \<Rightarrow> None | Some s \<Rightarrow> map_of (per_store inst) s)"

definition tier_value :: "Installation \<Rightarrow> string \<Rightarrow> (knob_defaults \<Rightarrow> 'v option) \<Rightarrow> knob_defaults
    \<Rightarrow> ('v \<times> bool) option" where
  "tier_value inst key pick knobs =
     map_option (\<lambda>value.
       (value,
        \<not> unwrap_or (or_else (map_of (k_rules knobs) key) (k_overridable knobs)) (overridable inst)))
       (pick knobs)"

definition supplied :: "Installation \<Rightarrow> string option \<Rightarrow> string \<Rightarrow> (knob_defaults \<Rightarrow> 'v option)
    \<Rightarrow> ('v \<times> bool) option" where
  "supplied inst source key pick =
     or_else
       (case store_tier inst source of None \<Rightarrow> None | Some k \<Rightarrow> tier_value inst key pick k)
       (tier_value inst key pick (fleet inst))"

definition knob :: "Installation \<Rightarrow> string option \<Rightarrow> (knob_defaults \<Rightarrow> 'v option) \<Rightarrow> 'v option" where
  "knob inst source pick = map_option fst (supplied inst source [] pick)"

definition string_picks :: "(string \<times> (knob_defaults \<Rightarrow> string option)) list" where
  "string_picks =
    [(''endpoint'', k_endpoint),
     (''endpoint-secret'', k_endpoint_secret),
     (''key'', k_key),
     (''path'', k_path),
     (''token-secret'', k_token_secret),
     (''password-secret'', k_password_secret),
     (''ca-configmap'', k_ca_configmap),
     (''tls-secret'', k_tls_secret),
     (''ssh-secret'', k_ssh_secret),
     (''aws-secret'', k_aws_secret),
     (''section'', k_section),
     (''auth'', k_auth),
     (''auth-mount'', k_auth_mount),
     (''auth-role'', k_auth_role),
     (''auth-username'', k_auth_username),
     (''auth-token-path'', k_auth_token_path),
     (''namespace'', k_namespace),
     (''ref'', k_reference),
     (''api-url'', k_api_url),
     (''template'', k_template),
     (''template-configmap'', k_template_configmap)]"

type_synonym supplied_string = "string \<times> string \<times> bool"

definition store_strings :: "Installation \<Rightarrow> string option \<Rightarrow> supplied_string list" where
  "store_strings inst source =
     List.map_filter (\<lambda>(key, pick).
       map_option (\<lambda>(value, pinned). (key, value, pinned)) (supplied inst source key pick))
       string_picks"

definition supplied_source :: "Installation \<Rightarrow> (string \<times> bool) option" where
  "supplied_source inst =
     map_option (\<lambda>source. (source, \<not> unwrap_or (source_rule inst) (overridable inst)))
       (fleet_source inst)"

definition source_denied :: "Installation \<Rightarrow> string \<Rightarrow> string \<Rightarrow> bool" where
  "source_denied inst namespace source = allows (source_deny inst) namespace source"

definition source_allowed :: "Installation \<Rightarrow> string \<Rightarrow> string \<Rightarrow> bool" where
  "source_allowed inst namespace source \<longleftrightarrow>
     source_allow inst = [] \<or> allows (source_allow inst) namespace source"

definition agent_image_allowed :: "Installation \<Rightarrow> string \<Rightarrow> bool" where
  "agent_image_allowed inst img = list_ex (\<lambda>prefix. starts_with prefix img) (agent_image_allow inst)"

definition agent_env_allowed :: "Installation \<Rightarrow> string \<Rightarrow> string \<Rightarrow> bool" where
  "agent_env_allowed inst namespace name = allows (agent_env_allow inst) namespace name"

definition agent_env_listing :: "Installation \<Rightarrow> string \<Rightarrow> string" where
  "agent_env_listing inst namespace = listing (agent_env_allow inst) namespace"

definition source_listing :: "Installation \<Rightarrow> string \<Rightarrow> string" where
  "source_listing inst namespace = listing (source_allow inst) namespace"

section \<open>A tier that was set is well formed\<close>

definition canonical_mode :: "string \<Rightarrow> bool" where
  "canonical_mode m \<longleftrightarrow> octal_mode [] m = Inr m"

text \<open>The store-shaped strings of a tier, in the order of the struct.\<close>

definition tier_strings :: "knob_defaults \<Rightarrow> string option list" where
  "tier_strings d =
     [k_endpoint d, k_endpoint_secret d, k_key d, k_token_secret d, k_password_secret d,
      k_ca_configmap d, k_tls_secret d, k_ssh_secret d, k_aws_secret d, k_section d, k_auth d,
      k_auth_mount d, k_auth_role d, k_auth_username d, k_auth_token_path d, k_namespace d,
      k_reference d, k_api_url d, k_template d, k_template_configmap d]"

definition tier_ok :: "knob_defaults \<Rightarrow> bool" where
  "tier_ok d \<longleftrightarrow>
     list_all (pred_option sane_quantity)
       [k_cpu_request d, k_memory_request d, k_cpu_limit d, k_memory_limit d] \<and>
     pred_option canonical_mode (k_file_mode d) \<and>
     pred_option (\<lambda>n. n < 2 ^ 64) (k_watch_seconds d) \<and>
     list_all (pred_option (\<lambda>n. 0 < n \<and> n < 2 ^ 32)) [k_run_as_user d, k_run_as_group d] \<and>
     pred_option (\<lambda>n. n < 2 ^ 16) (k_metrics_port d) \<and>
     pred_option (starts_with ''/'') (k_path d) \<and>
     list_all (pred_option (\<lambda>s. s \<noteq> [])) (tier_strings d) \<and>
     list_all (pred_option (\<lambda>s. CHR ''/'' \<in> set s))
       [k_endpoint_secret d, k_token_secret d, k_password_secret d]"

lemmas tier_ok_defs = tier_ok_def tier_strings_def

lemma tier_ok_no_knobs: "tier_ok no_knobs"
  by (simp add: tier_ok_defs no_knobs_def)

lemma octal_mode_canonical:
  assumes "octal_mode ctx text = Inr m"
  shows "canonical_mode m"
proof -
  obtain v where v: "m = show_radix 8 v" "v \<le> 511" "v AND 256 \<noteq> 0"
    using octal_mode_sound [OF assms] by auto
  then have "parse_uint 8 32 m = Some v" by (simp add: parse_uint_show)
  with v show ?thesis
    by (simp add: canonical_mode_def octal_mode_eq_Inr show_radix_no_prefix)
qed

lemma tier_ok_updates:
  assumes "tier_ok d"
  shows "canonical_mode m \<Longrightarrow> tier_ok (d \<lparr> k_file_mode := Some m \<rparr>)"
    and "n < 2 ^ 64 \<Longrightarrow> tier_ok (d \<lparr> k_watch_seconds := Some n \<rparr>)"
    and "0 < i \<Longrightarrow> i < 2 ^ 32 \<Longrightarrow> tier_ok (d \<lparr> k_run_as_user := Some i \<rparr>)"
    and "0 < i \<Longrightarrow> i < 2 ^ 32 \<Longrightarrow> tier_ok (d \<lparr> k_run_as_group := Some i \<rparr>)"
    and "p < 2 ^ 16 \<Longrightarrow> tier_ok (d \<lparr> k_metrics_port := Some p \<rparr>)"
    and "starts_with ''/'' s \<Longrightarrow> tier_ok (d \<lparr> k_path := Some s \<rparr>)"
    and "tier_ok (d \<lparr> k_mode := Some x \<rparr>)" "tier_ok (d \<lparr> k_volume_memory := Some b \<rparr>)"
    and "tier_ok (d \<lparr> k_native_sidecar := Some b \<rparr>)" "tier_ok (d \<lparr> k_overridable := Some b \<rparr>)"
    and "tier_ok (d \<lparr> k_rules := r \<rparr>)"
  using assms by (simp_all add: tier_ok_defs)

lemma tier_ok_quantity_updates:
  assumes "tier_ok d" and "sane_quantity q"
  shows "tier_ok (d \<lparr> k_cpu_request := Some q \<rparr>)" "tier_ok (d \<lparr> k_memory_request := Some q \<rparr>)"
    "tier_ok (d \<lparr> k_cpu_limit := Some q \<rparr>)" "tier_ok (d \<lparr> k_memory_limit := Some q \<rparr>)"
  using assms by (simp_all add: tier_ok_defs)

lemma string_slot_ok:
  assumes "tier_ok d" and "key \<in> set string_keys" and "v \<noteq> []"
    and "key \<in> set secret_keys \<Longrightarrow> CHR ''/'' \<in> set v"
  shows "tier_ok (string_slot key v d)"
  using assms(2) unfolding string_keys_def list.set insert_iff empty_iff
  by (elim disjE) (insert assms, simp_all add: string_slot_def tier_ok_defs secret_keys_def)

lemma set_string_ok:
  assumes "tier_ok d" and "key \<in> set string_keys" and "set_string ctx key value d = Inr d'"
  shows "tier_ok d'"
  using assms string_slot_ok [of d key "value"] by (auto simp: set_string_def split: if_splits)

lemma set_quantity_ok:
  assumes "tier_ok d" and "set_quantity ctx key v d = Inr d'"
  shows "tier_ok d'"
  using assms by (auto simp: set_quantity_def tier_ok_quantity_updates split: if_splits)

lemma nonroot_id_bounds: "nonroot_id ctx text = Inr n \<Longrightarrow> 0 < n \<and> n < 2 ^ 32"
  by (auto simp: nonroot_id_def res_simps dest: parse_uint_less split: if_splits)

text \<open>The keys of \<open>set\<close> that are neither quantities nor store-shaped strings.\<close>

lemma set_scalar_ok:
  assumes "tier_ok d" and "set_value ctx key v d = Inr d'"
    and "key \<notin> set quantity_keys" and "key \<notin> set string_keys"
  shows "tier_ok d'"
  using assms(2-4) tier_ok_updates [OF assms(1)]
  by (auto simp: set_value_def Let_def res_simps octal_mode_canonical
      dest: parse_uint_less nonroot_id_bounds split: if_split_asm)

lemma set_value_ok:
  assumes "tier_ok d" and "set_value ctx key v d = Inr d'"
  shows "tier_ok d'"
proof -
  consider "key \<in> set quantity_keys" | "key \<notin> set quantity_keys" "key \<in> set string_keys"
    | "key \<notin> set quantity_keys" "key \<notin> set string_keys" by blast
  then show ?thesis
  proof cases
    case 1
    then show ?thesis using assms set_quantity_ok by (simp add: set_value_def Let_def)
  next
    case 2
    have "''file-mode'' \<notin> set string_keys" "''watch-seconds'' \<notin> set string_keys"
      "''mode'' \<notin> set string_keys" "''volume-medium'' \<notin> set string_keys"
      "''native-sidecar'' \<notin> set string_keys" "''agent-run-as-user'' \<notin> set string_keys"
      "''agent-run-as-group'' \<notin> set string_keys" "''metrics-port'' \<notin> set string_keys"
      "''path'' \<notin> set string_keys" "''overridable'' \<notin> set string_keys"
      by (simp_all add: string_keys_def)
    then have "set_value ctx key v d = set_string ctx key v d"
      using 2 by (auto simp only: set_value_def Let_def if_True if_False split: if_split)
    then show ?thesis using assms 2 set_string_ok by simp
  qed (use assms set_scalar_ok in blast)
qed

lemma knob_set_ok:
  assumes "tier_ok d" and "knob_set ctx key text d = Inr d'"
  shows "tier_ok d'"
  using assms tier_ok_updates(11) [OF assms(1)]
  by (auto simp: knob_set_def split: prod.splits option.splits intro: set_value_ok)

definition installation_ok :: "Installation \<Rightarrow> bool" where
  "installation_ok inst \<longleftrightarrow>
     tier_ok (fleet inst) \<and>
     list_all (\<lambda>(store, d). store \<in> set SOURCES \<and> tier_ok d) (per_store inst) \<and>
     distinct (map fst (per_store inst)) \<and>
     pred_option (\<lambda>s. s \<in> set SOURCES) (fleet_source inst) \<and>
     env_ok (install_env inst) \<and>
     list_all (\<lambda>(scope, names). namespace_ok scope \<and>
        list_all (\<lambda>n. n = ''*'' \<or> n \<in> set SOURCES) names) (source_allow inst @ source_deny inst)"

lemma fleet_knobs_ok:
  "rfold (fleet_knob var) FLEET_KNOBS no_knobs = Inr d \<Longrightarrow> tier_ok d"
  by (erule rfold_invariant [where P = tier_ok])
    (auto simp: tier_ok_no_knobs fleet_knob_def split: option.splits prod.splits intro: knob_set_ok)

definition stores_ok :: "(string \<times> knob_defaults) list \<Rightarrow> bool" where
  "stores_ok stores \<longleftrightarrow>
     list_all (\<lambda>(store, d). store \<in> set SOURCES \<and> tier_ok d) stores \<and> distinct (map fst stores)"

lemma store_pairs_ok:
  "rfold (store_pair store) pairs no_knobs = Inr d \<Longrightarrow> tier_ok d"
  by (erule rfold_invariant [where P = tier_ok])
    (auto simp: tier_ok_no_knobs store_pair_def split: option.splits prod.splits intro: knob_set_ok)

lemma store_group_ok:
  assumes "stores_ok stores" and "store_group grp stores = Inr stores'"
  shows "stores_ok stores'"
  using assms
  by (force simp: store_group_def stores_ok_def res_simps Let_def list_ex_iff split_beta
      dest: store_pairs_ok split: option.splits prod.splits if_splits)

lemma store_groups_ok: "rfold store_group groups [] = Inr stores \<Longrightarrow> stores_ok stores"
  by (erule rfold_invariant [where P = stores_ok]) (auto simp: stores_ok_def [of "[]"] intro: store_group_ok)

lemma scoped_var_sources_ok:
  "scoped_var var variable scoped_sources = Inr groups \<Longrightarrow>
     list_all (\<lambda>(scope, names). namespace_ok scope \<and>
        list_all (\<lambda>n. n = ''*'' \<or> n \<in> set SOURCES) names) groups"
  by (auto simp: scoped_var_def no_names_def scoped_sources_def res_simps list_all_iff
      split: option.splits dest!: parse_scoped_sound)

lemma fleet_source_of_ok:
  "fleet_source_of text = Inr (source, rule) \<Longrightarrow> pred_option (\<lambda>s. s \<in> set SOURCES) source"
  by (auto simp: fleet_source_of_def split: option.splits prod.splits if_splits)

lemma env_var_ok:
  "(case x of None \<Rightarrow> Inr [] | Some text \<Rightarrow> env_entries ctx text) = Inr env \<Longrightarrow> env_ok env"
  by (auto simp: env_ok_def [of "[]"] dest: env_entries_ok split: option.splits)

lemma from_lookup_ok:
  assumes "from_lookup lookup = Inr inst"
  shows "installation_ok inst"
  using assms unfolding from_lookup_def Let_def split_beta rbind_eq_Inr
  by (elim exE conjE)
    (auto simp: installation_ok_def stores_ok_def
      dest: fleet_knobs_ok store_groups_ok scoped_var_sources_ok fleet_source_of_ok
      dest!: env_var_ok)

section \<open>Which tier answers\<close>

lemma supplied_eq_Some:
  "supplied inst source key pick = Some (v, pinned) \<longleftrightarrow>
     (\<exists>tier. pick tier = Some v \<and>
        pinned = (\<not> unwrap_or (or_else (map_of (k_rules tier) key) (k_overridable tier)) (overridable inst)) \<and>
        (store_tier inst source = Some tier \<or>
         tier = fleet inst \<and> (\<forall>d. store_tier inst source = Some d \<longrightarrow> pick d = None)))"
  by (cases "store_tier inst source") (auto simp: supplied_def tier_value_def or_else_def split: option.splits)

lemma knob_eq_Some: "knob inst source pick = Some v \<longleftrightarrow> (\<exists>pinned. supplied inst source [] pick = Some (v, pinned))"
  by (auto simp: knob_def)

lemma fst_supplied: "map_option fst (supplied inst source key pick) = knob inst source pick"
  by (cases "store_tier inst source")
    (auto simp: knob_def supplied_def tier_value_def or_else_def option.map_comp comp_def split: option.splits)

lemma map_of_map_filter:
  "distinct (map fst xs) \<Longrightarrow>
     map_of (List.map_filter (\<lambda>(k, p). map_option (Pair k) (f k p)) xs) key
       = (case map_of xs key of None \<Rightarrow> None | Some p \<Rightarrow> f key p)"
  by (induction xs)
    (auto simp: map_filter_simps map_of_eq_None_iff [symmetric] simp del: map_of_eq_None_iff split: option.splits)

lemma string_picks_distinct: "distinct (map fst string_picks)"
  by (simp add: string_picks_def)

lemma map_of_store_strings:
  "map_of (store_strings inst source) key =
     (case map_of string_picks key of None \<Rightarrow> None | Some pick \<Rightarrow> supplied inst source key pick)"
proof -
  have "(\<lambda>(value, pinned). (key, value, pinned)) = Pair key" for key :: string
    by auto
  then show ?thesis
    using map_of_map_filter [OF string_picks_distinct, of "supplied inst source" key]
    by (simp add: store_strings_def)
qed

lemma store_strings_distinct: "distinct (map fst (store_strings inst source))"
proof -
  let ?f = "\<lambda>(key, pick). map_option (\<lambda>(v, pinned). (key, v, pinned)) (supplied inst source key pick)"
  have keys: "fst ` set (List.map_filter ?f xs) \<subseteq> fst ` set xs" for xs
    by (induction xs) (auto simp: map_filter_simps split: option.splits)
  have "distinct (map fst xs) \<Longrightarrow> distinct (map fst (List.map_filter ?f xs))" for xs
  proof (induction xs)
    case (Cons x xs)
    then have "fst x \<notin> fst ` set (List.map_filter ?f xs)" using keys [of xs] by auto
    with Cons show ?case by (force simp: map_filter_simps split: option.splits prod.splits)
  qed (simp add: map_filter_simps)
  then show ?thesis using string_picks_distinct by (simp add: store_strings_def)
qed

section \<open>The environment over the mounted document\<close>

lemma set_var_masked:
  "environment name = Some [] \<Longrightarrow> set_var (layered environment mounted) name = None"
  by (simp add: set_var_def layered_def)

lemma gates_of:
  assumes "from_lookup lookup = Inr inst"
  shows "scoped_var (set_var lookup) ''DYNAMIC_CONFIG_WEBHOOK_AGENT_ENV_ALLOW'' env_names
           = Inr (agent_env_allow inst) \<and>
         scoped_var (set_var lookup) ''DYNAMIC_CONFIG_WEBHOOK_SOURCE_ALLOW'' scoped_sources
           = Inr (source_allow inst) \<and>
         scoped_var (set_var lookup) ''DYNAMIC_CONFIG_WEBHOOK_SOURCE_DENY'' scoped_sources
           = Inr (source_deny inst) \<and>
         flag_var False (set_var lookup) ''DYNAMIC_CONFIG_WEBHOOK_ALLOW_TLS_SKIP_VERIFY''
           = Inr (allow_tls_skip_verify inst)"
  using assms unfolding from_lookup_def Let_def split_beta rbind_eq_Inr sum.inject
  by (elim exE conjE) (hypsubst, simp)

lemma no_names_allow_nothing [simp]: "allows no_names namespace name = False"
  by (simp add: allows_def in_scope_def no_names_def)

end
