(* ===== verification/Json.thy ===== *)
theory Json
  imports Prelude
begin

text \<open>
  The data of \<open>serde_json::Value\<close> and the accessors the sources call on it. An object is the
  association list of its fields in key order, as the crate's default map (a \<open>BTreeMap\<close>) keeps
  them; an integer is its value, and any other number its spelling. Renderings of a value as text
  (\<open>to_string\<close>) belong to the crate and are parameters of the definitions that use them.
\<close>

datatype json =
    JNull
  | JBool bool
  | JNum int
  | JFloat string
  | JString string
  | JArray "json list"
  | JObject "(string \<times> json) list"

definition as_str :: "json \<Rightarrow> string option" where
  "as_str j = (case j of JString s \<Rightarrow> Some s | _ \<Rightarrow> None)"

definition as_array :: "json \<Rightarrow> json list option" where
  "as_array j = (case j of JArray xs \<Rightarrow> Some xs | _ \<Rightarrow> None)"

definition as_object :: "json \<Rightarrow> (string \<times> json) list option" where
  "as_object j = (case j of JObject m \<Rightarrow> Some m | _ \<Rightarrow> None)"

definition as_bool :: "json \<Rightarrow> bool option" where
  "as_bool j = (case j of JBool b \<Rightarrow> Some b | _ \<Rightarrow> None)"

definition as_u64 :: "json \<Rightarrow> nat option" where
  "as_u64 j = (case j of JNum i \<Rightarrow> if 0 \<le> i \<and> i < 2 ^ 64 then Some (nat i) else None | _ \<Rightarrow> None)"

definition is_object :: "json \<Rightarrow> bool" where
  "is_object j \<longleftrightarrow> as_object j \<noteq> None"

text \<open>\<open>Value::get\<close> with a string, and indexing with one, which answers null for a missing field.\<close>

definition jget :: "string \<Rightarrow> json \<Rightarrow> json option" where
  "jget k j = (case j of JObject m \<Rightarrow> map_of m k | _ \<Rightarrow> None)"

definition jfield :: "string \<Rightarrow> json \<Rightarrow> json" where
  "jfield k j = unwrap_or (jget k j) JNull"

text \<open>\<open>Value::pointer\<close>, on the unescaped tokens of the pointer.\<close>

definition array_index :: "string \<Rightarrow> nat option" where
  "array_index t =
     (if starts_with ''+'' t \<or> (starts_with ''0'' t \<and> 1 < length t) then None
      else parse_uint 10 64 t)"

definition pointer_step :: "string \<Rightarrow> json \<Rightarrow> json option" where
  "pointer_step t j =
     (case j of
        JObject m \<Rightarrow> map_of m t
      | JArray xs \<Rightarrow>
          (case array_index t of
             None \<Rightarrow> None
           | Some n \<Rightarrow> if n < length xs then Some (xs ! n) else None)
      | _ \<Rightarrow> None)"

fun pointer :: "string list \<Rightarrow> json \<Rightarrow> json option" where
  "pointer [] j = Some j"
| "pointer (t # ts) j = (case pointer_step t j of None \<Rightarrow> None | Some k \<Rightarrow> pointer ts k)"

lemma as_str_simps [simp]:
  "as_str (JString s) = Some s" "as_str JNull = None" "as_str (JNum i) = None"
  "as_str (JBool b) = None" "as_str (JArray xs) = None" "as_str (JObject m) = None"
  by (simp_all add: as_str_def)

lemma as_array_simps [simp]:
  "as_array (JArray xs) = Some xs" "as_array JNull = None" "as_array (JString s) = None"
  "as_array (JObject m) = None"
  by (simp_all add: as_array_def)

lemma as_object_simps [simp]:
  "as_object (JObject m) = Some m" "as_object JNull = None" "as_object (JString s) = None"
  "as_object (JArray xs) = None"
  by (simp_all add: as_object_def)

lemma as_object_eq_Some: "as_object j = Some m \<longleftrightarrow> j = JObject m"
  by (cases j) (auto simp: as_object_def)

lemma as_array_eq_Some: "as_array j = Some xs \<longleftrightarrow> j = JArray xs"
  by (cases j) (auto simp: as_array_def)

lemma as_str_eq_Some: "as_str j = Some s \<longleftrightarrow> j = JString s"
  by (cases j) (auto simp: as_str_def)

lemma jget_object [simp]: "jget k (JObject m) = map_of m k"
  by (simp add: jget_def)

lemma pointer_step_object [simp]: "pointer_step t (JObject m) = map_of m t"
  by (simp add: pointer_step_def)

lemma pointer_append:
  "pointer (p @ q) j = (case pointer p j of None \<Rightarrow> None | Some k \<Rightarrow> pointer q k)"
  by (induction p arbitrary: j) (auto split: option.splits)

section \<open>Building values\<close>

text \<open>An object literal of \<open>json!\<close>, and assignment to a field of an object.\<close>

definition jobj :: "(string \<times> json) list \<Rightarrow> json" where
  "jobj kvs = JObject (foldl (\<lambda>m (k, v). map_insert k v m) [] kvs)"

definition jset :: "string \<Rightarrow> json \<Rightarrow> json \<Rightarrow> json" where
  "jset k v j = (case j of JObject m \<Rightarrow> JObject (map_insert k v m) | _ \<Rightarrow> j)"

definition jstr :: "string \<Rightarrow> json" where "jstr = JString"
definition jnat :: "nat \<Rightarrow> json" where "jnat n = JNum (int n)"
definition jstrs :: "string list \<Rightarrow> json" where "jstrs ss = JArray (map JString ss)"

lemma jget_set [simp]: "jget k (jset k' v (JObject m)) = (if k = k' then Some v else map_of m k)"
  by (simp add: jset_def)

lemma jobj_snoc: "jobj (kvs @ [(k, v)]) = jset k v (jobj kvs)"
  by (simp add: jobj_def jset_def)

lemma jget_jobj: "jget k (jobj kvs) = map_of (rev kvs) k"
proof (induction kvs rule: rev_induct)
  case Nil
  then show ?case by (simp add: jobj_def)
next
  case (snoc kv kvs)
  obtain a b where "kv = (a, b)" by (cases kv)
  moreover obtain m where "jobj kvs = JObject m" by (simp add: jobj_def)
  ultimately show ?case using snoc by (auto simp: jobj_snoc)
qed

end
