(* ===== verification/InstallationFile.thy ===== *)
theory InstallationFile
  imports Knobs Json
begin

text \<open>
  \<open>installation_file.rs\<close>: the installation document, defined as the variables it renders to. The
  engine's \<open>Value\<close> has the constructors of \<open>json\<close> (a table is an object); its parser is a
  parameter.
\<close>

datatype doc_error =
    Unreadable string
  | NoFormat
  | NotParsed string
  | NotAMap
  | UnknownSetting string
  | NotALeaf json
  | NotStores json
  | NotStoreSettings string json
  | NotNamespaces json
  | NotNames string json

definition SCALARS :: "(string \<times> string) list" where
  "SCALARS = [
    (''cpuRequest'', ''DYNAMIC_CONFIG_AGENT_CPU_REQUEST''),
    (''memoryRequest'', ''DYNAMIC_CONFIG_AGENT_MEMORY_REQUEST''),
    (''cpuLimit'', ''DYNAMIC_CONFIG_AGENT_CPU_LIMIT''),
    (''memoryLimit'', ''DYNAMIC_CONFIG_AGENT_MEMORY_LIMIT''),
    (''fileMode'', ''DYNAMIC_CONFIG_AGENT_FILE_MODE''),
    (''watchSeconds'', ''DYNAMIC_CONFIG_AGENT_WATCH_SECONDS''),
    (''mode'', ''DYNAMIC_CONFIG_AGENT_MODE''),
    (''nativeSidecar'', ''DYNAMIC_CONFIG_AGENT_NATIVE_SIDECAR''),
    (''volumeMedium'', ''DYNAMIC_CONFIG_AGENT_VOLUME_MEDIUM''),
    (''runAsUser'', ''DYNAMIC_CONFIG_AGENT_RUN_AS_USER''),
    (''runAsGroup'', ''DYNAMIC_CONFIG_AGENT_RUN_AS_GROUP''),
    (''metricsPort'', ''DYNAMIC_CONFIG_AGENT_METRICS_PORT''),
    (''source'', ''DYNAMIC_CONFIG_AGENT_SOURCE''),
    (''endpoint'', ''DYNAMIC_CONFIG_AGENT_ENDPOINT''),
    (''path'', ''DYNAMIC_CONFIG_AGENT_PATH''),
    (''agentEnv'', ''DYNAMIC_CONFIG_AGENT_ENV''),
    (''overridable'', ''DYNAMIC_CONFIG_AGENT_DEFAULTS_OVERRIDABLE'')]"

definition PER_STORE :: "string \<times> string" where
  "PER_STORE = (''storeDefaults'', ''DYNAMIC_CONFIG_AGENT_STORE_DEFAULTS'')"

definition LISTS :: "(string \<times> string) list" where
  "LISTS = [
    (''agentEnvAllow'', ''DYNAMIC_CONFIG_WEBHOOK_AGENT_ENV_ALLOW''),
    (''sourceAllow'', ''DYNAMIC_CONFIG_WEBHOOK_SOURCE_ALLOW''),
    (''sourceDeny'', ''DYNAMIC_CONFIG_WEBHOOK_SOURCE_DENY'')]"

definition show_int :: "int \<Rightarrow> string" where
  "show_int i = (if i < 0 then ''-'' @ show_nat (nat (- i)) else show_nat (nat i))"

definition leaf :: "json \<Rightarrow> doc_error + string" where
  "leaf v =
     (case v of
        JString text \<Rightarrow> Inr text
      | JNum i \<Rightarrow> Inr (show_int i)
      | JBool b \<Rightarrow> Inr (if b then ''true'' else ''false'')
      | _ \<Rightarrow> Inl (NotALeaf v))"

definition store_settings :: "string \<times> json \<Rightarrow> doc_error + string" where
  "store_settings entry =
     (case entry of (store, knobs) \<Rightarrow>
        (case knobs of
           JString written \<Rightarrow> Inr (store @ '': '' @ written)
         | JObject pairs \<Rightarrow>
             rbind (rmap (\<lambda>(knob, v). rbind (leaf v) (\<lambda>t. Inr (knob @ ''='' @ t))) pairs)
               (\<lambda>ps. Inr (store @ '': '' @ join '', '' ps))
         | _ \<Rightarrow> Inl (NotStoreSettings store knobs)))"

definition doc_per_store :: "json \<Rightarrow> doc_error + string" where
  "doc_per_store v =
     (case v of
        JObject stores \<Rightarrow> rbind (rmap store_settings stores) (\<lambda>groups. Inr (join ''; '' groups))
      | _ \<Rightarrow> Inl (NotStores v))"

definition namespace_names :: "string \<times> json \<Rightarrow> doc_error + string" where
  "namespace_names entry =
     (case entry of (namespace, names) \<Rightarrow>
        (case names of
           JArray ns \<Rightarrow> rbind (rmap leaf ns) (\<lambda>ts. Inr (namespace @ '': '' @ join '', '' ts))
         | _ \<Rightarrow> Inl (NotNames namespace names)))"

definition doc_lists :: "json \<Rightarrow> doc_error + string" where
  "doc_lists v =
     (case v of
        JObject namespaces \<Rightarrow>
          rbind (rmap namespace_names namespaces) (\<lambda>groups. Inr (join ''; '' groups))
      | _ \<Rightarrow> Inl (NotNamespaces v))"

definition render_setting :: "string \<times> json \<Rightarrow> doc_error + string \<times> string" where
  "render_setting entry =
     (case entry of (key, v) \<Rightarrow>
        (case map_of SCALARS key of
           Some variable \<Rightarrow> rbind (leaf v) (\<lambda>t. Inr (variable, t))
         | None \<Rightarrow>
             if key = fst PER_STORE then rbind (doc_per_store v) (\<lambda>t. Inr (snd PER_STORE, t))
             else (case map_of LISTS key of
                     Some variable \<Rightarrow> rbind (doc_lists v) (\<lambda>t. Inr (variable, t))
                   | None \<Rightarrow> Inl (UnknownSetting key))))"

definition render_document :: "json \<Rightarrow> doc_error + (string \<rightharpoonup> string)" where
  "render_document document =
     (case document of
        JObject settings \<Rightarrow>
          rfold (\<lambda>entry m. rbind (render_setting entry) (\<lambda>(variable, t). Inr (m(variable \<mapsto> t))))
            settings Map.empty
      | _ \<Rightarrow> Inl NotAMap)"

definition blank_or_comment :: "string \<Rightarrow> bool" where
  "blank_or_comment line \<longleftrightarrow> trim line = [] \<or> starts_with ''#'' (trim_start line)"

text \<open>What the file system answers: no such file, another failure, or the text.\<close>

datatype file_read = NoFile | ReadError string | FileText string

definition read_document :: "(string \<Rightarrow> doc_error + json) \<Rightarrow> file_read \<Rightarrow> doc_error + (string \<rightharpoonup> string)" where
  "read_document parse file =
     (case file of
        NoFile \<Rightarrow> Inr Map.empty
      | ReadError e \<Rightarrow> Inl (Unreadable e)
      | FileText text \<Rightarrow>
          if list_all blank_or_comment (split_on (char_of (10 :: nat)) text) then Inr Map.empty
          else rbind (parse text) render_document)"

section \<open>A list in the document is the list its variable holds\<close>

lemma trim_plain: "s \<noteq> [] \<Longrightarrow> \<not> is_space (hd s) \<Longrightarrow> \<not> is_space (last s) \<Longrightarrow> trim s = s"
proof -
  assume "s \<noteq> []" "\<not> is_space (hd s)" "\<not> is_space (last s)"
  then have "trim_start s = s" "trim_end s = s"
    by (cases s, simp_all add: trim_start_def) (cases s rule: rev_cases, simp_all add: trim_end_def)
  then show "trim s = s" by (simp add: trim_def)
qed

lemma trim_space: "trim (CHR '' '' # s) = trim s"
  by (simp add: trim_def trim_start_def is_space_def)

lemma split_trim_join:
  assumes "list_all (\<lambda>s. s \<noteq> [] \<and> trim s = s \<and> c \<notin> set s) xs" and "c \<noteq> CHR '' ''"
  shows "split_trim c (join (c # '' '') xs) = xs"
    and "split_trim c ('' '' @ join (c # '' '') xs) = xs"
proof -
  have plain_or_spaced: "filter (\<lambda>f. f \<noteq> []) (map trim (split_on c (join (c # '' '') xs))) = xs \<and>
      filter (\<lambda>f. f \<noteq> []) (map trim (split_on c (CHR '' '' # join (c # '' '') xs))) = xs"
    using assms
  proof (induction "c # '' ''" xs rule: join.induct)
    case 1
    then show ?case by (simp add: trim_def trim_start_def trim_end_def is_space_def)
  next
    case (2 s)
    then show ?case by (simp add: split_on_single trim_space)
  next
    case (3 s t ss)
    have "split_on c (s @ c # CHR '' '' # join (c # '' '') (t # ss))
        = s # split_on c (CHR '' '' # join (c # '' '') (t # ss))"
      and "split_on c ((CHR '' '' # s) @ c # CHR '' '' # join (c # '' '') (t # ss))
        = (CHR '' '' # s) # split_on c (CHR '' '' # join (c # '' '') (t # ss))"
      using 3(2,3) by (intro split_on_append; simp)+
    with 3 show ?case by (simp add: trim_space)
  qed
  then show "split_trim c (join (c # '' '') xs) = xs" "split_trim c ('' '' @ join (c # '' '') xs) = xs"
    by (simp_all add: split_trim_def)
qed

text \<open>Groups a document may hold: scopes and names that the grammar can spell.\<close>

definition spelled :: "(string \<Rightarrow> bool) \<Rightarrow> string \<times> string list \<Rightarrow> bool" where
  "spelled valid grp \<longleftrightarrow>
     (case grp of (scope, names) \<Rightarrow>
        namespace_ok scope \<and> names \<noteq> [] \<and>
        list_all (\<lambda>n. (n = ''*'' \<or> valid n) \<and> n \<noteq> [] \<and>
                      \<not> is_space (hd n) \<and> \<not> is_space (last n) \<and> CHR '','' \<notin> set n \<and> CHR '';'' \<notin> set n) names)"

definition group_text :: "string \<times> string list \<Rightarrow> string" where
  "group_text grp = (case grp of (scope, names) \<Rightarrow> scope @ '': '' @ join '', '' names)"

lemma namespace_ok_chars:
  assumes "namespace_ok scope"
  shows "scope \<noteq> []" and "c \<in> set scope \<Longrightarrow> c = CHR ''*'' \<or> is_lower c \<or> is_digit c \<or> c = CHR ''-''"
  using assms by (auto simp: namespace_ok_def list_all_iff)

lemma scope_char:
  "c = CHR ''*'' \<or> is_lower c \<or> is_digit c \<or> c = CHR ''-'' \<Longrightarrow>
     \<not> is_space c \<and> c \<noteq> CHR '':'' \<and> c \<noteq> CHR '';''"
  by (auto simp: is_lower_def is_digit_def is_space_def Let_def)

lemma namespace_ok_plain:
  assumes "namespace_ok scope"
  shows "trim scope = scope" and "CHR '':'' \<notin> set scope" and "CHR '';'' \<notin> set scope"
proof -
  note chars = namespace_ok_chars [OF assms]
  have ok: "\<not> is_space c \<and> c \<noteq> CHR '':'' \<and> c \<noteq> CHR '';''" if "c \<in> set scope" for c
    by (rule scope_char [OF chars(2) [OF that]])
  show "trim scope = scope" using ok chars(1) by (intro trim_plain) auto
  show "CHR '':'' \<notin> set scope" "CHR '';'' \<notin> set scope" using ok by blast+
qed

lemma parse_group_text:
  assumes "spelled valid grp"
  shows "parse_group valid kind (group_text grp) = Inr grp"
proof -
  obtain scope names where grp: "grp = (scope, names)" by (cases grp)
  with assms have ok: "namespace_ok scope" "names \<noteq> []"
    and names: "list_all (\<lambda>n. n \<noteq> [] \<and> trim n = n \<and> CHR '','' \<notin> set n) names"
    and valid: "\<forall>n \<in> set names. n = ''*'' \<or> valid n"
    by (auto simp: spelled_def list_all_iff trim_plain)
  have "split_once (CHR '':'') (group_text grp) = Some (scope, '' '' @ join '', '' names)"
    using split_once_append [OF namespace_ok_plain(2) [OF ok(1)]] by (simp add: group_text_def grp)
  moreover have "split_trim (CHR '','') ('' '' @ join '', '' names) = names"
    using split_trim_join(2) [OF names] by simp
  ultimately show ?thesis
    using ok valid namespace_ok_plain(1) [OF ok(1)]
    by (simp add: parse_group_def grp rmap_check [THEN iffD2])
qed


lemma join_nonempty: "xs \<noteq> [] \<Longrightarrow> list_all (\<lambda>x. x \<noteq> []) xs \<Longrightarrow> join sep xs \<noteq> []"
  by (induction sep xs rule: join.induct) auto

lemma last_join: "xs \<noteq> [] \<Longrightarrow> list_all (\<lambda>x. x \<noteq> []) xs \<Longrightarrow> last (join sep xs) = last (last xs)"
  by (induction sep xs rule: join.induct) (simp_all add: last_append join_nonempty)

lemma set_join: "set (join sep xs) \<subseteq> set sep \<union> \<Union> (set ` set xs)"
  by (induction sep xs rule: join.induct) auto

lemma group_text_plain:
  assumes "spelled valid grp"
  shows "group_text grp \<noteq> []" and "trim (group_text grp) = group_text grp"
    and "CHR '';'' \<notin> set (group_text grp)"
proof -
  obtain scope names where grp: "grp = (scope, names)" by (cases grp)
  with assms have ok: "namespace_ok scope" "names \<noteq> []" "list_all (\<lambda>n. n \<noteq> []) names"
    and last: "\<not> is_space (last (last names))" and semi: "\<forall>n \<in> set names. CHR '';'' \<notin> set n"
    by (auto simp: spelled_def list_all_iff)
  note scope = namespace_ok_chars [OF ok(1)]
  show nonempty: "group_text grp \<noteq> []" by (simp add: group_text_def grp)
  have "hd (group_text grp) = hd scope" using scope(1) by (simp add: group_text_def grp)
  then have hd: "\<not> is_space (hd (group_text grp))"
    using scope_char [OF scope(2) [of "hd scope"]] scope(1) by simp
  have "last (group_text grp) = last (last names)"
    using ok last_join [of names "'', ''"] join_nonempty [of names "'', ''"]
    by (simp add: group_text_def grp last_append)
  then show "trim (group_text grp) = group_text grp"
    using nonempty hd last by (simp add: trim_plain)
  show "CHR '';'' \<notin> set (group_text grp)"
    using namespace_ok_plain(3) [OF ok(1)] semi set_join [of "'', ''" names]
    by (auto simp: group_text_def grp)
qed

lemma parse_scoped_groups:
  assumes "list_all (spelled valid) groups"
  shows "parse_scoped valid kind (join ''; '' (map group_text groups)) = Inr groups"
proof -
  have "list_all (\<lambda>s. s \<noteq> [] \<and> trim s = s \<and> CHR '';'' \<notin> set s) (map group_text groups)"
    using assms group_text_plain by (auto simp: list_all_iff)
  then have "split_trim (CHR '';'') (join ''; '' (map group_text groups)) = map group_text groups"
    using split_trim_join(1) [of "CHR '';''"] by simp
  moreover have "rmap (parse_group valid kind) (map group_text groups) = Inr groups"
    using assms by (induction groups) (simp_all add: parse_group_text)
  ultimately show ?thesis by (simp add: parse_scoped_def)
qed

definition groups_document :: "scoped_names \<Rightarrow> json" where
  "groups_document groups = JObject (map (\<lambda>(scope, names). (scope, JArray (map JString names))) groups)"

lemma rmap_leaf_strings: "rmap leaf (map JString names) = Inr names"
  by (induction names) (simp_all add: leaf_def)

lemma doc_lists_groups:
  "doc_lists (groups_document groups) = Inr (join ''; '' (map group_text groups))"
proof -
  have "rmap namespace_names (map (\<lambda>(scope, names). (scope, JArray (map JString names))) groups)
      = Inr (map group_text groups)"
    by (induction groups) (auto simp: namespace_names_def group_text_def rmap_leaf_strings)
  then show ?thesis by (simp add: doc_lists_def groups_document_def)
qed

end
