(* ===== verification/Paths.thy ===== *)
theory Paths
  imports Prelude
begin

text \<open>
  The part of \<open>std::path::Path\<close> the sources use, on Unix: a path is a byte string; its components
  are the segments between slashes that are neither empty nor a dot, except a leading dot.
\<close>

definition trivial_segment :: "string \<Rightarrow> bool" where
  "trivial_segment s \<longleftrightarrow> s = [] \<or> s = ''.''"

definition drop_trivial :: "string list \<Rightarrow> string list" where
  "drop_trivial ss = rev (dropWhile trivial_segment (rev ss))"

definition path_prefix :: "string \<Rightarrow> string" where
  "path_prefix s =
     (if starts_with ''/'' s then ''/''
      else if s = ''.'' \<or> starts_with ''./'' s then ''.''
      else [])"

definition path_body :: "string \<Rightarrow> string" where
  "path_body s = drop (length (path_prefix s)) s"

definition path_segments :: "string \<Rightarrow> string list" where
  "path_segments s = drop_trivial (split_on (CHR ''/'') (path_body s))"

definition path_parent :: "string \<Rightarrow> string option" where
  "path_parent s =
     (if path_segments s \<noteq> []
      then Some (path_prefix s @ join ''/'' (drop_trivial (butlast (path_segments s))))
      else if path_prefix s = ''.'' then Some [] else None)"

definition file_name :: "string \<Rightarrow> string option" where
  "file_name s =
     (if path_segments s = [] \<or> last (path_segments s) = ''..'' then None
      else Some (last (path_segments s)))"

definition extension :: "string \<Rightarrow> string option" where
  "extension s =
     (case file_name s of
        None \<Rightarrow> None
      | Some name \<Rightarrow>
          (case rsplit_once (CHR ''.'') name of
             None \<Rightarrow> None
           | Some (stem, ext) \<Rightarrow> if stem = [] then None else Some ext))"

definition path_join :: "string \<Rightarrow> string \<Rightarrow> string" where
  "path_join p n =
     (if starts_with ''/'' n then n
      else if p = [] \<or> ends_with ''/'' p then p @ n
      else p @ ''/'' @ n)"

definition with_file_name :: "string \<Rightarrow> string \<Rightarrow> string" where
  "with_file_name s n =
     (if file_name s = None then path_join s n else path_join (unwrap_or (path_parent s) []) n)"

text \<open>Equality of paths is equality of their components.\<close>

definition path_components :: "string \<Rightarrow> string \<times> string list" where
  "path_components s =
     (path_prefix s, filter (\<lambda>c. \<not> trivial_segment c) (split_on (CHR ''/'') (path_body s)))"

definition path_eq :: "string \<Rightarrow> string \<Rightarrow> bool" where
  "path_eq p q \<longleftrightarrow> path_components p = path_components q"

section \<open>A plain name under a directory\<close>

definition plain_name :: "string \<Rightarrow> bool" where
  "plain_name n \<longleftrightarrow> n \<noteq> [] \<and> n \<noteq> ''.'' \<and> n \<noteq> ''..'' \<and> CHR ''/'' \<notin> set n"

text \<open>Absolute directories without a trailing slash or dot: \<open>/\<close> and \<open>/a/b\<close>.\<close>

definition plain_dir :: "string list \<Rightarrow> string" where
  "plain_dir ds = ''/'' @ join ''/'' ds"

lemma split_on_snoc: "split_on c (xs @ c # ys) = split_on c xs @ split_on c ys"
proof (induction xs)
  case (Cons x xs)
  then show ?case
    using split_on_nonempty [of c xs] by (cases "split_on c xs") auto
qed simp

lemma drop_trivial_snoc [simp]: "\<not> trivial_segment s \<Longrightarrow> drop_trivial (ss @ [s]) = ss @ [s]"
  by (simp add: drop_trivial_def)

lemma plain_name_facts:
  assumes "plain_name n"
  shows "\<not> trivial_segment n" and "n \<noteq> ''..''" and "split_on (CHR ''/'') n = [n]"
    and "\<not> starts_with ''/'' n" and "n \<noteq> []"
  using assms
  by (auto simp: plain_name_def trivial_segment_def split_on_single starts_with_def take_Suc
      neq_Nil_conv split: list.splits)

lemma plain_segments:
  assumes "list_all plain_name ds"
  shows "path_segments (plain_dir ds) = ds" and "path_prefix (plain_dir ds) = ''/''"
proof -
  show prefix: "path_prefix (plain_dir ds) = ''/''"
    by (simp add: path_prefix_def plain_dir_def starts_with_def)
  then have body: "path_body (plain_dir ds) = join ''/'' ds" by (simp add: path_body_def plain_dir_def)
  show "path_segments (plain_dir ds) = ds"
  proof (cases ds rule: rev_cases)
    case Nil
    then show ?thesis using body by (simp add: path_segments_def drop_trivial_def trivial_segment_def)
  next
    case (snoc ys y)
    have "split_on (CHR ''/'') (join ''/'' ds) = ds"
      using assms snoc by (intro split_on_join) (auto simp: list_all_iff plain_name_def)
    then show ?thesis
      using assms snoc body by (simp add: path_segments_def plain_name_facts(1))
  qed
qed

lemma plain_file:
  assumes "list_all plain_name ds" and "plain_name n"
  shows "path_parent (plain_dir (ds @ [n])) = Some (plain_dir ds)"
    and "file_name (plain_dir (ds @ [n])) = Some n"
proof -
  have "list_all plain_name (ds @ [n])" using assms by simp
  note segs = plain_segments [OF this]
  have "drop_trivial ds = ds"
    using assms(1) by (cases ds rule: rev_cases) (simp_all add: drop_trivial_def plain_name_facts(1))
  then show "path_parent (plain_dir (ds @ [n])) = Some (plain_dir ds)"
    using segs by (simp add: path_parent_def plain_dir_def)
  show "file_name (plain_dir (ds @ [n])) = Some n"
    using segs plain_name_facts(2) [OF assms(2)] by (simp add: file_name_def)
qed

lemma join_snoc: "xs \<noteq> [] \<Longrightarrow> join sep (xs @ [x]) = join sep xs @ sep @ x"
  by (induction sep xs rule: join.induct) auto

lemma plain_join:
  assumes "list_all plain_name ds" and "plain_name n"
  shows "path_join (plain_dir ds) n = plain_dir (ds @ [n])"
proof (cases ds rule: rev_cases)
  case Nil
  then show ?thesis
    using plain_name_facts [OF assms(2)]
    by (simp add: path_join_def plain_dir_def ends_with_def starts_with_def)
next
  case (snoc ys y)
  with assms have y: "plain_name y" by simp
  have "ds \<noteq> []" using snoc by simp
  then have "join ''/'' (ds @ [n]) = join ''/'' ds @ ''/'' @ n" by (rule join_snoc)
  moreover have "\<not> ends_with ''/'' (plain_dir ds)"
  proof -
    have "last (join ''/'' ds) = last y" "join ''/'' ds \<noteq> []"
      using snoc plain_name_facts(5) [OF y] by (cases "ys = []"; simp add: join_snoc)+
    moreover have "last y \<noteq> CHR ''/''"
      using y last_in_set [OF plain_name_facts(5) [OF y]] by (metis plain_name_def)
    ultimately show ?thesis
      by (cases "join ''/'' ds" rule: rev_cases)
        (auto simp: plain_dir_def ends_with_def starts_with_def)
  qed
  ultimately show ?thesis
    using plain_name_facts(4) [OF assms(2)] by (simp add: path_join_def plain_dir_def)
qed

lemma plain_with_file_name:
  assumes "list_all plain_name ds" and "plain_name n" and "plain_name m"
  shows "with_file_name (plain_dir (ds @ [n])) m = plain_dir (ds @ [m])"
  using plain_file [OF assms(1,2)] plain_join [OF assms(1,3)] by (simp add: with_file_name_def)

lemma plain_dir_inj:
  assumes "list_all plain_name ds" and "list_all plain_name es"
  shows "plain_dir ds = plain_dir es \<longleftrightarrow> ds = es"
  by (metis plain_segments(1) [OF assms(1)] plain_segments(1) [OF assms(2)])

end
