(* ===== verification/Request.thy ===== *)
theory Request
  imports Knobs Json Paths
begin

text \<open>
  The request an annotated pod makes (\<open>annotations.rs\<close>): its types, the reading of one annotation,
  and the shapes that the default render and every named render share.
\<close>

record SecretRef =
  secret_name :: string
  secret_key :: string

record ObjectRef =
  object_name :: string
  object_key :: string

record also_file =
  also_name :: string
  also_path :: string
  also_section :: "string option"

record ExtraRender =
  x_name :: string
  x_metrics_port :: "nat option"
  x_source :: string
  x_endpoint :: "string option"
  x_key :: string
  x_path :: string
  x_watch_seconds :: nat
  x_arguments :: "(string \<times> string) list"
  x_secret_env :: "(string \<times> SecretRef) list"
  x_ca :: "ObjectRef option"
  x_ssh :: "ObjectRef option"
  x_tls :: "string option"
  x_template :: "ObjectRef option"

record Request =
  rq_source :: string
  rq_endpoint :: "string option"
  rq_key :: string
  rq_path :: string
  rq_mode :: Mode
  rq_watch_seconds :: nat
  rq_arguments :: "(string \<times> string) list"
  rq_secret_env :: "(string \<times> SecretRef) list"
  rq_ca :: "ObjectRef option"
  rq_ssh :: "ObjectRef option"
  rq_tls :: "string option"
  rq_template :: "ObjectRef option"
  rq_volume_memory :: bool
  rq_native_sidecar :: bool
  rq_resources :: Resources
  rq_file_mode :: "string option"
  rq_run_as_user :: "nat option"
  rq_run_as_group :: "nat option"
  rq_env_inject :: "string option"
  rq_env_restart :: bool
  rq_metrics_port :: "nat option"
  rq_notify_http :: "string option"
  rq_on_drift :: "string option"
  rq_tls_reload :: bool
  rq_history :: "nat option"
  rq_require_ack :: bool
  rq_canary :: "ObjectRef option"
  rq_agent_image :: "string option"
  rq_timeout :: "nat option"
  rq_events :: bool
  rq_revoke_grace :: "nat option"
  rq_init_first :: bool
  rq_extra_secret :: "string option"
  rq_tls_server_name :: "string option"
  rq_tls_skip_verify :: bool
  rq_inject_containers :: "string list option"
  rq_readiness :: bool
  rq_meta :: bool
  rq_schema :: "ObjectRef option"
  rq_also :: "also_file list"
  rq_dynamic :: bool
  rq_revoke_on_shutdown :: bool
  rq_aws_secret :: "string option"
  rq_agent_env :: "(string \<times> string) list"
  rq_fleet_env :: "(string \<times> string) list"
  rq_extra :: "ExtraRender list"

section \<open>Reading annotations\<close>

text \<open>
  A getter answers an annotation by its bare name; the getter of a named render answers
  \<open>name.suffix\<close>. A label turns a bare name into the one a refusal speaks of.
\<close>

type_synonym getter = "string \<Rightarrow> string option"
type_synonym label = "string \<Rightarrow> string"

definition annotations_of :: "json \<Rightarrow> (string \<times> json) list option" where
  "annotations_of pod =
     (case pointer [''metadata'', ''annotations''] pod of None \<Rightarrow> None | Some j \<Rightarrow> as_object j)"

definition annotation :: "(string \<times> json) list \<Rightarrow> getter" where
  "annotation annotations name =
     (case map_of annotations (PREFIX @ name) of None \<Rightarrow> None | Some j \<Rightarrow> as_str j)"

definition suffixed :: "string \<Rightarrow> label" where
  "suffixed suffix name = name @ ''.'' @ suffix"

definition bool_annotation :: "label \<Rightarrow> getter \<Rightarrow> string \<Rightarrow> bool \<Rightarrow> refusal + bool" where
  "bool_annotation label get name absent =
     (case get name of
        None \<Rightarrow> Inr absent
      | Some text \<Rightarrow> parse_bool (NotBool (label name) text) text)"

definition secret_ref :: "label \<Rightarrow> string option \<Rightarrow> string \<Rightarrow> refusal + SecretRef option" where
  "secret_ref label text name =
     (case text of
        None \<Rightarrow> Inr None
      | Some t \<Rightarrow>
          (case split_once (CHR ''/'') t of
             None \<Rightarrow> Inl (NotSecretForm (label name) t)
           | Some (secret, key) \<Rightarrow> Inr (Some \<lparr> secret_name = secret, secret_key = key \<rparr>)))"

definition object_of :: "string \<Rightarrow> string \<Rightarrow> ObjectRef" where
  "object_of default_key text =
     (case split_once (CHR ''/'') text of
        Some (object, key) \<Rightarrow> \<lparr> object_name = object, object_key = key \<rparr>
      | None \<Rightarrow> \<lparr> object_name = text, object_key = default_key \<rparr>)"

section \<open>Pins and defaults\<close>

definition pinned_refusal :: "label \<Rightarrow> string \<Rightarrow> string \<Rightarrow> string \<Rightarrow> refusal" where
  "pinned_refusal label key pod tier =
     Pinned (label key) (without_userinfo pod) (without_userinfo tier)"

definition pin_check :: "label \<Rightarrow> (string \<Rightarrow> bool) \<Rightarrow> getter \<Rightarrow> supplied_string \<Rightarrow> refusal + unit" where
  "pin_check label skipped get entry =
     (case entry of (key, tier, pinned) \<Rightarrow>
        if \<not> pinned \<or> skipped key then Inr ()
        else (case get key of
                None \<Rightarrow> Inr ()
              | Some pod \<Rightarrow> ensure (pod = tier) (pinned_refusal label key pod tier)))"

definition pin_walk :: "label \<Rightarrow> (string \<Rightarrow> bool) \<Rightarrow> supplied_string list \<Rightarrow> getter \<Rightarrow> refusal + unit" where
  "pin_walk label skipped strings get =
     rbind (rmap (pin_check label skipped get) strings) (\<lambda>_. Inr ())"

definition defaulted :: "supplied_string list \<Rightarrow> getter \<Rightarrow> getter" where
  "defaulted strings get name = or_else (get name) (map_option fst (map_of strings name))"

definition either_or :: "(string \<times> string) list" where
  "either_or = [
     (''endpoint'', ''endpoint-secret''), (''endpoint-secret'', ''endpoint''),
     (''template'', ''template-configmap''), (''template-configmap'', ''template'')]"

definition pair_check :: "label \<Rightarrow> supplied_string list \<Rightarrow> getter \<Rightarrow> string \<times> string \<Rightarrow> refusal + unit" where
  "pair_check label strings get pair =
     (case pair of (a, b) \<Rightarrow>
        ensure (\<not> (list_ex (\<lambda>(key, _, pinned). key = a \<and> pinned) strings \<and> get a = None \<and> get b \<noteq> None))
          (PinnedHalf (label b) (label a)))"

definition pair_walk :: "label \<Rightarrow> supplied_string list \<Rightarrow> getter \<Rightarrow> refusal + unit" where
  "pair_walk label strings get =
     rbind (rmap (pair_check label strings get) either_or) (\<lambda>_. Inr ())"

text \<open>A pair that resolves as a level: an answer on the pod mutes both defaults.\<close>

definition as_level :: "supplied_string list \<Rightarrow> getter \<Rightarrow> string \<Rightarrow> string \<Rightarrow> string option \<times> string option" where
  "as_level strings get a b =
     (if get a \<noteq> None \<or> get b \<noteq> None then (get a, get b)
      else (defaulted strings get a, defaulted strings get b))"

text \<open>
  A knob of a type with its own spelling: the annotation when there is one, refused when it
  differs from a pinned value, else the tiers' value, else the built-in.
\<close>

definition conforms :: "label \<Rightarrow> string \<Rightarrow> ('v \<Rightarrow> string) \<Rightarrow> ('v \<times> bool) option \<Rightarrow> string \<Rightarrow> 'v
    \<Rightarrow> refusal + unit" where
  "conforms label key spell tier text v =
     (case tier of
        Some (t, True) \<Rightarrow> ensure (t = v) (pinned_refusal label key text (spell t))
      | _ \<Rightarrow> Inr ())"

definition watch_seconds_of :: "label \<Rightarrow> getter \<Rightarrow> Installation \<Rightarrow> string option \<Rightarrow> refusal + nat" where
  "watch_seconds_of label get inst source =
     (case get ''watch-seconds'' of
        None \<Rightarrow> Inr (unwrap_or (knob inst source k_watch_seconds) 15)
      | Some text \<Rightarrow>
          rbind (ok_or (parse_uint 10 64 text) (NotWholeSeconds (label ''watch-seconds'') text))
            (\<lambda>seconds.
          rbind (conforms label ''watch-seconds'' show_nat
                  (supplied inst source ''watch-seconds'' k_watch_seconds) text seconds) (\<lambda>_.
          Inr seconds)))"

definition file_mode_of :: "label \<Rightarrow> getter \<Rightarrow> Installation \<Rightarrow> string option \<Rightarrow> refusal + string option" where
  "file_mode_of label get inst source =
     (case get ''file-mode'' of
        None \<Rightarrow> Inr (knob inst source k_file_mode)
      | Some text \<Rightarrow>
          rbind (octal_mode (label ''file-mode'') text) (\<lambda>m.
          rbind (conforms label ''file-mode'' (\<lambda>t. ''0'' @ t)
                  (supplied inst source ''file-mode'' k_file_mode) text m) (\<lambda>_.
          Inr (Some m))))"

section \<open>Address, credentials and flags\<close>

definition secret_env_of :: "label \<Rightarrow> supplied_string list \<Rightarrow> getter \<Rightarrow> string option
    \<Rightarrow> refusal + (string \<times> SecretRef) list" where
  "secret_env_of label strings get endpoint_secret =
     rbind (rmap (\<lambda>(text, name, variable).
              rbind (secret_ref label text name) (\<lambda>r. Inr (map_option (Pair variable) r)))
        [(defaulted strings get ''token-secret'', ''token-secret'', ''DYNAMIC_CONFIG_AGENT_TOKEN''),
         (defaulted strings get ''password-secret'', ''password-secret'',
            ''DYNAMIC_CONFIG_AGENT_PASSWORD''),
         (endpoint_secret, ''endpoint-secret'', ''DYNAMIC_CONFIG_AGENT_ENDPOINT'')])
       (\<lambda>found. Inr (List.map_filter id found))"

definition one_address :: "label \<Rightarrow> string option \<Rightarrow> string option \<Rightarrow> refusal + unit" where
  "one_address label endpoint endpoint_secret =
     (if endpoint = None \<and> endpoint_secret = None then Inl (Required (label ''endpoint''))
      else if endpoint \<noteq> None \<and> endpoint_secret \<noteq> None
      then Inl (BothSet (label ''endpoint'') (label ''endpoint-secret''))
      else Inr ())"

definition pass_through :: "(string \<times> string) list \<Rightarrow> supplied_string list \<Rightarrow> getter \<Rightarrow> (string \<times> string) list" where
  "pass_through flags strings get =
     List.map_filter (\<lambda>(name, flag). map_option (Pair flag) (defaulted strings get name)) flags"

definition ssh_arguments :: "label \<Rightarrow> string \<Rightarrow> supplied_string list \<Rightarrow> getter \<Rightarrow> ObjectRef option
    \<Rightarrow> refusal + (string \<times> string) list" where
  "ssh_arguments label mount strings get ssh =
     (case ssh of
        None \<Rightarrow> Inr []
      | Some key \<Rightarrow>
          (let file = [(''--ssh-key'', mount @ ''/'' @ object_key key)] in
           case defaulted strings get ''auth'' of
             None \<Rightarrow> Inr ((''--auth'', ''ssh-key'') # file)
           | Some auth \<Rightarrow>
               if auth = ''ssh-key'' then Inr file
               else Inl (Contradicts (label ''ssh-secret'' @ '' ('' @ object_name key @ '')'')
                           (label ''auth'' @ '' '' @ auth))))"

definition ca_arguments :: "string \<Rightarrow> ObjectRef option \<Rightarrow> (string \<times> string) list" where
  "ca_arguments mount ca =
     (case ca of None \<Rightarrow> [] | Some c \<Rightarrow> [(''--ca'', mount @ ''/'' @ object_key c)])"

definition skip_verify_of :: "label \<Rightarrow> supplied_string list \<Rightarrow> getter \<Rightarrow> Installation \<Rightarrow> ObjectRef option
    \<Rightarrow> refusal + bool" where
  "skip_verify_of label strings get inst ca =
     (let name = ''tls-skip-verify'' in
      rbind (bool_annotation label (defaulted strings get) name False) (\<lambda>skip.
      if \<not> skip then Inr False
      else rbind (ensure (allow_tls_skip_verify inst) (NotOffered (label name) [])) (\<lambda>_.
           rbind (ensure (ca = None) (Contradicts (label name) (label ''ca-configmap''))) (\<lambda>_.
           Inr True))))"

definition skip_verify_arguments :: "string option \<Rightarrow> bool \<Rightarrow> (string \<times> string) list" where
  "skip_verify_arguments server_name skip =
     (case server_name of None \<Rightarrow> [] | Some name \<Rightarrow> [(''--tls-server-name'', name)])
     @ (if skip then [(''--tls-skip-verify'', [])] else [])"

definition file_mode_arguments :: "string option \<Rightarrow> (string \<times> string) list" where
  "file_mode_arguments m = (case m of None \<Rightarrow> [] | Some t \<Rightarrow> [(''--file-mode'', ''0'' @ t)])"

definition template_of :: "label \<Rightarrow> string \<Rightarrow> string option \<times> string option
    \<Rightarrow> refusal + ObjectRef option \<times> (string \<times> string) list" where
  "template_of label mount texts =
     (case texts of (inline, configmap) \<Rightarrow>
        (case (inline, map_option (object_of ''template'') configmap) of
           (Some _, Some _) \<Rightarrow> Inl (BothSet (label ''template'') (label ''template-configmap''))
         | (Some text, None) \<Rightarrow> Inr (None, [(''--template-inline'', text)])
         | (None, Some r) \<Rightarrow> Inr (Some r, [(''--template'', mount @ ''/'' @ object_key r)])
         | (None, None) \<Rightarrow> Inr (None, [])))"

definition tls_arguments :: "string \<Rightarrow> string option \<Rightarrow> (string \<times> string) list" where
  "tls_arguments mount tls =
     (case tls of
        None \<Rightarrow> []
      | Some _ \<Rightarrow> [(''--tls-cert'', mount @ ''/tls.crt''), (''--tls-key'', mount @ ''/tls.key'')])"

definition CA_MOUNT :: string where "CA_MOUNT = ''/etc/dynamic-config/ca''"
definition SSH_MOUNT :: string where "SSH_MOUNT = ''/etc/dynamic-config/ssh''"
definition TLS_MOUNT :: string where "TLS_MOUNT = ''/etc/dynamic-config/tls''"
definition TEMPLATE_MOUNT :: string where "TEMPLATE_MOUNT = ''/etc/dynamic-config/template''"
definition SCHEMA_MOUNT :: string where "SCHEMA_MOUNT = ''/etc/dynamic-config/schema''"
definition CANARY_MOUNT :: string where "CANARY_MOUNT = ''/etc/dynamic-config/canary''"
definition EXTRA_MOUNT :: string where "EXTRA_MOUNT = ''/etc/dynamic-config/extra''"

section \<open>Named renders\<close>

definition RENDER_FLAGS :: "(string \<times> string) list" where
  "RENDER_FLAGS = [
     (''section'', ''--section''), (''auth'', ''--auth''), (''auth-mount'', ''--auth-mount''),
     (''auth-role'', ''--auth-role''), (''auth-username'', ''--auth-username''),
     (''auth-token-path'', ''--auth-token-path''), (''namespace'', ''--namespace''),
     (''ref'', ''--ref''), (''api-url'', ''--api-url'')]"

definition parent_text :: "string \<Rightarrow> string" where
  "parent_text p = unwrap_or (path_parent p) []"

definition extra_port :: "label \<Rightarrow> getter \<Rightarrow> refusal + nat option" where
  "extra_port label get =
     (case get ''metrics-port'' of
        None \<Rightarrow> Inr None
      | Some text \<Rightarrow>
          rbind (ok_or (parse_uint 10 16 text) (NotPort (label ''metrics-port'') text)) (\<lambda>port.
          Inr (if port = 0 then None else Some port)))"

definition extra_arguments :: "string \<Rightarrow> getter \<Rightarrow> Installation \<Rightarrow> string \<Rightarrow> supplied_string list
    \<Rightarrow> refusal + ObjectRef option \<times> ObjectRef option \<times> string option \<times> ObjectRef option
         \<times> (string \<times> string) list" where
  "extra_arguments suffix get inst source strings =
     (let label = suffixed suffix;
          object = (\<lambda>name default_key. map_option (object_of default_key) (defaulted strings get name));
          mounted = (\<lambda>base. base @ ''-'' @ suffix);
          ssh = object ''ssh-secret'' ''ssh-privatekey'';
          ca = object ''ca-configmap'' ''ca.crt'';
          tls = defaulted strings get ''tls-secret'' in
      rbind (ssh_arguments label (mounted SSH_MOUNT) strings get ssh) (\<lambda>ssh_args.
      rbind (skip_verify_of label strings get inst ca) (\<lambda>skip.
      rbind (file_mode_of label get inst (Some source)) (\<lambda>m.
      rbind (template_of label (mounted TEMPLATE_MOUNT)
              (as_level strings get ''template'' ''template-configmap'')) (\<lambda>(tmpl, template_args).
      Inr (ca, ssh, tls, tmpl,
           pass_through RENDER_FLAGS strings get @ ssh_args @ ca_arguments (mounted CA_MOUNT) ca
           @ skip_verify_arguments (defaulted strings get ''tls-server-name'') skip
           @ file_mode_arguments m @ template_args @ tls_arguments (mounted TLS_MOUNT) tls))))))"

definition extra_render :: "string \<Rightarrow> getter \<Rightarrow> string option \<Rightarrow> Installation \<Rightarrow> refusal + ExtraRender" where
  "extra_render suffix get default_path inst =
     (let label = suffixed suffix;
          required = (\<lambda>name. ok_or (get name) (Required (label name))) in
      rbind (required ''source'') (\<lambda>source.
      rbind (ensure (source \<in> set SOURCES) (UnknownSource (label ''source'') source)) (\<lambda>_.
      let strings = store_strings inst (Some source) in
      rbind (pin_walk label (\<lambda>key. key = ''path'') strings get) (\<lambda>_.
      rbind (pair_walk label strings get) (\<lambda>_.
      rbind (ok_or (defaulted strings get ''key'') (Required (label ''key''))) (\<lambda>key.
      rbind (required ''path'') (\<lambda>path.
      rbind (case default_path of
               None \<Rightarrow> Inr ()
             | Some d \<Rightarrow> ensure (parent_text path = parent_text d) (AnotherDirectory (label ''path'') path))
        (\<lambda>_.
      rbind (watch_seconds_of label get inst (Some source)) (\<lambda>seconds.
      let (endpoint, endpoint_secret) = as_level strings get ''endpoint'' ''endpoint-secret'' in
      rbind (secret_env_of label strings get endpoint_secret) (\<lambda>secret_env.
      rbind (one_address label endpoint endpoint_secret) (\<lambda>_.
      rbind (extra_port label get) (\<lambda>port.
      rbind (extra_arguments suffix get inst source strings) (\<lambda>(ca, ssh, tls, tmpl, args).
      Inr \<lparr> x_name = suffix, x_metrics_port = port, x_source = source, x_endpoint = endpoint,
            x_key = key, x_path = path, x_watch_seconds = seconds, x_arguments = args,
            x_secret_env = secret_env, x_ca = ca, x_ssh = ssh, x_tls = tls,
            x_template = tmpl \<rparr>)))))))))))))"

end
