(* ===== verification/Annotations.thy ===== *)
theory Annotations
  imports Request
begin

text \<open>
  \<open>of_pod_with\<close> (\<open>annotations.rs\<close>): a pod's annotations and an installation to a request, or a
  refusal. The function is one sequence of early returns in the source; here it is a sequence of
  stages in the same order, each a fallible definition over the getter, the installation, the
  resolved source and the strings the installation supplies for it.
\<close>

definition STATUS :: string where "STATUS = ''status''"
definition INJECTED :: string where "INJECTED = ''injected''"

definition containers_of :: "json \<Rightarrow> string \<Rightarrow> json list option" where
  "containers_of pod list =
     (case pointer [''spec'', list] pod of None \<Rightarrow> None | Some j \<Rightarrow> as_array j)"

definition container_name :: "json \<Rightarrow> string option" where
  "container_name c = (case pointer [''name''] c of None \<Rightarrow> None | Some j \<Rightarrow> as_str j)"

definition already_injected :: "json \<Rightarrow> bool" where
  "already_injected pod \<longleftrightarrow>
     (let named = (\<lambda>list. case containers_of pod list of
          None \<Rightarrow> False
        | Some cs \<Rightarrow> list_ex (\<lambda>c. container_name c \<in>
            {Some ''dynamic-config-agent'', Some ''dynamic-config-init''}) cs)
      in named ''containers'' \<or> named ''initContainers'')"

text \<open>The mark of an earlier pass, then the request itself: whether there is anything to do.\<close>

definition asked :: "getter \<Rightarrow> json \<Rightarrow> refusal + bool" where
  "asked get pod =
     (case get STATUS of
        Some mark \<Rightarrow>
          if mark = INJECTED
          then (if already_injected pod then Inr False else Inl MarkWithoutAgent)
          else Inl (MarkForeign mark)
      | None \<Rightarrow>
          (case get ''inject'' of
             None \<Rightarrow> Inr False
           | Some text \<Rightarrow> parse_bool (NotBool ''inject'' text) text))"

section \<open>Suffixes\<close>

definition ALSO :: "string list" where
  "ALSO = [''also'', ''also-section'']"

definition valid_suffix :: "string \<Rightarrow> bool" where
  "valid_suffix suffix \<longleftrightarrow> suffix \<noteq> [] \<and> length suffix \<le> 32 \<and>
     list_all (\<lambda>c. is_lower c \<or> is_digit c \<or> c = CHR ''-'') suffix"

definition add_new :: "string \<Rightarrow> string list \<Rightarrow> string list" where
  "add_new n ns = (if n \<in> set ns then ns else ns @ [n])"

definition suffix_step :: "string \<Rightarrow> string list \<times> string list \<Rightarrow> refusal + string list \<times> string list" where
  "suffix_step key names =
     (case names of (extras, alsos) \<Rightarrow>
        (case strip_prefix PREFIX key of
           None \<Rightarrow> Inr names
         | Some name \<Rightarrow>
             if is_known name then Inr names
             else (case split_once (CHR ''.'') name of
                     None \<Rightarrow> Inl (UnknownKey name)
                   | Some (base, suffix) \<Rightarrow>
                       if base \<in> set ALSO \<and> valid_suffix suffix
                       then Inr (extras, add_new suffix alsos)
                       else if is_per_render base \<and> valid_suffix suffix
                       then Inr (add_new suffix extras, alsos)
                       else Inl (UnknownKey name))))"

definition suffix_names :: "string list \<Rightarrow> refusal + string list \<times> string list" where
  "suffix_names keys =
     rbind (rfold suffix_step keys ([], [])) (\<lambda>(extras, alsos). Inr (sort extras, sort alsos))"

section \<open>Source, mode and pins\<close>

definition source_of :: "getter \<Rightarrow> Installation \<Rightarrow> refusal + string option" where
  "source_of get inst =
     rbind (case get ''source'' of
              None \<Rightarrow> Inr ()
            | Some s \<Rightarrow> ensure (s \<in> set SOURCES) (UnknownSource ''source'' s)) (\<lambda>_.
     rbind (case (get ''source'', supplied_source inst) of
              (Some s, Some (t, True)) \<Rightarrow> ensure (s = t) (pinned_refusal id ''source'' s t)
            | _ \<Rightarrow> Inr ()) (\<lambda>_.
     Inr (or_else (get ''source'') (map_option fst (supplied_source inst)))))"

definition show_mode :: "Mode \<Rightarrow> string" where
  "show_mode m = (case m of Init \<Rightarrow> ''init'' | Sidecar \<Rightarrow> ''sidecar'' | Both \<Rightarrow> ''both'')"

definition mode_of :: "getter \<Rightarrow> Installation \<Rightarrow> string option \<Rightarrow> refusal + Mode" where
  "mode_of get inst source =
     (case get ''mode'' of
        None \<Rightarrow> Inr (unwrap_or (knob inst source k_mode) Sidecar)
      | Some text \<Rightarrow>
          rbind (parse_mode (NotOneOf ''mode'' text) text) (\<lambda>m.
          rbind (conforms id ''mode'' show_mode (supplied inst source ''mode'' k_mode) (show_mode m) m)
            (\<lambda>_. Inr m)))"

definition volume_memory_of :: "getter \<Rightarrow> Installation \<Rightarrow> string option \<Rightarrow> refusal + bool" where
  "volume_memory_of get inst source =
     (case get ''volume-medium'' of
        None \<Rightarrow> Inr (unwrap_or (knob inst source k_volume_memory) True)
      | Some text \<Rightarrow>
          rbind (parse_medium (NotOneOf ''volume-medium'' text) text) (\<lambda>b.
          rbind (conforms id ''volume-medium'' (\<lambda>t. if t then ''memory'' else ''disk'')
                  (supplied inst source ''volume-medium'' k_volume_memory) text b) (\<lambda>_. Inr b)))"

definition native_sidecar_of :: "getter \<Rightarrow> Installation \<Rightarrow> string option \<Rightarrow> refusal + bool" where
  "native_sidecar_of get inst source =
     (case get ''native-sidecar'' of
        None \<Rightarrow> Inr (unwrap_or (knob inst source k_native_sidecar) False)
      | Some text \<Rightarrow>
          rbind (parse_bool (NotBool ''native-sidecar'' text) text) (\<lambda>b.
          rbind (conforms id ''native-sidecar'' (\<lambda>t. if t then ''true'' else ''false'')
                  (supplied inst source ''native-sidecar'' k_native_sidecar) text b) (\<lambda>_. Inr b)))"

section \<open>Flags of the default render\<close>

definition POD_FLAGS :: "(string \<times> string) list" where
  "POD_FLAGS = RENDER_FLAGS @ [
     (''startup-policy'', ''--startup-policy''), (''on-delete'', ''--on-delete''),
     (''max-document-bytes'', ''--max-document-bytes''), (''max-staleness'', ''--max-staleness'')]"

section \<open>Resources\<close>

definition quantity :: "getter \<Rightarrow> string \<Rightarrow> string \<Rightarrow> refusal + string" where
  "quantity get name fallback =
     (let text = unwrap_or (get name) fallback in
      if sane_quantity text then Inr text else Inl (NotQuantity name text))"

definition quantity_pin :: "getter \<Rightarrow> Installation \<Rightarrow> string option
    \<Rightarrow> string \<times> (knob_defaults \<Rightarrow> string option) \<Rightarrow> refusal + unit" where
  "quantity_pin get inst source entry =
     (case entry of (key, pick) \<Rightarrow>
        (case (get key, supplied inst source key pick) of
           (Some pod, Some (tier, True)) \<Rightarrow> ensure (pod = tier) (pinned_refusal id key pod tier)
         | _ \<Rightarrow> Inr ()))"

definition ephemeral :: "getter \<Rightarrow> string \<Rightarrow> refusal + string option" where
  "ephemeral get key =
     (case get key of
        None \<Rightarrow> Inr None
      | Some v \<Rightarrow> rbind (quantity get key v) (\<lambda>q. Inr (Some q)))"

definition request_fits :: "string option \<Rightarrow> string option \<Rightarrow> bool" where
  "request_fits request limit =
     (case (request, limit) of
        (Some r, Some l) \<Rightarrow>
          (case (bytes_of r, bytes_of l) of (Some a, Some b) \<Rightarrow> a \<le> b | _ \<Rightarrow> True)
      | _ \<Rightarrow> True)"

definition resources_of :: "getter \<Rightarrow> Installation \<Rightarrow> string option \<Rightarrow> refusal + Resources" where
  "resources_of get inst source =
     (let cpu_limit_default = knob inst source k_cpu_limit in
      rbind (rmap (quantity_pin get inst source)
               [(''agent-cpu-request'', k_cpu_request), (''agent-memory-request'', k_memory_request),
                (''agent-cpu-limit'', k_cpu_limit), (''agent-memory-limit'', k_memory_limit)]) (\<lambda>_.
      rbind (ephemeral get ''agent-ephemeral-request'') (\<lambda>erequest.
      rbind (ephemeral get ''agent-ephemeral-limit'') (\<lambda>elimit.
      rbind (ensure (request_fits erequest elimit)
              (TooLarge ''agent-ephemeral-request'' ''agent-ephemeral-limit'')) (\<lambda>_.
      rbind (quantity get ''agent-cpu-request'' (unwrap_or (knob inst source k_cpu_request) ''10m''))
        (\<lambda>cpu.
      rbind (quantity get ''agent-memory-request'' (unwrap_or (knob inst source k_memory_request) ''32Mi''))
        (\<lambda>memory.
      rbind (case or_else (get ''agent-cpu-limit'') cpu_limit_default of
               None \<Rightarrow> Inr None
             | Some _ \<Rightarrow> rbind (quantity get ''agent-cpu-limit'' (unwrap_or cpu_limit_default []))
                           (\<lambda>q. Inr (Some q))) (\<lambda>climit.
      rbind (quantity get ''agent-memory-limit'' (unwrap_or (knob inst source k_memory_limit) ''64Mi''))
        (\<lambda>mlimit.
      Inr \<lparr> cpu_request = cpu, memory_request = memory, cpu_limit = climit, memory_limit = mlimit,
            ephemeral_request = erequest, ephemeral_limit = elimit \<rparr>)))))))))"

section \<open>Identity\<close>

definition identity :: "getter \<Rightarrow> string \<Rightarrow> refusal + nat option" where
  "identity get name =
     (case get name of
        None \<Rightarrow> Inr None
      | Some text \<Rightarrow> rbind (nonroot_id name text) (\<lambda>i. Inr (Some i)))"

definition identity_pin :: "getter \<Rightarrow> Installation \<Rightarrow> string option
    \<Rightarrow> string \<times> (knob_defaults \<Rightarrow> nat option) \<Rightarrow> refusal + unit" where
  "identity_pin get inst source entry =
     (case entry of (key, pick) \<Rightarrow>
        rbind (identity get key) (\<lambda>pod.
        case (pod, supplied inst source key pick) of
          (Some v, Some (tier, True)) \<Rightarrow>
            ensure (v = tier) (pinned_refusal id key (show_nat v) (show_nat tier))
        | _ \<Rightarrow> Inr ()))"

definition run_as_user_at :: "json \<Rightarrow> nat option" where
  "run_as_user_at j =
     (case pointer [''securityContext'', ''runAsUser''] j of None \<Rightarrow> None | Some v \<Rightarrow> as_u64 v)"

definition application_uid :: "json \<Rightarrow> nat option" where
  "application_uid pod =
     or_else (case containers_of pod ''containers'' of
                Some (c # _) \<Rightarrow> run_as_user_at c
              | _ \<Rightarrow> None)
       (case pointer [''spec''] pod of None \<Rightarrow> None | Some s \<Rightarrow> run_as_user_at s)"

definition inherited_uid :: "getter \<Rightarrow> json \<Rightarrow> refusal + nat option" where
  "inherited_uid get pod =
     (let name = ''agent-run-as-same-user'' in
      rbind (bool_annotation id get name False) (\<lambda>same_user.
      if \<not> same_user then Inr None
      else rbind (ensure (get ''agent-run-as-user'' = None) (Contradicts name ''agent-run-as-user'')) (\<lambda>_.
           rbind (ok_or (application_uid pod) (NothingToInherit name)) (\<lambda>uid.
           rbind (ensure (uid < 2 ^ 32) (NotUid name)) (\<lambda>_.
           rbind (ensure (uid \<noteq> 0) (RootId name)) (\<lambda>_.
           Inr (Some uid)))))))"

definition identities_of :: "getter \<Rightarrow> json \<Rightarrow> Installation \<Rightarrow> string option
    \<Rightarrow> refusal + nat option \<times> nat option" where
  "identities_of get pod inst source =
     rbind (rmap (identity_pin get inst source)
              [(''agent-run-as-user'', k_run_as_user), (''agent-run-as-group'', k_run_as_group)]) (\<lambda>_.
     rbind (inherited_uid get pod) (\<lambda>inherited.
     rbind (identity get ''agent-run-as-user'') (\<lambda>user.
     rbind (identity get ''agent-run-as-group'') (\<lambda>grp.
     Inr (or_else (or_else inherited user) (knob inst source k_run_as_user),
          or_else grp (knob inst source k_run_as_group))))))"

section \<open>The environment wrapper, metrics and the lease\<close>

definition env_of :: "getter \<Rightarrow> Mode \<Rightarrow> refusal + string option \<times> bool" where
  "env_of get m =
     (let inject = get ''env-inject'' in
      rbind (ensure (\<not> (inject \<noteq> None \<and> m = Sidecar)) (Contradicts ''env-inject'' ''mode'')) (\<lambda>_.
      rbind (bool_annotation id get ''env-restart'' False) (\<lambda>restart.
      rbind (ensure (\<not> (restart \<and> inject = None)) (Contradicts ''env-restart'' ''env-inject'')) (\<lambda>_.
      rbind (ensure (\<not> (restart \<and> m \<noteq> Both)) (Contradicts ''env-restart'' ''mode'')) (\<lambda>_.
      Inr (inject, restart))))))"

definition aws_secret_of :: "supplied_string list \<Rightarrow> getter \<Rightarrow> string option \<Rightarrow> refusal + string option" where
  "aws_secret_of strings get source =
     (let aws = defaulted strings get ''aws-secret'' in
      rbind (ensure (\<not> (aws \<noteq> None \<and> source \<noteq> Some ''s3''))
              (Contradicts ''aws-secret'' (unwrap_or source ''unset''))) (\<lambda>_. Inr aws))"

definition metrics_port_of :: "getter \<Rightarrow> Installation \<Rightarrow> string option \<Rightarrow> refusal + nat option" where
  "metrics_port_of get inst source =
     (case get ''metrics-port'' of
        None \<Rightarrow> Inr (knob inst source k_metrics_port)
      | Some text \<Rightarrow>
          rbind (ok_or (parse_uint 10 16 text) (NotPort ''metrics-port'' text)) (\<lambda>port.
          rbind (conforms id ''metrics-port'' show_nat
                  (supplied inst source ''metrics-port'' k_metrics_port) text port) (\<lambda>_.
          Inr (if port = 0 then None else Some port))))"

definition grace_period :: "json \<Rightarrow> nat" where
  "grace_period pod =
     unwrap_or (case pointer [''spec'', ''terminationGracePeriodSeconds''] pod of
                  None \<Rightarrow> None | Some v \<Rightarrow> as_u64 v) 30"

definition revoke_grace_of :: "getter \<Rightarrow> json \<Rightarrow> bool \<Rightarrow> refusal + nat option" where
  "revoke_grace_of get pod dynamic =
     (case get ''revoke-grace'' of
        None \<Rightarrow> Inr None
      | Some text \<Rightarrow>
          rbind (ok_or (parse_uint 10 64 (unwrap_or (strip_suffix ''s'' text) text))
                  (NotWholeSeconds ''revoke-grace'' text)) (\<lambda>seconds.
          rbind (ensure (seconds \<noteq> 0) (ZeroValue ''revoke-grace'')) (\<lambda>_.
          rbind (ensure (seconds \<le> grace_period pod) (TooLarge ''revoke-grace'' (show_nat seconds))) (\<lambda>_.
          rbind (ensure dynamic (Contradicts ''revoke-grace'' ''dynamic'')) (\<lambda>_.
          Inr (Some seconds))))))"

definition lease_of :: "getter \<Rightarrow> json \<Rightarrow> refusal + bool \<times> bool \<times> bool \<times> nat option" where
  "lease_of get pod =
     rbind (bool_annotation id get ''meta'' False) (\<lambda>meta.
     rbind (bool_annotation id get ''dynamic'' False) (\<lambda>dynamic.
     rbind (bool_annotation id get ''revoke-on-shutdown'' True) (\<lambda>revoke.
     rbind (revoke_grace_of get pod dynamic) (\<lambda>grace.
     Inr (meta, dynamic, revoke, grace)))))"

section \<open>What happens around a render\<close>

definition init_first_of :: "getter \<Rightarrow> Mode \<Rightarrow> refusal + bool" where
  "init_first_of get m =
     rbind (bool_annotation id get ''init-first'' False) (\<lambda>first.
     rbind (ensure (\<not> (first \<and> m = Sidecar)) (Contradicts ''init-first'' ''mode'')) (\<lambda>_. Inr first))"

definition notify_http_of :: "getter \<Rightarrow> Mode \<Rightarrow> refusal + string option" where
  "notify_http_of get m =
     rbind (ensure (\<not> (get ''notify-http'' \<noteq> None \<and> m = Init)) (Contradicts ''notify-http'' ''mode''))
       (\<lambda>_. Inr (get ''notify-http''))"

definition history_of :: "getter \<Rightarrow> bool \<Rightarrow> refusal + nat option" where
  "history_of get memory =
     (case get ''history'' of
        None \<Rightarrow> Inr None
      | Some text \<Rightarrow>
          rbind (ok_or (parse_uint 10 64 text) (NotNumericId ''history'' text)) (\<lambda>keep.
          rbind (ensure (keep \<noteq> 0) (ZeroValue ''history'')) (\<lambda>_.
          rbind (ensure (keep \<le> MOST_HISTORY) (TooLarge ''history'' (show_nat keep))) (\<lambda>_.
          rbind (ensure memory (Contradicts ''history'' ''volume-medium'')) (\<lambda>_.
          Inr (Some keep))))))"

definition canary_of :: "supplied_string list \<Rightarrow> getter \<Rightarrow> Mode \<Rightarrow> refusal + ObjectRef option" where
  "canary_of strings get m =
     (let canary = map_option (object_of ''percent'') (defaulted strings get ''canary-configmap'') in
      rbind (ensure (\<not> (canary \<noteq> None \<and> m = Init)) (Contradicts ''canary-configmap'' ''mode''))
        (\<lambda>_. Inr canary))"

definition timeout_of :: "supplied_string list \<Rightarrow> getter \<Rightarrow> refusal + nat option" where
  "timeout_of strings get =
     (case defaulted strings get ''timeout'' of
        None \<Rightarrow> Inr None
      | Some text \<Rightarrow>
          rbind (ok_or (parse_uint 10 64 text) (NotWholeSeconds ''timeout'' text)) (\<lambda>seconds.
          rbind (ensure (seconds \<noteq> 0) (ZeroValue ''timeout'')) (\<lambda>_. Inr (Some seconds))))"

definition agent_image_of :: "getter \<Rightarrow> Installation \<Rightarrow> refusal + string option" where
  "agent_image_of get inst =
     (case get ''agent-image'' of
        None \<Rightarrow> Inr None
      | Some img \<Rightarrow>
          rbind (ensure (agent_image_allowed inst img) (NotOffered ''agent-image'' img))
            (\<lambda>_. Inr (Some img)))"

definition events_of :: "getter \<Rightarrow> Installation \<Rightarrow> refusal + bool" where
  "events_of get inst =
     rbind (bool_annotation id get ''events'' False) (\<lambda>e.
     rbind (ensure (\<not> (e \<and> \<not> allow_events inst)) (NotOffered ''events'' [])) (\<lambda>_. Inr e))"

definition on_drift_of :: "getter \<Rightarrow> refusal + string option" where
  "on_drift_of get =
     (case get ''on-drift'' of
        None \<Rightarrow> Inr None
      | Some policy \<Rightarrow>
          if policy \<in> {''warn'', ''repair'', ''fail''} then Inr (Some policy)
          else Inl (NotOneOf ''on-drift'' policy))"

definition readiness_of :: "getter \<Rightarrow> Mode \<Rightarrow> refusal + bool \<times> bool" where
  "readiness_of get m =
     rbind (bool_annotation id get ''readiness'' True) (\<lambda>readiness.
     rbind (bool_annotation id get ''require-ack'' False) (\<lambda>ack.
     rbind (ensure (\<not> (ack \<and> \<not> readiness)) (Contradicts ''require-ack'' ''readiness'')) (\<lambda>_.
     rbind (ensure (\<not> (ack \<and> m = Init)) (Contradicts ''require-ack'' ''mode'')) (\<lambda>_.
     Inr (readiness, ack)))))"

section \<open>The agent's environment and the application's containers\<close>

definition AWS_NAMES :: "string list" where
  "AWS_NAMES = [''AWS_ACCESS_KEY_ID'', ''AWS_SECRET_ACCESS_KEY'']"

definition agent_env_of :: "getter \<Rightarrow> string option \<Rightarrow> refusal + (string \<times> string) list" where
  "agent_env_of get aws =
     rbind (case get ''agent-env'' of None \<Rightarrow> Inr [] | Some text \<Rightarrow> env_entries ''agent-env'' text)
       (\<lambda>env.
     case find (\<lambda>(name, _). aws \<noteq> None \<and> name \<in> set AWS_NAMES) env of
       Some (name, _) \<Rightarrow> Inl (Contradicts name ''aws-secret'')
     | None \<Rightarrow> Inr env)"

definition fleet_env_of :: "Installation \<Rightarrow> (string \<times> string) list \<Rightarrow> string option \<Rightarrow> (string \<times> string) list" where
  "fleet_env_of inst env aws =
     filter (\<lambda>(name, _). aws = None \<or> name \<notin> set AWS_NAMES)
       (filter (\<lambda>(name, _). \<not> list_ex (\<lambda>(pod_name, _). pod_name = name) env) (install_env inst))"

definition inject_containers_of :: "getter \<Rightarrow> json \<Rightarrow> refusal + string list option" where
  "inject_containers_of get pod =
     (case get ''inject-containers'' of
        None \<Rightarrow> Inr None
      | Some text \<Rightarrow>
          (let named = split_trim (CHR '','') text;
               present = List.map_filter (\<lambda>c. as_str (jfield ''name'' c))
                           (unwrap_or (containers_of pod ''containers'') []) in
           if named = [] then Inl (EmptyValue ''inject-containers'' text)
           else (case find (\<lambda>name. name \<notin> set present) named of
                   Some missing \<Rightarrow> Inl (NoSuchContainer ''inject-containers'' missing)
                 | None \<Rightarrow> Inr (Some named))))"

definition wrappable :: "json \<Rightarrow> string option \<Rightarrow> bool \<Rightarrow> string list option \<Rightarrow> refusal + unit" where
  "wrappable pod inject restart named =
     (case inject of
        None \<Rightarrow> Inr ()
      | Some name \<Rightarrow>
          rbind (case named of
                   None \<Rightarrow> Inr ()
                 | Some names \<Rightarrow> ensure (name \<in> set names) (LeftOut ''env-inject'' name)) (\<lambda>_.
          rbind (ok_or (find (\<lambda>c. as_str (jfield ''name'' c) = Some name)
                         (unwrap_or (containers_of pod ''containers'') []))
                  (NoSuchContainer ''env-inject'' name)) (\<lambda>container.
          rbind (ensure (unwrap_or (map_option (\<lambda>xs. xs \<noteq> []) (as_array (jfield ''command'' container)))
                           False) (NoCommand name)) (\<lambda>_.
          ensure (\<not> (restart \<and> jget ''livenessProbe'' container \<noteq> None)) (ProbeTaken name)))))"

section \<open>The other files of the pod\<close>

definition also_of :: "getter \<Rightarrow> string option \<Rightarrow> string \<Rightarrow> refusal + also_file" where
  "also_of get main_path suffix =
     rbind (ok_or (get (''also.'' @ suffix)) (Required (''also.'' @ suffix))) (\<lambda>path.
     rbind (ensure (starts_with ''/'' path) (NotAbsolute (''also.'' @ suffix) path)) (\<lambda>_.
     rbind (ensure
              (case (path_parent path, (case main_path of None \<Rightarrow> None | Some p \<Rightarrow> path_parent p)) of
                 (Some d, Some e) \<Rightarrow> path_eq d e
               | (None, None) \<Rightarrow> True
               | _ \<Rightarrow> False)
              (AnotherDirectory (''also.'' @ suffix) path)) (\<lambda>_.
     Inr \<lparr> also_name = suffix, also_path = path, also_section = get (''also-section.'' @ suffix) \<rparr>)))"

section \<open>The whole contract\<close>

text \<open>
  The source's single function, cut where it has finished with one concern. \<open>pod_arguments\<close> is
  everything that becomes a flag, in the fixed order the golden files depend on.
\<close>

definition pod_arguments :: "supplied_string list \<Rightarrow> getter \<Rightarrow> Installation
    \<Rightarrow> refusal + ObjectRef option \<times> ObjectRef option \<times> bool \<times> (string \<times> string) list" where
  "pod_arguments strings get inst =
     (let object = (\<lambda>name default_key. map_option (object_of default_key) (defaulted strings get name));
          ssh = object ''ssh-secret'' ''ssh-privatekey'';
          ca = object ''ca-configmap'' ''ca.crt'' in
      rbind (ssh_arguments id SSH_MOUNT strings get ssh) (\<lambda>ssh_args.
      rbind (skip_verify_of id strings get inst ca) (\<lambda>skip.
      Inr (ssh, ca, skip,
           pass_through POD_FLAGS strings get @ ssh_args @ ca_arguments CA_MOUNT ca
           @ skip_verify_arguments (defaulted strings get ''tls-server-name'') skip))))"

definition late_arguments :: "supplied_string list \<Rightarrow> getter \<Rightarrow> string option
    \<Rightarrow> refusal + ObjectRef option \<times> ObjectRef option \<times> string option \<times> (string \<times> string) list" where
  "late_arguments strings get m =
     (let tls = defaulted strings get ''tls-secret'';
          schema = map_option (object_of ''schema.json'') (defaulted strings get ''schema-configmap'') in
      rbind (template_of id TEMPLATE_MOUNT (as_level strings get ''template'' ''template-configmap''))
        (\<lambda>(tmpl, template_args).
      Inr (tmpl, schema, tls,
           file_mode_arguments m @ template_args
           @ (case schema of None \<Rightarrow> [] | Some r \<Rightarrow> [(''--schema'', SCHEMA_MOUNT @ ''/'' @ object_key r)])
           @ tls_arguments TLS_MOUNT tls)))"

definition extras_of :: "getter \<Rightarrow> Installation \<Rightarrow> string option \<Rightarrow> string list \<Rightarrow> refusal + ExtraRender list" where
  "extras_of get inst path names =
     rmap (\<lambda>suffix. extra_render suffix (\<lambda>name. get (suffixed suffix name)) path inst) names"

definition read_request :: "getter \<Rightarrow> json \<Rightarrow> Installation \<Rightarrow> string list \<Rightarrow> string list \<Rightarrow> refusal + Request" where
  "read_request get pod inst extra_names also_names =
     rbind (source_of get inst) (\<lambda>source.
     let strings = store_strings inst source in
     rbind (pin_walk id (\<lambda>_. False) strings get) (\<lambda>_.
     rbind (pair_walk id strings get) (\<lambda>_.
     rbind (mode_of get inst source) (\<lambda>m.
     rbind (watch_seconds_of id get inst source) (\<lambda>seconds.
     let (endpoint, endpoint_secret) = as_level strings get ''endpoint'' ''endpoint-secret'' in
     rbind (secret_env_of id strings get endpoint_secret) (\<lambda>secret_env.
     rbind (one_address id endpoint endpoint_secret) (\<lambda>_.
     rbind (pod_arguments strings get inst) (\<lambda>(ssh, ca, skip, args).
     rbind (volume_memory_of get inst source) (\<lambda>memory.
     rbind (native_sidecar_of get inst source) (\<lambda>native.
     rbind (resources_of get inst source) (\<lambda>res.
     rbind (file_mode_of id get inst source) (\<lambda>fmode.
     rbind (identities_of get pod inst source) (\<lambda>(user, grp).
     rbind (env_of get m) (\<lambda>(inject, restart).
     rbind (aws_secret_of strings get source) (\<lambda>aws.
     rbind (metrics_port_of get inst source) (\<lambda>port.
     rbind (lease_of get pod) (\<lambda>(meta, dynamic, revoke, grace).
     rbind (init_first_of get m) (\<lambda>first.
     rbind (notify_http_of get m) (\<lambda>notify.
     rbind (bool_annotation id get ''tls-reload'' True) (\<lambda>reload.
     rbind (history_of get memory) (\<lambda>keep.
     rbind (canary_of strings get m) (\<lambda>canary.
     rbind (timeout_of strings get) (\<lambda>limit.
     rbind (agent_image_of get inst) (\<lambda>img.
     rbind (events_of get inst) (\<lambda>ev.
     rbind (on_drift_of get) (\<lambda>drift.
     rbind (ensure (\<not> (\<not> revoke \<and> \<not> dynamic)) (Contradicts ''revoke-on-shutdown'' ''dynamic'')) (\<lambda>_.
     rbind (readiness_of get m) (\<lambda>(ready, ack).
     rbind (agent_env_of get aws) (\<lambda>env.
     rbind (inject_containers_of get pod) (\<lambda>named.
     rbind (wrappable pod inject restart named) (\<lambda>_.
     rbind (late_arguments strings get fmode) (\<lambda>(tmpl, schema, tls, late_args).
     let main_path = defaulted strings get ''path'' in
     rbind (extras_of get inst main_path extra_names) (\<lambda>extra.
     rbind (rmap (also_of get main_path) also_names) (\<lambda>also.
     rbind (ok_or main_path (Required ''path'')) (\<lambda>path.
     rbind (ok_or source (Required ''source'')) (\<lambda>src.
     rbind (ok_or (defaulted strings get ''key'') (Required ''key'')) (\<lambda>key.
     Inr \<lparr> rq_source = src, rq_endpoint = endpoint, rq_key = key, rq_path = path, rq_mode = m,
       rq_watch_seconds = seconds, rq_arguments = args @ late_args, rq_secret_env = secret_env,
       rq_ca = ca, rq_ssh = ssh, rq_tls = tls, rq_template = tmpl, rq_volume_memory = memory,
       rq_native_sidecar = native, rq_resources = res, rq_file_mode = fmode, rq_run_as_user = user,
       rq_run_as_group = grp, rq_env_inject = inject, rq_env_restart = restart,
       rq_metrics_port = port, rq_notify_http = notify, rq_on_drift = drift, rq_tls_reload = reload,
       rq_history = keep, rq_require_ack = ack, rq_canary = canary, rq_agent_image = img,
       rq_timeout = limit, rq_events = ev, rq_revoke_grace = grace, rq_init_first = first,
       rq_extra_secret = get ''extra-secret'',
       rq_tls_server_name = defaulted strings get ''tls-server-name'', rq_tls_skip_verify = skip,
       rq_inject_containers = named, rq_readiness = ready, rq_meta = meta, rq_schema = schema,
       rq_also = also, rq_dynamic = dynamic, rq_revoke_on_shutdown = revoke, rq_aws_secret = aws,
       rq_agent_env = env, rq_fleet_env = fleet_env_of inst env aws, rq_extra = extra \<rparr>
     )))))))))))))))))))))))))))))))))))))"

definition of_pod_with :: "json \<Rightarrow> Installation \<Rightarrow> refusal + Request option" where
  "of_pod_with pod inst =
     (case annotations_of pod of
        None \<Rightarrow> Inr None
      | Some annotations \<Rightarrow>
          (let get = annotation annotations in
           rbind (asked get pod) (\<lambda>wanted.
           if \<not> wanted then Inr None
           else rbind (suffix_names (map fst annotations)) (\<lambda>(extra_names, also_names).
                rbind (read_request get pod inst extra_names also_names) (\<lambda>r. Inr (Some r))))))"

section \<open>The stages of an accepted request\<close>

lemma read_request_stages:
  assumes "read_request get pod inst extra_names also_names = Inr r"
  defines "src \<equiv> Some (rq_source r)"
  defines "strings \<equiv> store_strings inst src"
  shows "source_of get inst = Inr src" (is ?A)
    and "pin_walk id (\<lambda>_. False) strings get = Inr ()" (is ?B)
    and "pair_walk id strings get = Inr ()" (is ?C)
    and "mode_of get inst src = Inr (rq_mode r)" (is ?D)
    and "watch_seconds_of id get inst src = Inr (rq_watch_seconds r)" (is ?E)
    and "\<exists>es. as_level strings get ''endpoint'' ''endpoint-secret'' = (rq_endpoint r, es) \<and>
           secret_env_of id strings get es = Inr (rq_secret_env r) \<and>
           one_address id (rq_endpoint r) es = Inr ()" (is ?F)
    and "\<exists>args late. pod_arguments strings get inst
             = Inr (rq_ssh r, rq_ca r, rq_tls_skip_verify r, args) \<and>
           late_arguments strings get (rq_file_mode r)
             = Inr (rq_template r, rq_schema r, rq_tls r, late) \<and>
           rq_arguments r = args @ late" (is ?G)
    and "volume_memory_of get inst src = Inr (rq_volume_memory r)" (is ?H)
    and "native_sidecar_of get inst src = Inr (rq_native_sidecar r)" (is ?I)
    and "resources_of get inst src = Inr (rq_resources r)" (is ?J)
    and "file_mode_of id get inst src = Inr (rq_file_mode r)" (is ?K)
    and "identities_of get pod inst src = Inr (rq_run_as_user r, rq_run_as_group r)" (is ?L)
    and "env_of get (rq_mode r) = Inr (rq_env_inject r, rq_env_restart r)" (is ?M)
    and "aws_secret_of strings get src = Inr (rq_aws_secret r)" (is ?N)
    and "metrics_port_of get inst src = Inr (rq_metrics_port r)" (is ?O)
    and "lease_of get pod = Inr (rq_meta r, rq_dynamic r, rq_revoke_on_shutdown r, rq_revoke_grace r)" (is ?P)
    and "init_first_of get (rq_mode r) = Inr (rq_init_first r)" (is ?Q)
    and "notify_http_of get (rq_mode r) = Inr (rq_notify_http r)" (is ?R)
    and "history_of get (rq_volume_memory r) = Inr (rq_history r)" (is ?S)
    and "canary_of strings get (rq_mode r) = Inr (rq_canary r)" (is ?T)
    and "agent_image_of get inst = Inr (rq_agent_image r)" (is ?U)
    and "events_of get inst = Inr (rq_events r)" (is ?V)
    and "readiness_of get (rq_mode r) = Inr (rq_readiness r, rq_require_ack r)" (is ?W)
    and "agent_env_of get (rq_aws_secret r) = Inr (rq_agent_env r)" (is ?X)
    and "wrappable pod (rq_env_inject r) (rq_env_restart r) (rq_inject_containers r) = Inr ()" (is ?Y)
    and "extras_of get inst (Some (rq_path r)) extra_names = Inr (rq_extra r)" (is ?Z)
    and "rmap (also_of get (Some (rq_path r))) also_names = Inr (rq_also r)" (is ?A2)
    and "defaulted strings get ''path'' = Some (rq_path r)" (is ?B2)
    and "defaulted strings get ''key'' = Some (rq_key r)" (is ?C2)
    and "rq_revoke_on_shutdown r \<or> rq_dynamic r" (is ?D2)
    and "inject_containers_of get pod = Inr (rq_inject_containers r)" (is ?E2)
proof -
  have "?A \<and> ?B \<and> ?C \<and> ?D \<and> ?E \<and> ?F \<and> ?G \<and> ?H \<and> ?I \<and> ?J \<and> ?K \<and> ?L \<and> ?M \<and> ?N \<and> ?O \<and> ?P \<and>
    ?Q \<and> ?R \<and> ?S \<and> ?T \<and> ?U \<and> ?V \<and> ?W \<and> ?X \<and> ?Y \<and> ?Z \<and> ?A2 \<and> ?B2 \<and> ?C2 \<and> ?D2 \<and> ?E2"
    using assms(1)
    unfolding read_request_def Let_def split_beta rbind_eq_Inr sum.inject ensure_eq_Inr ok_or_eq_Inr
      src_def strings_def
    by (elim exE conjE) (hypsubst, simp add: prod_eq_iff)
  then show ?A ?B ?C ?D ?E ?F ?G ?H ?I ?J ?K ?L ?M ?N ?O ?P ?Q ?R ?S ?T ?U ?V ?W ?X ?Y ?Z ?A2 ?B2 ?C2
    ?D2 ?E2 by blast+
qed

locale pinning =
  fixes walk :: "getter \<Rightarrow> refusal + unit"
    and tiers :: "string \<Rightarrow> (string \<times> bool) option"
    and answer :: "getter \<Rightarrow> getter"
    and own_key :: "string \<Rightarrow> bool"
  assumes refuses: "walk get = Inr u \<Longrightarrow> \<not> own_key key \<Longrightarrow> tiers key = Some (tier, True) \<Longrightarrow>
      get key = Some pod \<Longrightarrow> pod = tier"
    and answers: "answer get key = or_else (get key) (map_option fst (tiers key))"
begin

lemma pinned_answer:
  assumes "walk get = Inr u" and "\<not> own_key key" and "tiers key = Some (tier, True)"
  shows "answer get key = Some tier"
  using refuses [OF assms] assms(3) by (cases "get key") (simp_all add: answers)

lemma pods_agree:
  assumes "walk g = Inr u" and "walk h = Inr w" and "\<not> own_key key"
    and "tiers key = Some (tier, True)"
  shows "answer g key = answer h key"
  using assms pinned_answer by metis

end

lemma pin_walk_refuses:
  assumes "pin_walk label skipped strings get = Inr u" and "\<not> skipped key"
    and "map_of strings key = Some (tier, True)" and "get key = Some pod"
  shows "pod = tier"
proof -
  have "(key, tier, True) \<in> set strings" using assms(3) by (rule map_of_SomeD)
  moreover obtain us where "rmap (pin_check label skipped get) strings = Inr us"
    using assms(1) by (auto simp: pin_walk_def res_simps)
  ultimately have "\<exists>w. pin_check label skipped get (key, tier, True) = Inr w"
    by (auto simp: rmap_eq_Inr list_all2_conv_all_nth in_set_conv_nth)
  then show ?thesis using assms(2,4) by (simp add: pin_check_def res_simps)
qed

interpretation pod_pins: pinning "pin_walk id (\<lambda>_. False) (store_strings inst source)"
  "map_of (store_strings inst source)" "defaulted (store_strings inst source)" "\<lambda>_. False"
  for inst source
  by unfold_locales (auto simp: defaulted_def dest: pin_walk_refuses)

interpretation render_pins: pinning
  "pin_walk (suffixed suffix) (\<lambda>key. key = ''path'') (store_strings inst source)"
  "map_of (store_strings inst source)" "defaulted (store_strings inst source)" "\<lambda>key. key = ''path''"
  for suffix inst source
  by unfold_locales (auto simp: defaulted_def dest: pin_walk_refuses)

lemma conforms_pinned:
  "conforms label key spell (Some (t, True)) text v = Inr u \<Longrightarrow> v = t"
  by (simp add: conforms_def res_simps)

lemma knob_of_supplied: "supplied inst source key pick = Some (t, p) \<Longrightarrow> knob inst source pick = Some t"
  using fst_supplied [of inst source key pick] by simp


lemma mode_pinned:
  "mode_of get inst src = Inr m \<Longrightarrow> supplied inst src ''mode'' k_mode = Some (t, True) \<Longrightarrow> m = t"
  by (auto simp: mode_of_def res_simps knob_of_supplied dest: conforms_pinned split: option.splits)

lemma watch_seconds_pinned:
  "watch_seconds_of label get inst src = Inr n \<Longrightarrow>
     supplied inst src ''watch-seconds'' k_watch_seconds = Some (t, True) \<Longrightarrow> n = t"
  by (auto simp: watch_seconds_of_def res_simps knob_of_supplied dest: conforms_pinned
      split: option.splits)

lemma file_mode_pinned:
  "file_mode_of label get inst src = Inr m \<Longrightarrow>
     supplied inst src ''file-mode'' k_file_mode = Some (t, True) \<Longrightarrow> m = Some t"
  by (auto simp: file_mode_of_def res_simps knob_of_supplied dest: conforms_pinned
      split: option.splits)

lemma volume_memory_pinned:
  "volume_memory_of get inst src = Inr b \<Longrightarrow>
     supplied inst src ''volume-medium'' k_volume_memory = Some (t, True) \<Longrightarrow> b = t"
  by (auto simp: volume_memory_of_def res_simps knob_of_supplied dest: conforms_pinned
      split: option.splits)

lemma native_sidecar_pinned:
  "native_sidecar_of get inst src = Inr b \<Longrightarrow>
     supplied inst src ''native-sidecar'' k_native_sidecar = Some (t, True) \<Longrightarrow> b = t"
  by (auto simp: native_sidecar_of_def res_simps knob_of_supplied dest: conforms_pinned
      split: option.splits)

lemma source_pinned:
  "source_of get inst = Inr (Some s) \<Longrightarrow> supplied_source inst = Some (t, True) \<Longrightarrow> s = t"
  by (auto simp: source_of_def res_simps or_else_def split: option.splits)

lemma run_as_user_pinned:
  assumes "identities_of get pod inst src = Inr (user, grp)"
    and "supplied inst src ''agent-run-as-user'' k_run_as_user = Some (t, True)"
    and "inherited_uid get pod = Inr None"
  shows "user = Some t"
  using assms
  by (auto simp: identities_of_def res_simps identity_pin_def knob_of_supplied or_else_def
      split: option.splits)

lemma run_as_group_pinned:
  assumes "identities_of get pod inst src = Inr (user, grp)"
    and "supplied inst src ''agent-run-as-group'' k_run_as_group = Some (t, True)"
  shows "grp = Some t"
  using assms
  by (auto simp: identities_of_def res_simps identity_pin_def knob_of_supplied or_else_def
      split: option.splits)

lemma supplied_string_of:
  "map_of string_picks key = Some pick \<Longrightarrow>
     map_of (store_strings inst src) key = supplied inst src key pick"
  by (simp add: map_of_store_strings)

lemma of_pod_with_request:
  assumes "of_pod_with pod inst = Inr (Some r)"
  obtains annotations extra_names also_names where
    "annotations_of pod = Some annotations"
    "suffix_names (map fst annotations) = Inr (extra_names, also_names)"
    "read_request (annotation annotations) pod inst extra_names also_names = Inr r"
  using assms by (auto simp: of_pod_with_def Let_def res_simps split: option.splits if_splits)

lemma of_pod_with_source:
  "read_request get pod inst e a = Inr r \<Longrightarrow> supplied_source inst = Some (t, True) \<Longrightarrow> rq_source r = t"
  by (rule source_pinned [OF read_request_stages(1)])

section \<open>Safety of an accepted request\<close>

lemma skip_verify_offered:
  "skip_verify_of label strings get inst ca = Inr True \<Longrightarrow> allow_tls_skip_verify inst \<and> ca = None"
  by (auto simp: skip_verify_of_def Let_def res_simps split: if_splits)

lemma flags_of_pass_through: "fst ` set (pass_through flags strings get) \<subseteq> snd ` set flags"
  by (induction flags) (auto simp: pass_through_def map_filter_simps split: option.splits)

abbreviation "skip_flag \<equiv> ''--tls-skip-verify''"

lemma no_skip_flag_passed:
  "skip_flag \<notin> fst ` set (pass_through POD_FLAGS strings get)"
  "skip_flag \<notin> fst ` set (pass_through RENDER_FLAGS strings get)"
  by (rule contra_subsetD [OF flags_of_pass_through], simp add: POD_FLAGS_def RENDER_FLAGS_def)+

lemma no_skip_flag_mounted:
  "ssh_arguments label mount strings get ssh = Inr args \<Longrightarrow> skip_flag \<notin> fst ` set args"
  "skip_flag \<notin> fst ` set (ca_arguments mount ca)"
  "skip_flag \<notin> fst ` set (skip_verify_arguments name False)"
  by (auto simp: ssh_arguments_def Let_def ca_arguments_def skip_verify_arguments_def
      split: option.splits if_splits)

lemma no_skip_flag_late:
  "skip_flag \<notin> fst ` set (file_mode_arguments m)"
  "skip_flag \<notin> fst ` set (tls_arguments mount tls)"
  "template_of label mount texts = Inr (t, args') \<Longrightarrow> skip_flag \<notin> fst ` set args'"
  by (auto simp: file_mode_arguments_def tls_arguments_def template_of_def split: option.splits prod.splits)

lemmas no_skip_flag = no_skip_flag_passed no_skip_flag_mounted no_skip_flag_late

lemma skip_not_offered:
  "\<not> allow_tls_skip_verify inst \<Longrightarrow> skip_verify_of label strings get inst ca = Inr skip \<Longrightarrow> \<not> skip"
  using skip_verify_offered [of label strings get inst ca] by auto

lemma pod_arguments_no_skip:
  assumes "\<not> allow_tls_skip_verify inst" and "pod_arguments strings get inst = Inr (a, b, skip, args)"
  shows "skip_flag \<notin> fst ` set args \<and> \<not> skip"
proof -
  obtain ssh ssh_args ca s where parts:
    "ssh_arguments id SSH_MOUNT strings get ssh = Inr ssh_args"
    "skip_verify_of id strings get inst ca = Inr s" "skip = s"
    "args = pass_through POD_FLAGS strings get @ ssh_args @ ca_arguments CA_MOUNT ca
           @ skip_verify_arguments (defaulted strings get ''tls-server-name'') s"
    using assms(2) by (auto simp: pod_arguments_def Let_def res_simps)
  have "\<not> s" by (rule skip_not_offered [OF assms(1) parts(2)])
  then show ?thesis
    using parts no_skip_flag(1,3,4,5) by (simp add: image_Un)
qed

lemma late_arguments_no_skip:
  assumes "late_arguments strings get m = Inr (a, b, c, args)"
  shows "skip_flag \<notin> fst ` set args"
proof -
  obtain targs where
    "template_of id TEMPLATE_MOUNT (as_level strings get ''template'' ''template-configmap'')
       = Inr (a, targs)"
    and args: "args = file_mode_arguments m @ targs
       @ (case b of None \<Rightarrow> [] | Some r \<Rightarrow> [(''--schema'', SCHEMA_MOUNT @ ''/'' @ object_key r)])
       @ tls_arguments TLS_MOUNT c"
    using assms by (auto simp: late_arguments_def Let_def res_simps)
  then have "skip_flag \<notin> fst ` set targs" using no_skip_flag(8) by blast
  then show ?thesis
    using no_skip_flag(6,7) unfolding args by (cases b) (simp_all add: image_Un)
qed

lemma extra_arguments_no_skip:
  assumes "\<not> allow_tls_skip_verify inst"
    and "extra_arguments suffix get inst source strings = Inr all"
  shows "skip_flag \<notin> fst ` set (snd (snd (snd (snd all))))"
proof -
  obtain ssh ssh_args ca s m t targs tls where parts:
    "ssh_arguments (suffixed suffix) (SSH_MOUNT @ ''-'' @ suffix) strings get ssh = Inr ssh_args"
    "skip_verify_of (suffixed suffix) strings get inst ca = Inr s"
    "template_of (suffixed suffix) (TEMPLATE_MOUNT @ ''-'' @ suffix)
       (as_level strings get ''template'' ''template-configmap'') = Inr (t, targs)"
    "snd (snd (snd (snd all))) = pass_through RENDER_FLAGS strings get @ ssh_args
       @ ca_arguments (CA_MOUNT @ ''-'' @ suffix) ca
       @ skip_verify_arguments (defaulted strings get ''tls-server-name'') s
       @ file_mode_arguments m @ targs @ tls_arguments (TLS_MOUNT @ ''-'' @ suffix) tls"
    using assms(2) by (auto simp: extra_arguments_def Let_def res_simps)
  have "\<not> s" by (rule skip_not_offered [OF assms(1) parts(2)])
  then show ?thesis
    using parts no_skip_flag(2-8) by (simp add: image_Un)
qed


lemma extra_render_facts:
  assumes "extra_render suffix get default_path inst = Inr x"
  shows "x_source x \<in> set SOURCES \<and> x_name x = suffix \<and>
    (\<forall>d. default_path = Some d \<longrightarrow> parent_text (x_path x) = parent_text d) \<and>
    (\<not> allow_tls_skip_verify inst \<longrightarrow> skip_flag \<notin> fst ` set (x_arguments x)) \<and>
    pin_walk (suffixed suffix) (\<lambda>key. key = ''path'') (store_strings inst (Some (x_source x))) get
      = Inr () \<and>
    defaulted (store_strings inst (Some (x_source x))) get ''key'' = Some (x_key x) \<and>
    x_metrics_port x \<noteq> Some 0"
  using assms
  unfolding extra_render_def Let_def split_beta rbind_eq_Inr sum.inject ensure_eq_Inr ok_or_eq_Inr
  by (elim exE conjE, hypsubst)
    (auto simp: res_simps extra_port_def dest: extra_arguments_no_skip
      split: option.splits if_splits)

lemma extras_member:
  assumes "extras_of get inst path names = Inr extras" and "x \<in> set extras"
  obtains suffix where "suffix \<in> set names"
    "extra_render suffix (\<lambda>name. get (suffixed suffix name)) path inst = Inr x"
  using assms by (auto simp: extras_of_def dest!: rmap_Inr_in_set)

lemma identities_nonroot:
  assumes "identities_of get pod inst src = Inr (user, grp)" and "installation_ok inst"
  shows "user \<noteq> Some 0 \<and> grp \<noteq> Some 0"
proof -
  have tiers: "knob inst src k_run_as_user \<noteq> Some 0 \<and> knob inst src k_run_as_group \<noteq> Some 0"
    using assms(2)
    by (auto simp: knob_eq_Some supplied_eq_Some installation_ok_def tier_ok_def list_all_iff
        store_tier_def dest!: map_of_SomeD split: option.splits)
  obtain inh u g where parts: "inherited_uid get pod = Inr inh" "identity get ''agent-run-as-user'' = Inr u"
    "identity get ''agent-run-as-group'' = Inr g"
    "user = or_else (or_else inh u) (knob inst src k_run_as_user)"
    "grp = or_else g (knob inst src k_run_as_group)"
    using assms(1) by (auto simp: identities_of_def res_simps)
  have "inh \<noteq> Some 0" using parts(1) by (auto simp: inherited_uid_def Let_def res_simps split: if_splits)
  moreover have "u \<noteq> Some 0" "g \<noteq> Some 0"
    using parts(2,3) by (auto simp: identity_def res_simps dest: nonroot_id_bounds split: option.splits)
  ultimately show ?thesis using tiers parts(4,5) by (auto simp: or_else_def split: option.splits)
qed

lemma history_bounds:
  "history_of get memory = Inr (Some n) \<Longrightarrow> 1 \<le> n \<and> n \<le> MOST_HISTORY \<and> memory"
  by (auto simp: history_of_def res_simps split: option.splits)

lemma revoke_grace_bounds:
  "lease_of get pod = Inr (meta, dynamic, revoke, Some n) \<Longrightarrow>
     1 \<le> n \<and> n \<le> grace_period pod \<and> dynamic"
  by (auto simp: lease_of_def revoke_grace_of_def res_simps split: option.splits)

lemma env_modes:
  "env_of get m = Inr (inject, restart) \<Longrightarrow>
     (inject \<noteq> None \<longrightarrow> m \<noteq> Sidecar) \<and> (restart \<longrightarrow> inject \<noteq> None \<and> m = Both)"
  by (auto simp: env_of_def Let_def res_simps)

lemma secret_env_endpoint:
  assumes "secret_env_of label strings get es = Inr env"
  shows "(''DYNAMIC_CONFIG_AGENT_ENDPOINT'' \<in> fst ` set env) \<longleftrightarrow> es \<noteq> None"
  using assms
  by (auto simp: secret_env_of_def secret_ref_def res_simps map_filter_simps
      split: option.splits prod.splits)

lemma one_address_iff:
  "one_address label e es = Inr u \<Longrightarrow> (e = None) \<noteq> (es = None)"
  by (auto simp: one_address_def split: if_splits)

lemma source_known:
  assumes "source_of get inst = Inr (Some s)" and "installation_ok inst"
  shows "s \<in> set SOURCES"
  using assms
  by (auto simp: source_of_def res_simps or_else_def supplied_source_def installation_ok_def
      split: option.splits)

lemma file_mode_canonical:
  assumes "file_mode_of label get inst src = Inr (Some m)" and "installation_ok inst"
  shows "canonical_mode m"
  using assms
  by (auto simp: file_mode_of_def res_simps knob_eq_Some supplied_eq_Some installation_ok_def
      tier_ok_def list_all_iff store_tier_def octal_mode_canonical
      dest!: map_of_SomeD split: option.splits)

lemma also_facts:
  assumes "also_of get (Some p) suffix = Inr f"
  shows "starts_with ''/'' (also_path f)" and "also_name f = suffix"
    and "\<exists>d e. path_parent (also_path f) = Some d \<and> path_parent p = Some e \<and> path_eq d e \<or>
           path_parent (also_path f) = None \<and> path_parent p = None"
  using assms by (auto simp: also_of_def res_simps split: option.splits)


end
