(* ===== verification/Rules.thy ===== *)
theory Rules
  imports Annotations
begin

text \<open>
  The rules between the fields of a request (\<open>annotations.rs\<close>), for the pod's own agent and for each named
  render: what the stages of \<open>read_request\<close> and \<open>extra_render\<close> leave of them in their results.
\<close>

section \<open>The stages of a named render\<close>

lemma extra_render_stages:
  assumes "extra_render suffix get default_path inst = Inr x"
  defines "strings \<equiv> store_strings inst (Some (x_source x))" and "label \<equiv> suffixed suffix"
  shows "x_source x \<in> set SOURCES" (is ?A) and "x_name x = suffix" (is ?B)
    and "pin_walk label (\<lambda>key. key = ''path'') strings get = Inr ()" (is ?C)
    and "pair_walk label strings get = Inr ()" (is ?D)
    and "defaulted strings get ''key'' = Some (x_key x)" (is ?E)
    and "\<forall>d. default_path = Some d \<longrightarrow> parent_text (x_path x) = parent_text d" (is ?F)
    and "watch_seconds_of label get inst (Some (x_source x)) = Inr (x_watch_seconds x)" (is ?G)
    and "\<exists>es. as_level strings get ''endpoint'' ''endpoint-secret'' = (x_endpoint x, es) \<and>
           secret_env_of label strings get es = Inr (x_secret_env x) \<and>
           one_address label (x_endpoint x) es = Inr ()" (is ?H)
    and "extra_arguments suffix get inst (x_source x) strings
           = Inr (x_ca x, x_ssh x, x_tls x, x_template x, x_arguments x)" (is ?I)
    and "extra_port label get = Inr (x_metrics_port x)" (is ?J)
proof -
  have "?A \<and> ?B \<and> ?C \<and> ?D \<and> ?E \<and> ?F \<and> ?G \<and> ?H \<and> ?I \<and> ?J"
    using assms(1)
    unfolding extra_render_def Let_def split_beta rbind_eq_Inr sum.inject ensure_eq_Inr ok_or_eq_Inr
      strings_def label_def
    by (elim exE conjE) (hypsubst, auto simp: prod_eq_iff res_simps split: option.splits)
  then show ?A ?B ?C ?D ?E ?F ?G ?H ?I ?J by blast+
qed

section \<open>Arguments by their flags\<close>

lemma map_of_pass_through:
  assumes "distinct (map snd flags)" and "(name, flag) \<in> set flags"
  shows "map_of (pass_through flags strings get) flag = defaulted strings get name"
  using assms
proof (induction flags)
  case (Cons f flags)
  obtain n g where f: "f = (n, g)" by (cases f)
  show ?case
  proof (cases "(name, flag) = f")
    case True
    then have "flag \<notin> fst ` set (pass_through flags strings get)"
      using Cons.prems(1) flags_of_pass_through [of flags strings get] by (auto simp: f)
    then have "map_of (pass_through flags strings get) flag = None" by (simp add: map_of_eq_None_iff)
    then show ?thesis using True f by (auto simp: pass_through_def map_filter_simps split: option.splits)
  next
    case False
    then have "(name, flag) \<in> set flags" "g \<noteq> flag" using Cons.prems f by (auto simp: image_iff)
    then show ?thesis
      using Cons.IH Cons.prems(1) f by (auto simp: pass_through_def map_filter_simps split: option.splits)
  qed
qed simp

lemma pass_through_other: "flag \<notin> snd ` set flags \<Longrightarrow> flag \<notin> fst ` set (pass_through flags strings get)"
  using flags_of_pass_through by blast

lemma flags_distinct: "distinct (map snd POD_FLAGS)" "distinct (map snd RENDER_FLAGS)"
  by (simp_all add: POD_FLAGS_def RENDER_FLAGS_def)

lemma render_flags_are_pod_flags: "(name, flag) \<in> set RENDER_FLAGS \<Longrightarrow> (name, flag) \<in> set POD_FLAGS"
  by (simp add: POD_FLAGS_def)

lemma auth_flag: "(''auth'', ''--auth'') \<in> set POD_FLAGS" "(''auth'', ''--auth'') \<in> set RENDER_FLAGS"
  by (simp_all add: POD_FLAGS_def RENDER_FLAGS_def)

lemma not_passed:
  "''--template'' \<notin> snd ` set POD_FLAGS" "''--template-inline'' \<notin> snd ` set POD_FLAGS"
  "''--template'' \<notin> snd ` set RENDER_FLAGS" "''--template-inline'' \<notin> snd ` set RENDER_FLAGS"
  "skip_flag \<notin> snd ` set POD_FLAGS" "skip_flag \<notin> snd ` set RENDER_FLAGS"
  by (simp_all add: POD_FLAGS_def RENDER_FLAGS_def)

lemma ssh_arguments_auth:
  assumes "ssh_arguments label mount strings get (Some key) = Inr ssh_args" and "distinct (map snd flags)"
    and "(''auth'', ''--auth'') \<in> set flags"
  shows "map_of (pass_through flags strings get @ ssh_args @ rest) ''--auth'' = Some ''ssh-key''"
  using assms(1) map_of_pass_through [OF assms(2,3), of strings get]
  by (auto simp: ssh_arguments_def Let_def map_add_def split: option.splits if_splits)

lemma ssh_arguments_flags:
  "ssh_arguments label mount strings get ssh = Inr ssh_args \<Longrightarrow> fst ` set ssh_args \<subseteq> {''--auth'', ''--ssh-key''}"
  by (auto simp: ssh_arguments_def Let_def split: option.splits if_splits)

lemma template_of_flags:
  "template_of label mount texts = Inr (t, targs) \<Longrightarrow>
     (t \<noteq> None \<longleftrightarrow> ''--template'' \<in> fst ` set targs) \<and>
     \<not> (''--template'' \<in> fst ` set targs \<and> ''--template-inline'' \<in> fst ` set targs)"
  by (auto simp: template_of_def split: prod.splits option.splits)

lemma other_arguments_flags:
  "fst ` set (ca_arguments mount ca) \<subseteq> {''--ca''}"
  "fst ` set (skip_verify_arguments name skip) \<subseteq> {''--tls-server-name'', skip_flag}"
  "skip_flag \<in> fst ` set (skip_verify_arguments name skip) \<longleftrightarrow> skip"
  "fst ` set (file_mode_arguments m) \<subseteq> {''--file-mode''}"
  "fst ` set (tls_arguments mount tls) \<subseteq> {''--tls-cert'', ''--tls-key''}"
  by (auto simp: ca_arguments_def skip_verify_arguments_def file_mode_arguments_def tls_arguments_def
      split: option.splits)

section \<open>The rules every agent's line keeps\<close>

text \<open>
  One address; verification off only where it is offered and without a CA; an SSH key with the method it is
  for; one template.
\<close>

definition agent_rules :: "Installation \<Rightarrow> string option \<Rightarrow> (string \<times> SecretRef) list \<Rightarrow> ObjectRef option
    \<Rightarrow> ObjectRef option \<Rightarrow> ObjectRef option \<Rightarrow> (string \<times> string) list \<Rightarrow> bool" where
  "agent_rules inst endpoint env ca ssh tmpl args \<longleftrightarrow>
     (endpoint = None \<longleftrightarrow> ''DYNAMIC_CONFIG_AGENT_ENDPOINT'' \<in> fst ` set env) \<and>
     (''--tls-skip-verify'' \<in> fst ` set args \<longrightarrow> ca = None \<and> allow_tls_skip_verify inst) \<and>
     (ssh \<noteq> None \<longrightarrow> map_of args ''--auth'' = Some ''ssh-key'') \<and>
     (tmpl \<noteq> None \<longleftrightarrow> ''--template'' \<in> fst ` set args) \<and>
     \<not> (''--template'' \<in> fst ` set args \<and> ''--template-inline'' \<in> fst ` set args)"

lemma outside: "A \<inter> S = {} \<Longrightarrow> f \<in> S \<Longrightarrow> f \<notin> A"
  by blast

lemma agent_rulesI:
  assumes "secret_env_of label strings get es = Inr env" "one_address label endpoint es = Inr u"
    and "ssh_arguments label m1 strings get ssh = Inr ssh_args"
    and "skip_verify_of label strings get inst ca = Inr skip"
    and "template_of label m2 texts = Inr (tmpl, targs)"
    and "distinct (map snd flags)" "(''auth'', ''--auth'') \<in> set flags"
    and "{''--template'', ''--template-inline'', skip_flag} \<inter> snd ` set flags = {}"
    and "fst ` set a \<inter> {''--template'', ''--template-inline'', skip_flag} = {}"
    and "fst ` set b \<inter> {''--template'', ''--template-inline'', skip_flag} = {}"
  shows "agent_rules inst endpoint env ca ssh tmpl
    (pass_through flags strings get @ ssh_args @ ca_arguments m3 ca @ skip_verify_arguments name skip
       @ a @ targs @ b)" (is "agent_rules _ _ _ _ _ _ ?args")
proof -
  have clean: "f \<notin> fst ` set (pass_through flags strings get @ ssh_args @ ca_arguments m3 ca)"
    if "f \<in> {''--template'', ''--template-inline'', skip_flag}" for f
    using that pass_through_other [of f flags strings get] assms(8) ssh_arguments_flags [OF assms(3)]
      other_arguments_flags(1) [of m3 ca] by (auto simp: image_Un)
  have inner: "f \<in> fst ` set ?args \<longleftrightarrow> f \<in> fst ` set targs"
    if f: "f \<in> {''--template'', ''--template-inline''}" for f
  proof -
    have "f \<notin> fst ` set (skip_verify_arguments name skip)"
      by (rule contra_subsetD [OF other_arguments_flags(2)]) (use f in auto)
    moreover have g: "f \<in> {''--template'', ''--template-inline'', skip_flag}" using f by blast
    note outside [OF assms(9) g] outside [OF assms(10) g]
    ultimately show ?thesis using clean [OF g] by (simp add: image_Un)
  qed
  have "skip_flag \<notin> fst ` set targs" using assms(5) no_skip_flag(8) by blast
  then have skipped: "skip_flag \<in> fst ` set ?args \<longleftrightarrow> skip"
    using clean [of skip_flag] assms(9,10) other_arguments_flags(3) [of name skip] by (auto simp: image_Un)
  have "endpoint = None \<longleftrightarrow> ''DYNAMIC_CONFIG_AGENT_ENDPOINT'' \<in> fst ` set env"
    using secret_env_endpoint [OF assms(1)] one_address_iff [OF assms(2)] by auto
  moreover have "skip \<longrightarrow> ca = None \<and> allow_tls_skip_verify inst"
    using assms(4) skip_verify_offered by (cases skip) auto
  moreover have "ssh \<noteq> None \<longrightarrow> map_of ?args ''--auth'' = Some ''ssh-key''"
  proof
    assume "ssh \<noteq> None"
    then obtain key where "ssh = Some key" by blast
    then show "map_of ?args ''--auth'' = Some ''ssh-key''"
      using assms(3) by (intro ssh_arguments_auth [OF _ assms(6,7)]) simp
  qed
  moreover note template_of_flags [OF assms(5)]
  ultimately show ?thesis unfolding agent_rules_def skipped using inner by simp
qed

lemma extra_arguments_parts:
  "extra_arguments suffix get inst source strings = Inr (ca, ssh, tls, tmpl, args) \<Longrightarrow>
     \<exists>ssh_args skip m targs.
       ssh_arguments (suffixed suffix) (SSH_MOUNT @ ''-'' @ suffix) strings get ssh = Inr ssh_args \<and>
       skip_verify_of (suffixed suffix) strings get inst ca = Inr skip \<and>
       file_mode_of (suffixed suffix) get inst (Some source) = Inr m \<and>
       template_of (suffixed suffix) (TEMPLATE_MOUNT @ ''-'' @ suffix)
         (as_level strings get ''template'' ''template-configmap'') = Inr (tmpl, targs) \<and>
       ca = map_option (object_of ''ca.crt'') (defaulted strings get ''ca-configmap'') \<and>
       ssh = map_option (object_of ''ssh-privatekey'') (defaulted strings get ''ssh-secret'') \<and>
       tls = defaulted strings get ''tls-secret'' \<and>
       args = pass_through RENDER_FLAGS strings get @ ssh_args @ ca_arguments (CA_MOUNT @ ''-'' @ suffix) ca
         @ skip_verify_arguments (defaulted strings get ''tls-server-name'') skip
         @ file_mode_arguments m @ targs @ tls_arguments (TLS_MOUNT @ ''-'' @ suffix) tls"
  by (auto simp: extra_arguments_def Let_def res_simps)

lemma extra_rules:
  assumes "extra_render suffix get default_path inst = Inr x"
  shows "agent_rules inst (x_endpoint x) (x_secret_env x) (x_ca x) (x_ssh x) (x_template x) (x_arguments x)"
proof -
  let ?strings = "store_strings inst (Some (x_source x))"
  obtain es where address: "secret_env_of (suffixed suffix) ?strings get es = Inr (x_secret_env x)"
    "one_address (suffixed suffix) (x_endpoint x) es = Inr ()"
    using extra_render_stages(8) [OF assms] by blast
  obtain ssh_args skip m targs where parts:
    "ssh_arguments (suffixed suffix) (SSH_MOUNT @ ''-'' @ suffix) ?strings get (x_ssh x) = Inr ssh_args"
    "skip_verify_of (suffixed suffix) ?strings get inst (x_ca x) = Inr skip"
    "template_of (suffixed suffix) (TEMPLATE_MOUNT @ ''-'' @ suffix)
       (as_level ?strings get ''template'' ''template-configmap'') = Inr (x_template x, targs)"
    "x_arguments x = pass_through RENDER_FLAGS ?strings get @ ssh_args
       @ ca_arguments (CA_MOUNT @ ''-'' @ suffix) (x_ca x)
       @ skip_verify_arguments (defaulted ?strings get ''tls-server-name'') skip
       @ file_mode_arguments m @ targs @ tls_arguments (TLS_MOUNT @ ''-'' @ suffix) (x_tls x)"
    using extra_arguments_parts [OF extra_render_stages(9) [OF assms]] by blast
  show ?thesis
    unfolding parts(4)
    by (rule agent_rulesI [OF address parts(1-3) flags_distinct(2) auth_flag(2)])
      (use not_passed other_arguments_flags(4) [of m] other_arguments_flags(5) [of "TLS_MOUNT @ ''-'' @ suffix" "x_tls x"]
        in auto)
qed

lemma pod_rules:
  assumes "secret_env_of id strings get es = Inr env" and "one_address id endpoint es = Inr u"
    and "pod_arguments strings get inst = Inr (ssh, ca, skip, early)"
    and "late_arguments strings get m = Inr (tmpl, schema, tls, late)"
  shows "agent_rules inst endpoint env ca ssh tmpl (early @ late)"
proof -
  obtain ssh_args where early: "ssh_arguments id SSH_MOUNT strings get ssh = Inr ssh_args"
    "skip_verify_of id strings get inst ca = Inr skip"
    "early = pass_through POD_FLAGS strings get @ ssh_args @ ca_arguments CA_MOUNT ca
           @ skip_verify_arguments (defaulted strings get ''tls-server-name'') skip"
    using assms(3) by (auto simp: pod_arguments_def Let_def res_simps)
  define sargs where "sargs = (case schema of None \<Rightarrow> [] | Some r \<Rightarrow> [(''--schema'', SCHEMA_MOUNT @ ''/'' @ object_key r)])"
  obtain targs where late: "template_of id TEMPLATE_MOUNT (as_level strings get ''template'' ''template-configmap'')
       = Inr (tmpl, targs)"
    "late = file_mode_arguments m @ targs @ sargs @ tls_arguments TLS_MOUNT tls"
    using assms(4) by (auto simp: late_arguments_def Let_def res_simps sargs_def)
  have "fst ` set sargs \<subseteq> {''--schema''}" by (cases schema) (simp_all add: sargs_def)
  then have "fst ` set (sargs @ tls_arguments TLS_MOUNT tls) \<inter> {''--template'', ''--template-inline'', skip_flag} = {}"
    using other_arguments_flags(5) [of TLS_MOUNT tls] by (auto simp: image_Un)
  moreover have "fst ` set (file_mode_arguments m) \<inter> {''--template'', ''--template-inline'', skip_flag} = {}"
    using other_arguments_flags(4) [of m] by auto
  moreover have "{''--template'', ''--template-inline'', skip_flag} \<inter> snd ` set POD_FLAGS = {}"
    using not_passed by auto
  ultimately show ?thesis
    unfolding early(3) late(2) append_assoc
    by (intro agent_rulesI [OF assms(1,2) early(1,2) late(1) flags_distinct(1) auth_flag(1)])
qed

section \<open>Rules of the pod alone\<close>

lemma resources_fit: "resources_of get inst src = Inr res \<Longrightarrow> request_fits (ephemeral_request res) (ephemeral_limit res)"
  by (auto simp: resources_of_def Let_def res_simps)

lemma same_user_alone:
  assumes "identities_of get pod inst src = Inr (user, grp)"
    and "bool_annotation id get ''agent-run-as-same-user'' False = Inr True"
  shows "get ''agent-run-as-user'' = None \<and> user \<noteq> None \<and> user = application_uid pod"
proof -
  obtain inherited u where "inherited_uid get pod = Inr inherited"
    "user = or_else (or_else inherited u) (knob inst src k_run_as_user)"
    using assms(1) by (auto simp: identities_of_def res_simps)
  then show ?thesis using assms(2) by (auto simp: inherited_uid_def Let_def res_simps or_else_def)
qed

lemma agent_env_without_aws:
  assumes "agent_env_of get (Some aws) = Inr env"
  shows "list_all (\<lambda>(name, _). name \<notin> set AWS_NAMES) env"
proof -
  obtain e where e: "(case find (\<lambda>(name, _). name \<in> set AWS_NAMES) e of
      Some (name, _) \<Rightarrow> Inl (Contradicts name ''aws-secret'') | None \<Rightarrow> Inr e) = Inr env"
    using assms by (simp add: agent_env_of_def rbind_eq_Inr) blast
  then show ?thesis
    by (cases "find (\<lambda>(name, _). name \<in> set AWS_NAMES) e") (auto simp: list_all_iff find_None_iff)
qed

definition container_names :: "json \<Rightarrow> string list" where
  "container_names pod =
     List.map_filter (\<lambda>c. as_str (jfield ''name'' c)) (unwrap_or (containers_of pod ''containers'') [])"

lemma inject_containers_present:
  assumes "inject_containers_of get pod = Inr (Some names)"
  shows "names \<noteq> [] \<and> set names \<subseteq> set (container_names pod)"
  using assms
  by (auto simp: inject_containers_of_def container_names_def Let_def find_None_iff split: option.splits if_splits)

definition wrappable_container :: "json \<Rightarrow> string \<Rightarrow> bool \<Rightarrow> bool" where
  "wrappable_container pod name restart \<longleftrightarrow>
     list_ex (\<lambda>c. as_str (jfield ''name'' c) = Some name \<and>
         (case as_array (jfield ''command'' c) of Some (_ # _) \<Rightarrow> True | _ \<Rightarrow> False) \<and>
         (restart \<longrightarrow> jget ''livenessProbe'' c = None))
       (unwrap_or (containers_of pod ''containers'') [])"

lemma wrappable_container:
  assumes "wrappable pod (Some name) restart named = Inr u"
  shows "pred_option (\<lambda>names. name \<in> set names) named \<and> wrappable_container pod name restart"
proof -
  obtain c where c: "find (\<lambda>c. as_str (jfield ''name'' c) = Some name)
      (unwrap_or (containers_of pod ''containers'') []) = Some c"
    and command: "unwrap_or (map_option (\<lambda>xs. xs \<noteq> []) (as_array (jfield ''command'' c))) False"
    and probe: "restart \<longrightarrow> jget ''livenessProbe'' c = None"
    using assms by (auto simp: wrappable_def res_simps)
  have "c \<in> set (unwrap_or (containers_of pod ''containers'') [])" "as_str (jfield ''name'' c) = Some name"
    using c by (auto simp: find_Some_iff)
  moreover have "case as_array (jfield ''command'' c) of Some (_ # _) \<Rightarrow> True | _ \<Rightarrow> False"
    using command by (cases "as_array (jfield ''command'' c)") (auto split: list.splits)
  ultimately have "wrappable_container pod name restart"
    using probe by (auto simp: wrappable_container_def list_ex_iff)
  moreover have "pred_option (\<lambda>names. name \<in> set names) named"
    using assms by (cases named) (auto simp: wrappable_def res_simps)
  ultimately show ?thesis by blast
qed

lemma offered_image: "agent_image_of get inst = Inr (Some img) \<Longrightarrow> agent_image_allowed inst img"
  by (auto simp: agent_image_of_def res_simps split: option.splits)

lemma offered_events: "events_of get inst = Inr True \<Longrightarrow> allow_events inst"
  by (auto simp: events_of_def res_simps)

definition same_directory :: "string \<Rightarrow> string \<Rightarrow> bool" where
  "same_directory p q \<longleftrightarrow>
     (case (path_parent p, path_parent q) of
        (Some d, Some e) \<Rightarrow> path_eq d e
      | (None, None) \<Rightarrow> True
      | _ \<Rightarrow> False)"

lemma also_in_directory:
  "also_of get (Some p) suffix = Inr f \<Longrightarrow> starts_with ''/'' (also_path f) \<and> same_directory (also_path f) p"
  by (auto simp: also_of_def res_simps same_directory_def)

end
