(* ===== verification/Pins.thy ===== *)
theory Pins
  imports Rules
begin

text \<open>
  What a pin of the installation leaves of a pod's choice (\<open>of_pod_with\<close> and \<open>extra_render\<close>,
  \<open>annotations.rs\<close>): a string knob pinned for a store is what every agent of that store is given, in whichever
  form the agent takes it.
\<close>

definition pinned_string :: "Installation \<Rightarrow> string \<Rightarrow> string \<Rightarrow> string option" where
  "pinned_string inst source key =
     (case map_of (store_strings inst (Some source)) key of Some (t, True) \<Rightarrow> Some t | _ \<Rightarrow> None)"

definition CREDENTIALS :: "(string \<times> string) list" where
  "CREDENTIALS = [
     (''token-secret'', ''DYNAMIC_CONFIG_AGENT_TOKEN''),
     (''password-secret'', ''DYNAMIC_CONFIG_AGENT_PASSWORD''),
     (''endpoint-secret'', ''DYNAMIC_CONFIG_AGENT_ENDPOINT'')]"

text \<open>
  One agent keeps the pins: its address, its credentials' variables, the objects mounted for it and the flags of
  its line are the pinned ones.
\<close>

definition credential_kept :: "(string \<Rightarrow> string option) \<Rightarrow> (string \<times> SecretRef) list \<Rightarrow> string \<times> string \<Rightarrow> bool" where
  "credential_kept pins env entry =
     (case entry of (key, variable) \<Rightarrow> pred_option (\<lambda>t.
        case split_once (CHR ''/'') t of
          None \<Rightarrow> False
        | Some (secret, k) \<Rightarrow> map_of env variable = Some \<lparr> secret_name = secret, secret_key = k \<rparr>) (pins key))"

definition agent_keeps :: "(string \<Rightarrow> string option) \<Rightarrow> string option \<Rightarrow> (string \<times> SecretRef) list
    \<Rightarrow> ObjectRef option \<Rightarrow> ObjectRef option \<Rightarrow> string option \<Rightarrow> ObjectRef option \<Rightarrow> (string \<times> string) list \<Rightarrow> bool" where
  "agent_keeps pins endpoint env ca ssh tls tmpl args \<longleftrightarrow>
     pred_option (\<lambda>t. endpoint = Some t) (pins ''endpoint'') \<and>
     list_all (credential_kept pins env) CREDENTIALS \<and>
     pred_option (\<lambda>t. ca = Some (object_of ''ca.crt'' t)) (pins ''ca-configmap'') \<and>
     pred_option (\<lambda>t. ssh = Some (object_of ''ssh-privatekey'' t)) (pins ''ssh-secret'') \<and>
     pred_option (\<lambda>t. tls = Some t) (pins ''tls-secret'') \<and>
     pred_option (\<lambda>t. tmpl = Some (object_of ''template'' t)) (pins ''template-configmap'') \<and>
     pred_option (\<lambda>t. map_of args ''--template-inline'' = Some t) (pins ''template'') \<and>
     list_all (\<lambda>(name, flag). pred_option (\<lambda>t. map_of args flag = Some t) (pins name)) RENDER_FLAGS"

section \<open>A pinned key's answer\<close>

lemma pinned_stringD:
  "pinned_string inst source key = Some t \<Longrightarrow> map_of (store_strings inst (Some source)) key = Some (t, True)"
  by (auto simp: pinned_string_def split: option.splits bool.splits)

lemma pinned_string_supplied:
  "map_of string_picks key = Some pick \<Longrightarrow>
     pinned_string inst source key = Some t \<longleftrightarrow> supplied inst (Some source) key pick = Some (t, True)"
  by (auto simp: pinned_string_def supplied_string_of split: option.splits bool.splits)

lemma as_level_pinned:
  assumes "pair_walk label strings get = Inr u" and "(a, b) \<in> set either_or"
    and "map_of strings a = Some (t, True)" and "defaulted strings get a = Some t"
  shows "fst (as_level strings get a b) = Some t" and "snd (as_level strings get b a) = Some t"
proof -
  obtain us where "rmap (pair_check label strings get) either_or = Inr us"
    using assms(1) by (auto simp: pair_walk_def res_simps)
  then have "\<exists>w. pair_check label strings get (a, b) = Inr w"
    using assms(2) by (auto simp: rmap_eq_Inr list_all2_conv_all_nth in_set_conv_nth)
  moreover have "list_ex (\<lambda>(key, _, pinned). key = a \<and> pinned) strings"
    using map_of_SomeD [OF assms(3)] by (auto simp: list_ex_iff)
  ultimately have "get a \<noteq> None \<or> get b = None" by (auto simp: pair_check_def res_simps)
  then show "fst (as_level strings get a b) = Some t" "snd (as_level strings get b a) = Some t"
    using assms(4) by (auto simp: as_level_def defaulted_def or_else_def)
qed

lemma credentials_kept:
  assumes "secret_env_of label strings get es = Inr env"
    and "\<And>key t. key \<noteq> ''path'' \<Longrightarrow> pins key = Some t \<Longrightarrow> defaulted strings get key = Some t"
    and "pins ''endpoint-secret'' = None \<or> pins ''endpoint-secret'' = es"
  shows "list_all (credential_kept pins env) CREDENTIALS"
proof -
  obtain token password endpoint where refs:
    "secret_ref label (defaulted strings get ''token-secret'') ''token-secret'' = Inr token"
    "secret_ref label (defaulted strings get ''password-secret'') ''password-secret'' = Inr password"
    "secret_ref label es ''endpoint-secret'' = Inr endpoint"
    and env: "env = List.map_filter id [map_option (Pair ''DYNAMIC_CONFIG_AGENT_TOKEN'') token,
       map_option (Pair ''DYNAMIC_CONFIG_AGENT_PASSWORD'') password,
       map_option (Pair ''DYNAMIC_CONFIG_AGENT_ENDPOINT'') endpoint]"
    using assms(1) by (auto simp: secret_env_of_def res_simps)
  have parts: "map_of env ''DYNAMIC_CONFIG_AGENT_TOKEN'' = token"
    "map_of env ''DYNAMIC_CONFIG_AGENT_PASSWORD'' = password"
    "map_of env ''DYNAMIC_CONFIG_AGENT_ENDPOINT'' = endpoint"
    unfolding env by (cases token; cases password; cases endpoint; simp add: map_filter_simps)+
  have kept: "credential_kept pins env (key, variable)"
    if "secret_ref label given name = Inr (map_of env variable)" "\<And>t. pins key = Some t \<Longrightarrow> given = Some t"
    for key given name variable
    using that by (cases "pins key") (auto simp: credential_kept_def secret_ref_def split: option.splits)
  have "credential_kept pins env (''token-secret'', ''DYNAMIC_CONFIG_AGENT_TOKEN'')"
    by (rule kept [OF refs(1) [folded parts(1)]]) (rule assms(2), simp)
  moreover have "credential_kept pins env (''password-secret'', ''DYNAMIC_CONFIG_AGENT_PASSWORD'')"
    by (rule kept [OF refs(2) [folded parts(2)]]) (rule assms(2), simp)
  moreover have "credential_kept pins env (''endpoint-secret'', ''DYNAMIC_CONFIG_AGENT_ENDPOINT'')"
    by (rule kept [OF refs(3) [folded parts(3)]]) (use assms(3) in auto)
  ultimately show ?thesis by (simp add: CREDENTIALS_def)
qed

section \<open>An agent of an accepted pod\<close>

lemma template_pinned:
  assumes "template_of label mount (inline, configmap) = Inr (tmpl, targs)"
  shows "configmap = Some t \<Longrightarrow> tmpl = Some (object_of ''template'' t)"
    and "inline = Some t \<Longrightarrow> targs = [(''--template-inline'', t)]"
  using assms by (auto simp: template_of_def split: option.splits)

lemma map_of_first: "map_of xs k = Some v \<Longrightarrow> map_of (xs @ ys) k = Some v"
  by simp

lemma map_of_skip: "k \<notin> fst ` set xs \<Longrightarrow> map_of (xs @ ys) k = map_of ys k"
  by (induction xs) auto

lemma agent_keepsI:
  assumes pins: "\<And>key t. key \<noteq> ''path'' \<Longrightarrow> pins key = Some t \<Longrightarrow>
      map_of strings key = Some (t, True) \<and> defaulted strings get key = Some t"
    and pairs: "pair_walk label strings get = Inr u"
    and address: "as_level strings get ''endpoint'' ''endpoint-secret'' = (endpoint, es)"
    and env: "secret_env_of label strings get es = Inr env"
    and objects: "ca = map_option (object_of ''ca.crt'') (defaulted strings get ''ca-configmap'')"
      "ssh = map_option (object_of ''ssh-privatekey'') (defaulted strings get ''ssh-secret'')"
      "tls = defaulted strings get ''tls-secret''"
    and tmpl: "template_of label mount (as_level strings get ''template'' ''template-configmap'') = Inr (tmpl, targs)"
    and flags: "distinct (map snd flags)" "set RENDER_FLAGS \<subseteq> set flags"
    and clear: "''--template-inline'' \<notin> snd ` set flags" "''--template-inline'' \<notin> fst ` set a"
  shows "agent_keeps pins endpoint env ca ssh tls tmpl (pass_through flags strings get @ a @ targs @ b)"
proof -
  have level: "fst (as_level strings get x y) = Some t" "snd (as_level strings get y x) = Some t"
    if "(x, y) \<in> set either_or" "pins x = Some t" for x y t
  proof -
    have "x \<noteq> ''path''" using that(1) by (auto simp: either_or_def)
    note pin = pins [OF this that(2)]
    show "fst (as_level strings get x y) = Some t" "snd (as_level strings get y x) = Some t"
      using as_level_pinned [OF pairs that(1)] pin by blast+
  qed
  have either: "(''endpoint'', ''endpoint-secret'') \<in> set either_or" "(''endpoint-secret'', ''endpoint'') \<in> set either_or"
    "(''template'', ''template-configmap'') \<in> set either_or" "(''template-configmap'', ''template'') \<in> set either_or"
    by (simp_all add: either_or_def)
  obtain inline configmap where texts: "as_level strings get ''template'' ''template-configmap'' = (inline, configmap)"
    by fastforce
  note template = template_pinned [OF tmpl [unfolded texts]]
  have "pred_option (\<lambda>t. endpoint = Some t) (pins ''endpoint'')"
    using level(1) [OF either(1)] address by (cases "pins ''endpoint''") auto
  moreover have "pins ''endpoint-secret'' = None \<or> pins ''endpoint-secret'' = es"
    using level(2) [OF either(2)] address by (cases "pins ''endpoint-secret''") auto
  then have "list_all (credential_kept pins env) CREDENTIALS"
    using pins by (intro credentials_kept [OF env]) blast+
  moreover have "pred_option (\<lambda>t. ca = Some (object_of ''ca.crt'' t)) (pins ''ca-configmap'')"
    "pred_option (\<lambda>t. ssh = Some (object_of ''ssh-privatekey'' t)) (pins ''ssh-secret'')"
    "pred_option (\<lambda>t. tls = Some t) (pins ''tls-secret'')"
    using pins [of "''ca-configmap''"] pins [of "''ssh-secret''"] pins [of "''tls-secret''"]
    by (simp_all add: objects option.pred_set)
  moreover have "pred_option (\<lambda>t. tmpl = Some (object_of ''template'' t)) (pins ''template-configmap'')"
    using level(2) [OF either(4)] texts template(1) by (cases "pins ''template-configmap''") auto
  moreover have "pred_option (\<lambda>t. map_of (pass_through flags strings get @ a @ targs @ b) ''--template-inline'' = Some t)
      (pins ''template'')"
  proof (cases "pins ''template''")
    case (Some t)
    then have "targs = [(''--template-inline'', t)]" using level(1) [OF either(3)] texts template(2) by auto
    then show ?thesis using Some
      by (simp only: option.pred_inject map_of_skip [OF pass_through_other [OF clear(1)]] map_of_skip [OF clear(2)]) simp
  qed simp
  moreover have "list_all (\<lambda>(name, flag). pred_option (\<lambda>t.
      map_of (pass_through flags strings get @ a @ targs @ b) flag = Some t) (pins name)) RENDER_FLAGS"
    unfolding list_all_iff
  proof (intro ballI, clarify)
    fix name flag assume entry: "(name, flag) \<in> set RENDER_FLAGS"
    then have "name \<noteq> ''path''" by (auto simp: RENDER_FLAGS_def)
    moreover note map_of_pass_through [OF flags(1) subsetD [OF flags(2) entry]]
    ultimately show "pred_option (\<lambda>t. map_of (pass_through flags strings get @ a @ targs @ b) flag = Some t) (pins name)"
      using pins [of name] by (cases "pins name") (auto intro: map_of_first)
  qed
  ultimately show ?thesis unfolding agent_keeps_def by blast
qed

lemma file_mode_flag:
  assumes "ssh_arguments label m1 strings get ssh = Inr ssh_args" and "''--file-mode'' \<notin> snd ` set flags"
  shows "map_of (pass_through flags strings get @ ssh_args @ ca_arguments m2 ca @ skip_verify_arguments name skip
    @ file_mode_arguments (Some t) @ rest) ''--file-mode'' = Some (''0'' @ t)"
proof -
  have "''--file-mode'' \<notin> fst ` set ssh_args" using ssh_arguments_flags [OF assms(1)] by auto
  moreover have "''--file-mode'' \<notin> fst ` set (ca_arguments m2 ca)"
    by (rule contra_subsetD [OF other_arguments_flags(1)]) simp
  moreover have "''--file-mode'' \<notin> fst ` set (skip_verify_arguments name skip)"
    by (rule contra_subsetD [OF other_arguments_flags(2)]) simp
  moreover have "''--file-mode'' \<notin> fst ` set (pass_through flags strings get)" by (rule pass_through_other [OF assms(2)])
  ultimately show ?thesis by (simp only: map_of_skip not_False_eq_True) (simp add: file_mode_arguments_def)
qed

lemma file_mode_not_passed: "''--file-mode'' \<notin> snd ` set POD_FLAGS" "''--file-mode'' \<notin> snd ` set RENDER_FLAGS"
  by (simp_all add: POD_FLAGS_def RENDER_FLAGS_def)

lemma inline_not_mounted:
  assumes "ssh_arguments label m1 strings get ssh = Inr ssh_args"
  shows "''--template-inline'' \<notin> fst ` set (ssh_args @ ca_arguments m2 ca @ skip_verify_arguments name skip
    @ file_mode_arguments m)"
proof -
  have "''--template-inline'' \<notin> fst ` set ssh_args" using ssh_arguments_flags [OF assms] by auto
  moreover have "''--template-inline'' \<notin> fst ` set (ca_arguments m2 ca)"
    by (rule contra_subsetD [OF other_arguments_flags(1)]) simp
  moreover have "''--template-inline'' \<notin> fst ` set (skip_verify_arguments name skip)"
    by (rule contra_subsetD [OF other_arguments_flags(2)]) simp
  moreover have "''--template-inline'' \<notin> fst ` set (file_mode_arguments m)"
    by (rule contra_subsetD [OF other_arguments_flags(4)]) simp
  ultimately show ?thesis by (simp add: image_Un)
qed

definition pinned_to :: "('v \<times> bool) option \<Rightarrow> ('v \<Rightarrow> bool) \<Rightarrow> bool" where
  "pinned_to tier holds = (case tier of Some (t, True) \<Rightarrow> holds t | _ \<Rightarrow> True)"

lemma pinned_toI: "(\<And>t. tier = Some (t, True) \<Longrightarrow> holds t) \<Longrightarrow> pinned_to tier holds"
  by (auto simp: pinned_to_def split: option.splits bool.splits)

lemma pinned_toD: "pinned_to tier holds \<Longrightarrow> tier = Some (t, True) \<Longrightarrow> holds t"
  by (simp add: pinned_to_def)

definition render_keeps :: "Installation \<Rightarrow> ExtraRender \<Rightarrow> bool" where
  "render_keeps inst x \<longleftrightarrow>
     (let src = Some (x_source x); pins = pinned_string inst (x_source x) in
      agent_keeps pins (x_endpoint x) (x_secret_env x) (x_ca x) (x_ssh x) (x_tls x) (x_template x) (x_arguments x) \<and>
      pred_option (\<lambda>t. x_key x = t) (pins ''key'') \<and>
      pinned_to (supplied inst src ''watch-seconds'' k_watch_seconds) (\<lambda>t. x_watch_seconds x = t) \<and>
      pinned_to (supplied inst src ''file-mode'' k_file_mode)
        (\<lambda>t. map_of (x_arguments x) ''--file-mode'' = Some (''0'' @ t)))"

lemma extra_keeps:
  assumes "extra_render suffix get default_path inst = Inr x"
  shows "render_keeps inst x"
proof -
  let ?src = "Some (x_source x)" and ?pins = "pinned_string inst (x_source x)"
  let ?strings = "store_strings inst ?src"
  note stages = extra_render_stages [OF assms]
  have pins: "map_of ?strings key = Some (t, True) \<and> defaulted ?strings get key = Some t"
    if "key \<noteq> ''path''" "?pins key = Some t" for key t
    using pinned_stringD [OF that(2)] render_pins.pinned_answer [OF stages(3) that(1)] by blast
  obtain es where address: "as_level ?strings get ''endpoint'' ''endpoint-secret'' = (x_endpoint x, es)"
    and env: "secret_env_of (suffixed suffix) ?strings get es = Inr (x_secret_env x)"
    using stages(8) by blast
  obtain ssh_args skip m targs where ssh:
    "ssh_arguments (suffixed suffix) (SSH_MOUNT @ ''-'' @ suffix) ?strings get (x_ssh x) = Inr ssh_args"
    and m: "file_mode_of (suffixed suffix) get inst ?src = Inr m"
    and tmpl: "template_of (suffixed suffix) (TEMPLATE_MOUNT @ ''-'' @ suffix)
       (as_level ?strings get ''template'' ''template-configmap'') = Inr (x_template x, targs)"
    and objects: "x_ca x = map_option (object_of ''ca.crt'') (defaulted ?strings get ''ca-configmap'')"
      "x_ssh x = map_option (object_of ''ssh-privatekey'') (defaulted ?strings get ''ssh-secret'')"
      "x_tls x = defaulted ?strings get ''tls-secret''"
    and args: "x_arguments x = pass_through RENDER_FLAGS ?strings get @ ssh_args
       @ ca_arguments (CA_MOUNT @ ''-'' @ suffix) (x_ca x)
       @ skip_verify_arguments (defaulted ?strings get ''tls-server-name'') skip
       @ file_mode_arguments m @ targs @ tls_arguments (TLS_MOUNT @ ''-'' @ suffix) (x_tls x)"
    using extra_arguments_parts [OF stages(9)] by blast
  have "agent_keeps ?pins (x_endpoint x) (x_secret_env x) (x_ca x) (x_ssh x) (x_tls x) (x_template x)
      (pass_through RENDER_FLAGS ?strings get @ (ssh_args @ ca_arguments (CA_MOUNT @ ''-'' @ suffix) (x_ca x)
       @ skip_verify_arguments (defaulted ?strings get ''tls-server-name'') skip @ file_mode_arguments m)
       @ targs @ tls_arguments (TLS_MOUNT @ ''-'' @ suffix) (x_tls x))"
    by (rule agent_keepsI [OF _ stages(4) address env objects tmpl flags_distinct(2) subset_refl not_passed(4)
          inline_not_mounted [OF ssh]]) (rule pins)
  then have "agent_keeps ?pins (x_endpoint x) (x_secret_env x) (x_ca x) (x_ssh x) (x_tls x) (x_template x)
      (x_arguments x)"
    unfolding args append_assoc .
  moreover have "pred_option (\<lambda>t. x_key x = t) (?pins ''key'')"
    using pins [of "''key''"] stages(5) by (simp add: option.pred_set)
  moreover have "pinned_to (supplied inst ?src ''watch-seconds'' k_watch_seconds) (\<lambda>t. x_watch_seconds x = t)"
    by (rule pinned_toI) (rule watch_seconds_pinned [OF stages(7)])
  moreover have "pinned_to (supplied inst ?src ''file-mode'' k_file_mode)
      (\<lambda>t. map_of (x_arguments x) ''--file-mode'' = Some (''0'' @ t))"
    by (rule pinned_toI, drule file_mode_pinned [OF m])
      (simp only: args file_mode_flag [OF ssh file_mode_not_passed(2)])
  ultimately show ?thesis unfolding render_keeps_def Let_def by blast
qed

section \<open>The request of an accepted pod\<close>

lemma quantity_answer: "quantity get key fallback = Inr q \<Longrightarrow> q = unwrap_or (get key) fallback"
  by (auto simp: quantity_def Let_def split: if_splits)

lemma quantity_pinned:
  assumes "quantity_pin get inst src (key, pick) = Inr u" and "supplied inst src key pick = Some (t, True)"
  shows "unwrap_or (get key) (unwrap_or (knob inst src pick) fallback) = t"
    and "or_else (get key) (knob inst src pick) \<noteq> None"
  using assms knob_of_supplied [OF assms(2)]
  by (cases "get key"; auto simp: quantity_pin_def res_simps or_else_def)+

lemma resources_pinned:
  assumes "resources_of get inst src = Inr res"
  shows "pinned_to (supplied inst src ''agent-cpu-request'' k_cpu_request) (\<lambda>t. cpu_request res = t)"
    and "pinned_to (supplied inst src ''agent-memory-request'' k_memory_request) (\<lambda>t. memory_request res = t)"
    and "pinned_to (supplied inst src ''agent-cpu-limit'' k_cpu_limit) (\<lambda>t. cpu_limit res = Some t)"
    and "pinned_to (supplied inst src ''agent-memory-limit'' k_memory_limit) (\<lambda>t. memory_limit res = t)"
proof -
  obtain u1 u2 u3 u4 where pins: "quantity_pin get inst src (''agent-cpu-request'', k_cpu_request) = Inr u1"
    "quantity_pin get inst src (''agent-memory-request'', k_memory_request) = Inr u2"
    "quantity_pin get inst src (''agent-cpu-limit'', k_cpu_limit) = Inr u3"
    "quantity_pin get inst src (''agent-memory-limit'', k_memory_limit) = Inr u4"
    and answers: "quantity get ''agent-cpu-request'' (unwrap_or (knob inst src k_cpu_request) ''10m'') = Inr (cpu_request res)"
    "quantity get ''agent-memory-request'' (unwrap_or (knob inst src k_memory_request) ''32Mi'') = Inr (memory_request res)"
    "(case or_else (get ''agent-cpu-limit'') (knob inst src k_cpu_limit) of
        None \<Rightarrow> Inr None
      | Some _ \<Rightarrow> rbind (quantity get ''agent-cpu-limit'' (unwrap_or (knob inst src k_cpu_limit) []))
                    (\<lambda>q. Inr (Some q))) = Inr (cpu_limit res)"
    "quantity get ''agent-memory-limit'' (unwrap_or (knob inst src k_memory_limit) ''64Mi'') = Inr (memory_limit res)"
    using assms unfolding resources_of_def Let_def by (auto simp: rbind_eq_Inr)
  show "pinned_to (supplied inst src ''agent-cpu-request'' k_cpu_request) (\<lambda>t. cpu_request res = t)"
    by (rule pinned_toI) (simp only: quantity_answer [OF answers(1)] quantity_pinned(1) [OF pins(1)])
  show "pinned_to (supplied inst src ''agent-memory-request'' k_memory_request) (\<lambda>t. memory_request res = t)"
    by (rule pinned_toI) (simp only: quantity_answer [OF answers(2)] quantity_pinned(1) [OF pins(2)])
  show "pinned_to (supplied inst src ''agent-memory-limit'' k_memory_limit) (\<lambda>t. memory_limit res = t)"
    by (rule pinned_toI) (simp only: quantity_answer [OF answers(4)] quantity_pinned(1) [OF pins(4)])
  show "pinned_to (supplied inst src ''agent-cpu-limit'' k_cpu_limit) (\<lambda>t. cpu_limit res = Some t)"
  proof (rule pinned_toI)
    fix t assume t: "supplied inst src ''agent-cpu-limit'' k_cpu_limit = Some (t, True)"
    obtain q where "quantity get ''agent-cpu-limit'' (unwrap_or (knob inst src k_cpu_limit) []) = Inr q"
      "cpu_limit res = Some q"
      using answers(3) quantity_pinned(2) [OF pins(3) t] by (auto simp: rbind_eq_Inr split: option.splits)
    then show "cpu_limit res = Some t"
      using quantity_answer quantity_pinned(1) [OF pins(3) t] by fastforce
  qed
qed

lemma metrics_port_pinned:
  "metrics_port_of get inst src = Inr port \<Longrightarrow>
     pinned_to (supplied inst src ''metrics-port'' k_metrics_port) (\<lambda>t. port = Some t \<or> t = 0 \<and> port = None)"
  by (rule pinned_toI) (auto simp: metrics_port_of_def res_simps knob_of_supplied conforms_def
      split: option.splits if_splits)

lemma not_inherited:
  "bool_annotation id get ''agent-run-as-same-user'' False = Inr False \<Longrightarrow> inherited_uid get pod = Inr None"
  by (simp add: inherited_uid_def Let_def)

lemma same_user_decided:
  "identities_of get pod inst src = Inr ids \<Longrightarrow>
     \<exists>same. bool_annotation id get ''agent-run-as-same-user'' False = Inr same"
  by (auto simp: identities_of_def inherited_uid_def Let_def rbind_eq_Inr)

definition request_keeps :: "Installation \<Rightarrow> bool \<Rightarrow> Request \<Rightarrow> bool" where
  "request_keeps inst same_user r \<longleftrightarrow>
     (let src = Some (rq_source r); pins = pinned_string inst (rq_source r); res = rq_resources r in
      pinned_to (supplied_source inst) (\<lambda>t. rq_source r = t) \<and>
      agent_keeps pins (rq_endpoint r) (rq_secret_env r) (rq_ca r) (rq_ssh r) (rq_tls r) (rq_template r) (rq_arguments r) \<and>
      pred_option (\<lambda>t. rq_key r = t) (pins ''key'') \<and> pred_option (\<lambda>t. rq_path r = t) (pins ''path'') \<and>
      pred_option (\<lambda>t. rq_aws_secret r = Some t) (pins ''aws-secret'') \<and>
      pinned_to (supplied inst src ''mode'' k_mode) (\<lambda>t. rq_mode r = t) \<and>
      pinned_to (supplied inst src ''watch-seconds'' k_watch_seconds) (\<lambda>t. rq_watch_seconds r = t) \<and>
      pinned_to (supplied inst src ''volume-medium'' k_volume_memory) (\<lambda>t. rq_volume_memory r = t) \<and>
      pinned_to (supplied inst src ''native-sidecar'' k_native_sidecar) (\<lambda>t. rq_native_sidecar r = t) \<and>
      pinned_to (supplied inst src ''file-mode'' k_file_mode)
        (\<lambda>t. rq_file_mode r = Some t \<and> map_of (rq_arguments r) ''--file-mode'' = Some (''0'' @ t)) \<and>
      (\<not> same_user \<longrightarrow>
         pinned_to (supplied inst src ''agent-run-as-user'' k_run_as_user) (\<lambda>t. rq_run_as_user r = Some t)) \<and>
      pinned_to (supplied inst src ''agent-run-as-group'' k_run_as_group) (\<lambda>t. rq_run_as_group r = Some t) \<and>
      pinned_to (supplied inst src ''metrics-port'' k_metrics_port)
        (\<lambda>t. rq_metrics_port r = Some t \<or> t = 0 \<and> rq_metrics_port r = None) \<and>
      pinned_to (supplied inst src ''agent-cpu-request'' k_cpu_request) (\<lambda>t. cpu_request res = t) \<and>
      pinned_to (supplied inst src ''agent-memory-request'' k_memory_request) (\<lambda>t. memory_request res = t) \<and>
      pinned_to (supplied inst src ''agent-cpu-limit'' k_cpu_limit) (\<lambda>t. cpu_limit res = Some t) \<and>
      pinned_to (supplied inst src ''agent-memory-limit'' k_memory_limit) (\<lambda>t. memory_limit res = t) \<and>
      list_all (render_keeps inst) (rq_extra r))"

lemma pod_arguments_parts:
  "pod_arguments strings get inst = Inr (ssh, ca, skip, args) \<Longrightarrow>
     \<exists>ssh_args. ssh_arguments id SSH_MOUNT strings get ssh = Inr ssh_args \<and>
       args = pass_through POD_FLAGS strings get @ ssh_args @ ca_arguments CA_MOUNT ca
         @ skip_verify_arguments (defaulted strings get ''tls-server-name'') skip \<and>
       ca = map_option (object_of ''ca.crt'') (defaulted strings get ''ca-configmap'') \<and>
       ssh = map_option (object_of ''ssh-privatekey'') (defaulted strings get ''ssh-secret'')"
  by (auto simp: pod_arguments_def Let_def res_simps)

lemma late_arguments_parts:
  assumes "late_arguments strings get m = Inr (tmpl, schema, tls, args)"
  shows "\<exists>targs rest. template_of id TEMPLATE_MOUNT (as_level strings get ''template'' ''template-configmap'')
         = Inr (tmpl, targs) \<and>
       tls = defaulted strings get ''tls-secret'' \<and> args = file_mode_arguments m @ targs @ rest"
proof -
  have "\<exists>targs. template_of id TEMPLATE_MOUNT (as_level strings get ''template'' ''template-configmap'')
         = Inr (tmpl, targs) \<and>
       tls = defaulted strings get ''tls-secret'' \<and>
       args = file_mode_arguments m @ targs
         @ (case schema of None \<Rightarrow> [] | Some r \<Rightarrow> [(''--schema'', SCHEMA_MOUNT @ ''/'' @ object_key r)])
         @ tls_arguments TLS_MOUNT tls"
    using assms by (auto simp: late_arguments_def Let_def res_simps)
  then show ?thesis by blast
qed

lemma agent_kept:
  assumes "read_request get pod inst extra_names also_names = Inr r"
  defines "pins \<equiv> pinned_string inst (rq_source r)"
  shows "agent_keeps pins (rq_endpoint r) (rq_secret_env r) (rq_ca r) (rq_ssh r) (rq_tls r) (rq_template r)
      (rq_arguments r)" (is ?A)
    and "pinned_to (supplied inst (Some (rq_source r)) ''file-mode'' k_file_mode)
        (\<lambda>t. rq_file_mode r = Some t \<and> map_of (rq_arguments r) ''--file-mode'' = Some (''0'' @ t))" (is ?B)
    and "pins key = Some t \<Longrightarrow> defaulted (store_strings inst (Some (rq_source r))) get key = Some t"
proof -
  let ?strings = "store_strings inst (Some (rq_source r))"
  note stages = read_request_stages [OF assms(1)]
  have pin: "map_of ?strings key = Some (t, True) \<and> defaulted ?strings get key = Some t"
    if "pins key = Some t" for key t
    using pinned_stringD [OF that [unfolded pins_def]] pod_pins.pinned_answer [OF stages(2)] by blast
  then show "pins key = Some t \<Longrightarrow> defaulted ?strings get key = Some t" by blast
  obtain es where address: "as_level ?strings get ''endpoint'' ''endpoint-secret'' = (rq_endpoint r, es)"
    and env: "secret_env_of id ?strings get es = Inr (rq_secret_env r)"
    using stages(6) by blast
  obtain early late where args: "rq_arguments r = early @ late"
    and early: "pod_arguments ?strings get inst = Inr (rq_ssh r, rq_ca r, rq_tls_skip_verify r, early)"
    and late: "late_arguments ?strings get (rq_file_mode r) = Inr (rq_template r, rq_schema r, rq_tls r, late)"
    using stages(7) by blast
  obtain ssh_args where ssh: "ssh_arguments id SSH_MOUNT ?strings get (rq_ssh r) = Inr ssh_args"
    and early': "early = pass_through POD_FLAGS ?strings get @ ssh_args @ ca_arguments CA_MOUNT (rq_ca r)
        @ skip_verify_arguments (defaulted ?strings get ''tls-server-name'') (rq_tls_skip_verify r)"
    and objects: "rq_ca r = map_option (object_of ''ca.crt'') (defaulted ?strings get ''ca-configmap'')"
      "rq_ssh r = map_option (object_of ''ssh-privatekey'') (defaulted ?strings get ''ssh-secret'')"
    using pod_arguments_parts [OF early] by blast
  obtain targs rest where tmpl: "template_of id TEMPLATE_MOUNT (as_level ?strings get ''template'' ''template-configmap'')
        = Inr (rq_template r, targs)"
    and tls: "rq_tls r = defaulted ?strings get ''tls-secret''"
    and late': "late = file_mode_arguments (rq_file_mode r) @ targs @ rest"
    using late_arguments_parts [OF late] by blast
  have clear: "set RENDER_FLAGS \<subseteq> set POD_FLAGS" using render_flags_are_pod_flags by auto
  have "agent_keeps pins (rq_endpoint r) (rq_secret_env r) (rq_ca r) (rq_ssh r) (rq_tls r) (rq_template r)
      (pass_through POD_FLAGS ?strings get @ (ssh_args @ ca_arguments CA_MOUNT (rq_ca r)
        @ skip_verify_arguments (defaulted ?strings get ''tls-server-name'') (rq_tls_skip_verify r)
        @ file_mode_arguments (rq_file_mode r)) @ targs @ rest)"
    by (rule agent_keepsI [OF _ stages(3) address env objects tls tmpl flags_distinct(1) clear not_passed(2)
          inline_not_mounted [OF ssh]]) (rule pin)
  then show ?A unfolding args early' late' append_assoc .
  show ?B
  proof (rule pinned_toI)
    fix t assume "supplied inst (Some (rq_source r)) ''file-mode'' k_file_mode = Some (t, True)"
    then have "rq_file_mode r = Some t" by (rule file_mode_pinned [OF stages(11)])
    then show "rq_file_mode r = Some t \<and> map_of (rq_arguments r) ''--file-mode'' = Some (''0'' @ t)"
      by (simp only: args early' late' append_assoc file_mode_flag [OF ssh file_mode_not_passed(1)])
  qed
qed

end
