(* ===== verification/Accepted.thy ===== *)
theory Accepted
  imports Pins
begin

text \<open>
  What an accepted request promises: the cross-field invariant, the installation's pins, and
  certificate verification. One concrete pod and installation witness the theorems.
\<close>

definition ann :: "string \<Rightarrow> string \<Rightarrow> string \<times> json" where
  "ann name v = (PREFIX @ name, JString v)"

definition pod_with :: "(string \<times> json) list \<Rightarrow> json" where
  "pod_with notes = JObject [
     (''metadata'', JObject [(''annotations'', JObject notes)]),
     (''spec'', JObject [(''containers'', JArray [JObject [
        (''name'', JString ''app''),
        (''securityContext'', JObject [(''runAsUser'', JNum 2000)])]])])]"

definition example_notes :: "(string \<times> json) list" where
  "example_notes = [ann ''endpoint'' ''https://v'', ann ''inject'' ''true'', ann ''key'' ''k'',
     ann ''path'' ''/c/a.json'', ann ''source'' ''vault'']"

definition example_pod :: json where
  "example_pod = pod_with example_notes"

definition bare_install :: Installation where
  "bare_install = \<lparr> fleet = no_knobs, per_store = [], fleet_source = None, source_rule = None,
     overridable = True, install_env = [], agent_env_allow = [], source_allow = [],
     source_deny = [], allow_tls_skip_verify = False, allow_events = False, agent_image_allow = [] \<rparr>"

definition pinned_knobs :: knob_defaults where
  "pinned_knobs = \<lparr> k_cpu_request = None, k_memory_request = None, k_cpu_limit = None,
     k_memory_limit = None, k_file_mode = Some ''640'', k_watch_seconds = Some 30, k_mode = Some Both,
     k_volume_memory = None, k_native_sidecar = None, k_run_as_user = Some 1000, k_run_as_group = None,
     k_metrics_port = None, k_path = None, k_endpoint = None, k_endpoint_secret = None,
     k_key = None, k_token_secret = None, k_password_secret = None, k_ca_configmap = None,
     k_tls_secret = None, k_ssh_secret = None, k_aws_secret = None, k_section = None,
     k_auth = None, k_auth_mount = None, k_auth_role = None, k_auth_username = None,
     k_auth_token_path = None, k_namespace = None, k_reference = None, k_api_url = None,
     k_template = None, k_template_configmap = None, k_overridable = None, k_rules = [] \<rparr>"

definition pinning_install :: Installation where
  "pinning_install = \<lparr> fleet = pinned_knobs, per_store = [], fleet_source = None, source_rule = None,
     overridable = False, install_env = [], agent_env_allow = [], source_allow = [],
     source_deny = [], allow_tls_skip_verify = False, allow_events = False, agent_image_allow = [] \<rparr>"


abbreviation "example_get \<equiv> annotation example_notes"

lemma example_stages:
  "asked example_get example_pod = Inr True"
  "suffix_names (map fst example_notes) = Inr ([], [])"
  "source_of example_get pinning_install = Inr (Some ''vault'')"
  "store_strings pinning_install (Some ''vault'') = []"
  "pin_walk id (\<lambda>_. False) [] example_get = Inr ()"
  "pair_walk id [] example_get = Inr ()"
  "mode_of example_get pinning_install (Some ''vault'') = Inr Both"
  "watch_seconds_of id example_get pinning_install (Some ''vault'') = Inr 30"
  "as_level [] example_get ''endpoint'' ''endpoint-secret'' = (Some ''https://v'', None)"
  "secret_env_of id [] example_get None = Inr []"
  "one_address id (Some ''https://v'') None = Inr ()"
  "pod_arguments [] example_get pinning_install = Inr (None, None, False, [])"
  "volume_memory_of example_get pinning_install (Some ''vault'') = Inr True"
  "native_sidecar_of example_get pinning_install (Some ''vault'') = Inr False"
  "resources_of example_get pinning_install (Some ''vault'') =
     Inr \<lparr> cpu_request = ''10m'', memory_request = ''32Mi'', cpu_limit = None,
           memory_limit = ''64Mi'', ephemeral_request = None, ephemeral_limit = None \<rparr>"
  "file_mode_of id example_get pinning_install (Some ''vault'') = Inr (Some ''640'')"
  "identities_of example_get example_pod pinning_install (Some ''vault'') = Inr (Some 1000, None)"
  "env_of example_get Both = Inr (None, False)"
  "aws_secret_of [] example_get (Some ''vault'') = Inr None"
  "metrics_port_of example_get pinning_install (Some ''vault'') = Inr None"
  "lease_of example_get example_pod = Inr (False, False, True, None)"
  "init_first_of example_get Both = Inr False"
  "notify_http_of example_get Both = Inr None"
  "bool_annotation id example_get ''tls-reload'' True = Inr True"
  "history_of example_get True = Inr None"
  "canary_of [] example_get Both = Inr None"
  "timeout_of [] example_get = Inr None"
  "agent_image_of example_get pinning_install = Inr None"
  "events_of example_get pinning_install = Inr False"
  "on_drift_of example_get = Inr None"
  "readiness_of example_get Both = Inr (True, False)"
  "agent_env_of example_get None = Inr []"
  "inject_containers_of example_get example_pod = Inr None"
  "wrappable example_pod None False None = Inr ()"
  "late_arguments [] example_get (Some ''640'') = Inr (None, None, None, [(''--file-mode'', ''0640'')])"
  "defaulted [] example_get ''path'' = Some ''/c/a.json''"
  "defaulted [] example_get ''key'' = Some ''k''"
  "extras_of example_get pinning_install (Some ''/c/a.json'') [] = Inr []"
  by code_simp+

lemma example_accepted: "\<exists>r. of_pod_with example_pod pinning_install = Inr (Some r)"
proof -
  have "annotations_of example_pod = Some example_notes" by code_simp
  then show ?thesis
    by (simp only: of_pod_with_def read_request_def example_stages Let_def rbind_Inr prod.case
        option.case if_True if_False not_True_eq_False simp_thms ensure_simps ok_or_simps rmap.simps)
      blast
qed

lemma pinning_install_ok: "installation_ok pinning_install"
proof -
  have "canonical_mode ''640''"
    by (simp add: canonical_mode_def octal_mode_def strip_prefix_def starts_with_def parse_uint_def
        digit_value_def show_radix.simps digit_char_def) code_simp
  then show ?thesis
    by (simp add: installation_ok_def pinning_install_def pinned_knobs_def tier_ok_defs env_ok_def)
qed

lemma example_request:
  obtains r where "of_pod_with example_pod pinning_install = Inr (Some r)"
  using example_accepted by blast

section \<open>Properties\<close>

text \<open>
  The cross-field rules of \<open>of_pod_with\<close>, of the request alone and of the request with the annotations and
  the pod it was read from.
\<close>

definition render_ok :: "Installation \<Rightarrow> string \<Rightarrow> ExtraRender \<Rightarrow> bool" where
  "render_ok inst main_path x \<longleftrightarrow>
     x_source x \<in> set SOURCES \<and> parent_text (x_path x) = parent_text main_path \<and>
     x_metrics_port x \<noteq> Some 0 \<and>
     agent_rules inst (x_endpoint x) (x_secret_env x) (x_ca x) (x_ssh x) (x_template x) (x_arguments x)"

definition modes_ok :: "Request \<Rightarrow> bool" where
  "modes_ok r \<longleftrightarrow>
     (rq_env_inject r \<noteq> None \<longrightarrow> rq_mode r \<noteq> Sidecar) \<and>
     (rq_env_restart r \<longrightarrow> rq_env_inject r \<noteq> None \<and> rq_mode r = Both) \<and>
     (rq_init_first r \<longrightarrow> rq_mode r \<noteq> Sidecar) \<and>
     (rq_notify_http r \<noteq> None \<longrightarrow> rq_mode r \<noteq> Init) \<and>
     (rq_canary r \<noteq> None \<longrightarrow> rq_mode r \<noteq> Init) \<and>
     (rq_require_ack r \<longrightarrow> rq_readiness r \<and> rq_mode r \<noteq> Init) \<and>
     (rq_revoke_on_shutdown r \<or> rq_dynamic r) \<and>
     (rq_aws_secret r \<noteq> None \<longrightarrow> rq_source r = ''s3'' \<and>
        list_all (\<lambda>(name, _). name \<notin> set AWS_NAMES) (rq_agent_env r)) \<and>
     request_fits (ephemeral_request (rq_resources r)) (ephemeral_limit (rq_resources r)) \<and>
     pred_option canonical_mode (rq_file_mode r) \<and>
     rq_run_as_user r \<noteq> Some 0 \<and> rq_run_as_group r \<noteq> Some 0 \<and>
     pred_option (\<lambda>n. 1 \<le> n \<and> n \<le> MOST_HISTORY \<and> rq_volume_memory r) (rq_history r)"

definition pod_ok :: "getter \<Rightarrow> Installation \<Rightarrow> json \<Rightarrow> Request \<Rightarrow> bool" where
  "pod_ok get inst pod r \<longleftrightarrow>
     pred_option (\<lambda>n. 1 \<le> n \<and> n \<le> grace_period pod \<and> rq_dynamic r) (rq_revoke_grace r) \<and>
     (bool_annotation id get ''agent-run-as-same-user'' False = Inr True \<longrightarrow>
        get ''agent-run-as-user'' = None \<and> rq_run_as_user r \<noteq> None \<and>
        rq_run_as_user r = application_uid pod) \<and>
     pred_option (\<lambda>names. names \<noteq> [] \<and> set names \<subseteq> set (container_names pod)) (rq_inject_containers r) \<and>
     pred_option (\<lambda>name. pred_option (\<lambda>names. name \<in> set names) (rq_inject_containers r) \<and>
        wrappable_container pod name (rq_env_restart r)) (rq_env_inject r) \<and>
     pred_option (agent_image_allowed inst) (rq_agent_image r) \<and>
     (rq_events r \<longrightarrow> allow_events inst)"

definition request_ok :: "getter \<Rightarrow> Installation \<Rightarrow> json \<Rightarrow> Request \<Rightarrow> bool" where
  "request_ok get inst pod r \<longleftrightarrow>
     rq_source r \<in> set SOURCES \<and>
     agent_rules inst (rq_endpoint r) (rq_secret_env r) (rq_ca r) (rq_ssh r) (rq_template r) (rq_arguments r) \<and>
     modes_ok r \<and> pod_ok get inst pod r \<and>
     list_all (render_ok inst (rq_path r)) (rq_extra r) \<and>
     list_all (\<lambda>f. starts_with ''/'' (also_path f) \<and> same_directory (also_path f) (rq_path r)) (rq_also r)"

lemma modes_ok_read:
  assumes "read_request get pod inst extra_names also_names = Inr r" and "installation_ok inst"
  shows "modes_ok r"
proof -
  note stages = read_request_stages [OF assms(1)]
  have "pred_option canonical_mode (rq_file_mode r)"
    using stages(11) file_mode_canonical [OF _ assms(2)] by (cases "rq_file_mode r") auto
  moreover have "pred_option (\<lambda>n. 1 \<le> n \<and> n \<le> MOST_HISTORY \<and> rq_volume_memory r) (rq_history r)"
    using stages(19) history_bounds by (cases "rq_history r") auto
  moreover have "rq_run_as_user r \<noteq> Some 0 \<and> rq_run_as_group r \<noteq> Some 0"
    by (rule identities_nonroot [OF stages(12) assms(2)])
  moreover note env_modes [OF stages(13)]
  moreover have "rq_init_first r \<longrightarrow> rq_mode r \<noteq> Sidecar"
    using stages(17) by (auto simp: init_first_of_def res_simps)
  moreover have "rq_notify_http r \<noteq> None \<longrightarrow> rq_mode r \<noteq> Init"
    using stages(18) by (auto simp: notify_http_of_def res_simps)
  moreover have "rq_canary r \<noteq> None \<longrightarrow> rq_mode r \<noteq> Init"
    using stages(20) by (auto simp: canary_of_def Let_def res_simps)
  moreover have "rq_require_ack r \<longrightarrow> rq_readiness r \<and> rq_mode r \<noteq> Init"
    using stages(23) by (auto simp: readiness_of_def res_simps)
  moreover have "rq_aws_secret r \<noteq> None \<longrightarrow> rq_source r = ''s3''"
    using stages(14) by (auto simp: aws_secret_of_def Let_def res_simps)
  moreover have "rq_aws_secret r \<noteq> None \<longrightarrow> list_all (\<lambda>(name, _). name \<notin> set AWS_NAMES) (rq_agent_env r)"
    using stages(24) agent_env_without_aws by (cases "rq_aws_secret r") auto
  moreover note resources_fit [OF stages(10)] stages(30)
  ultimately show ?thesis by (simp add: modes_ok_def)
qed

lemma pod_ok_read:
  assumes "read_request get pod inst extra_names also_names = Inr r"
  shows "pod_ok get inst pod r"
proof -
  note stages = read_request_stages [OF assms]
  have "pred_option (\<lambda>n. 1 \<le> n \<and> n \<le> grace_period pod \<and> rq_dynamic r) (rq_revoke_grace r)"
    using stages(16) by (cases "rq_revoke_grace r") (auto dest: revoke_grace_bounds)
  moreover note same_user_alone [OF stages(12)]
  moreover have "pred_option (\<lambda>names. names \<noteq> [] \<and> set names \<subseteq> set (container_names pod))
      (rq_inject_containers r)"
    using stages(31) inject_containers_present by (cases "rq_inject_containers r") auto
  moreover have "pred_option (\<lambda>name. pred_option (\<lambda>names. name \<in> set names) (rq_inject_containers r) \<and>
      wrappable_container pod name (rq_env_restart r)) (rq_env_inject r)"
    using stages(25) wrappable_container by (cases "rq_env_inject r") auto
  moreover have "pred_option (agent_image_allowed inst) (rq_agent_image r)"
    using stages(21) offered_image by (cases "rq_agent_image r") auto
  moreover have "rq_events r \<longrightarrow> allow_events inst"
    using stages(22) offered_events by (cases "rq_events r") auto
  ultimately show ?thesis unfolding pod_ok_def by blast
qed

lemma renders_ok_read:
  assumes "read_request get pod inst extra_names also_names = Inr r"
  shows "list_all (render_ok inst (rq_path r)) (rq_extra r)"
  unfolding list_all_iff render_ok_def
proof
  fix x assume "x \<in> set (rq_extra r)"
  then obtain suffix where x: "extra_render suffix (\<lambda>name. get (suffixed suffix name)) (Some (rq_path r)) inst = Inr x"
    by (rule extras_member [OF read_request_stages(26) [OF assms]])
  show "x_source x \<in> set SOURCES \<and> parent_text (x_path x) = parent_text (rq_path r) \<and> x_metrics_port x \<noteq> Some 0 \<and>
      agent_rules inst (x_endpoint x) (x_secret_env x) (x_ca x) (x_ssh x) (x_template x) (x_arguments x)"
    using extra_render_facts [OF x] extra_rules [OF x] by blast
qed

lemma request_ok_read:
  assumes "read_request get pod inst extra_names also_names = Inr r" and "installation_ok inst"
  shows "request_ok get inst pod r"
proof -
  note stages = read_request_stages [OF assms(1)]
  obtain es where address: "secret_env_of id (store_strings inst (Some (rq_source r))) get es = Inr (rq_secret_env r)"
    "one_address id (rq_endpoint r) es = Inr ()"
    using stages(6) by blast
  obtain early late where args: "rq_arguments r = early @ late"
    and early: "pod_arguments (store_strings inst (Some (rq_source r))) get inst
      = Inr (rq_ssh r, rq_ca r, rq_tls_skip_verify r, early)"
    and late: "late_arguments (store_strings inst (Some (rq_source r))) get (rq_file_mode r)
      = Inr (rq_template r, rq_schema r, rq_tls r, late)"
    using stages(7) by blast
  have "list_all (\<lambda>f. starts_with ''/'' (also_path f) \<and> same_directory (also_path f) (rq_path r)) (rq_also r)"
    using stages(27) by (auto simp: list_all_iff dest!: rmap_Inr_in_set also_in_directory)
  moreover have "rq_source r \<in> set SOURCES" by (rule source_known [OF stages(1) assms(2)])
  moreover note modes_ok_read [OF assms] pod_ok_read [OF assms(1)] renders_ok_read [OF assms(1)]
    pod_rules [OF address early late, folded args]
  ultimately show ?thesis unfolding request_ok_def by blast
qed

text \<open>C4: whatever a pod's annotations are, a request the contract accepts under an installation
  that passed startup validation keeps the cross-field rules of \<open>request_ok\<close>. Of its own agent's line and of
  each named render's: a known store, exactly one address, verification off only where it is offered and without a
  CA, an SSH key only with its own method, one template. Of the request: features fit the mode and each other, a
  bounded history in memory, an ephemeral request within its limit, an AWS secret for S3 alone and no AWS key beside
  it, never root. Of the pod: its grace period bounds the revocation's, the inherited UID is the application's
  and no other is asked for, the containers named are the pod's, the wrapped one is among them with a command
  and no probe a restart would fail, and image and events are offered. Every named render and further file is in
  the directory of the main one.\<close>

theorem accepted_request_well_formed:
  assumes "of_pod_with pod inst = Inr (Some r)" and "installation_ok inst"
  shows "\<exists>notes. annotations_of pod = Some notes \<and> request_ok (annotation notes) inst pod r"
  using of_pod_with_request [OF assms(1)] request_ok_read [OF _ assms(2)] by metis

theorem accepted_request_well_formed_witness:
  "\<exists>r notes. of_pod_with example_pod pinning_install = Inr (Some r) \<and>
     request_ok (annotation notes) pinning_install example_pod r"
  using example_request accepted_request_well_formed [OF _ pinning_install_ok] by metis

lemma request_keeps_read:
  assumes "read_request get pod inst extra_names also_names = Inr r"
    and "bool_annotation id get ''agent-run-as-same-user'' False = Inr same_user"
  shows "request_keeps inst same_user r"
proof -
  note stages = read_request_stages [OF assms(1)] and kept = agent_kept [OF assms(1)]
  note resources = resources_pinned [OF stages(10)]
  have strings: "pred_option (\<lambda>t. rq_key r = t) (pinned_string inst (rq_source r) ''key'')"
    "pred_option (\<lambda>t. rq_path r = t) (pinned_string inst (rq_source r) ''path'')"
    using kept(3) [of "''key''"] kept(3) [of "''path''"] stages(28,29) by (simp_all add: option.pred_set)
  have aws: "pred_option (\<lambda>t. rq_aws_secret r = Some t) (pinned_string inst (rq_source r) ''aws-secret'')"
    using kept(3) [of "''aws-secret''"] stages(14) by (auto simp: option.pred_set aws_secret_of_def Let_def res_simps)
  have renders: "list_all (render_keeps inst) (rq_extra r)"
    unfolding list_all_iff by (auto elim!: extras_member [OF stages(26)] dest: extra_keeps)
  have user: "\<not> same_user \<longrightarrow> pinned_to (supplied inst (Some (rq_source r)) ''agent-run-as-user'' k_run_as_user)
      (\<lambda>t. rq_run_as_user r = Some t)"
    using assms(2) run_as_user_pinned [OF stages(12) _ not_inherited] by (auto intro: pinned_toI)
  show ?thesis
    unfolding request_keeps_def Let_def
    by (intro conjI strings aws renders user resources kept(1,2) metrics_port_pinned [OF stages(15)]
        pinned_toI source_pinned [OF stages(1)] mode_pinned [OF stages(4)] watch_seconds_pinned [OF stages(5)]
        volume_memory_pinned [OF stages(8)] native_sidecar_pinned [OF stages(9)] run_as_group_pinned [OF stages(12)])
qed



text \<open>Where the installation does not offer it, no request asks for verification to be off.\<close>

lemma verification_is_not_asked_off:
  assumes "of_pod_with pod inst = Inr (Some r)" and "\<not> allow_tls_skip_verify inst"
  shows "\<not> rq_tls_skip_verify r \<and> skip_flag \<notin> fst ` set (rq_arguments r) \<and>
    (\<forall>x \<in> set (rq_extra r). skip_flag \<notin> fst ` set (x_arguments x))"
proof -
  obtain anns en an where read: "read_request (annotation anns) pod inst en an = Inr r"
    using assms(1) by (rule of_pod_with_request)
  note stages = read_request_stages [OF read]
  obtain early late where args: "rq_arguments r = early @ late"
    and early: "pod_arguments (store_strings inst (Some (rq_source r))) (annotation anns) inst
      = Inr (rq_ssh r, rq_ca r, rq_tls_skip_verify r, early)"
    and late: "late_arguments (store_strings inst (Some (rq_source r))) (annotation anns)
      (rq_file_mode r) = Inr (rq_template r, rq_schema r, rq_tls r, late)"
    using stages(7) by blast
  have "\<not> rq_tls_skip_verify r \<and> skip_flag \<notin> fst ` set (rq_arguments r)"
    using pod_arguments_no_skip [OF assms(2) early] late_arguments_no_skip [OF late]
    by (simp add: args image_Un)
  moreover have "skip_flag \<notin> fst ` set (x_arguments x)" if "x \<in> set (rq_extra r)" for x
    by (rule extras_member [OF stages(26) that]) (use extra_render_facts assms(2) in blast)
  ultimately show ?thesis by blast
qed

text \<open>The pin on \<open>agent-run-as-user\<close> does not reach a UID the pod inherits.\<close>

lemma same_user_escapes_pin:
  "supplied pinning_install (Some ''vault'') ''agent-run-as-user'' k_run_as_user = Some (1000, True) \<and>
   identities_of (annotation [ann ''agent-run-as-same-user'' ''true'']) example_pod
     pinning_install (Some ''vault'') = Inr (Some 2000, None)"
  by (simp add: supplied_def tier_value_def store_tier_def pinning_install_def pinned_knobs_def
      identities_of_def identity_pin_def identity_def annotation_def ann_def PREFIX_def knob_def
      inherited_uid_def bool_annotation_def parse_bool_def application_uid_def containers_of_def
      example_pod_def pod_with_def run_as_user_at_def as_u64_def)

end
