(* ===== verification/Patch.thy ===== *)
theory Patch
  imports Accepted Codec
begin

text \<open>
  \<open>patch.rs\<close>: the JSON patch that injects the agent, operation by operation in the order the
  source pushes them, the names it would collide with, and the warnings. The agent image and the
  pull secret come from the process environment and are the two fields of \<open>webhook_env\<close>.
\<close>

record webhook_env =
  default_image :: string
  pull_secret :: "string option"

datatype patch_op =
    AddAt "string list" json
  | ReplaceAt "string list" json
  | RemoveAt "string list"

text \<open>An operation as the source spells it: the tokens of the path escaped and joined.\<close>

definition pointer_text :: "string list \<Rightarrow> string" where
  "pointer_text tokens = concat (map (\<lambda>t. ''/'' @ replace_char (CHR ''/'') ''~1'' t) tokens)"

definition patch_json :: "patch_op \<Rightarrow> json" where
  "patch_json op =
     (case op of
        AddAt p v \<Rightarrow> jobj [(''op'', jstr ''add''), (''path'', jstr (pointer_text p)), (''value'', v)]
      | ReplaceAt p v \<Rightarrow> jobj [(''op'', jstr ''replace''), (''path'', jstr (pointer_text p)), (''value'', v)]
      | RemoveAt p \<Rightarrow> jobj [(''op'', jstr ''remove''), (''path'', jstr (pointer_text p))])"

section \<open>Names the injection takes\<close>

definition runs_agent :: "Mode \<Rightarrow> bool" where
  "runs_agent m \<longleftrightarrow> m = Sidecar \<or> m = Both"

definition runs_init :: "Mode \<Rightarrow> bool" where
  "runs_init m \<longleftrightarrow> m = Init \<or> m = Both"

definition wanted_names :: "Request \<Rightarrow> string list" where
  "wanted_names r =
     (if runs_agent (rq_mode r) then [''dynamic-config-agent''] else [])
     @ (if runs_init (rq_mode r) then [''dynamic-config-init''] else [])
     @ concat (map (\<lambda>n.
          (if runs_agent (rq_mode r) then [''dynamic-config-agent-'' @ show_nat n] else [])
          @ (if runs_init (rq_mode r) then [''dynamic-config-init-'' @ show_nat n] else []))
          [1..<length (rq_extra r) + 1])"

definition name_field :: "json \<Rightarrow> string option" where
  "name_field c = (case jget ''name'' c of None \<Rightarrow> None | Some j \<Rightarrow> as_str j)"

definition container_names :: "json \<Rightarrow> string list" where
  "container_names pod =
     List.map_filter name_field
       (unwrap_or (containers_of pod ''containers'') []
        @ unwrap_or (containers_of pod ''initContainers'') [])"

definition collides :: "json \<Rightarrow> Request \<Rightarrow> string option" where
  "collides pod r = find (\<lambda>name. name \<in> set (wanted_names r)) (container_names pod)"

section \<open>The mark and the volumes\<close>

definition VOLUME_LIMIT :: string where "VOLUME_LIMIT = ''16Mi''"

definition mark_ops :: "json \<Rightarrow> patch_op list" where
  "mark_ops pod =
     (if pointer [''metadata'', ''annotations''] pod = None
      then [AddAt [''metadata'', ''annotations''] (JObject [])] else [])
     @ [AddAt [''metadata'', ''annotations'', PREFIX @ STATUS] (jstr INJECTED)]"

definition add_volume :: "json \<Rightarrow> patch_op" where
  "add_volume v = AddAt [''spec'', ''volumes'', ''-''] v"

definition configmap_volume :: "string \<Rightarrow> ObjectRef option \<Rightarrow> patch_op list" where
  "configmap_volume name r =
     (case r of
        None \<Rightarrow> []
      | Some c \<Rightarrow> [add_volume (jobj [(''name'', jstr name),
          (''configMap'', jobj [(''name'', jstr (object_name c))])])])"

definition secret_volume :: "string \<Rightarrow> nat \<Rightarrow> string option \<Rightarrow> patch_op list" where
  "secret_volume name mode_bits secret =
     (case secret of
        None \<Rightarrow> []
      | Some s \<Rightarrow> [add_volume (jobj [(''name'', jstr name),
          (''secret'', jobj [(''secretName'', jstr s), (''defaultMode'', jnat mode_bits)])])])"

text \<open>\<open>0o400\<close> and \<open>0o444\<close>.\<close>

definition owner_read :: nat where "owner_read = 256"
definition all_read :: nat where "all_read = 292"

definition extra_volumes :: "ExtraRender \<Rightarrow> patch_op list" where
  "extra_volumes x =
     (let named = (\<lambda>base. base @ ''-'' @ x_name x) in
      configmap_volume (named ''dynamic-config-ca'') (x_ca x)
      @ secret_volume (named ''dynamic-config-ssh'') owner_read (map_option object_name (x_ssh x))
      @ secret_volume (named ''dynamic-config-client-tls'') all_read (x_tls x)
      @ configmap_volume (named ''dynamic-config-template'') (x_template x))"

definition volume_ops :: "json \<Rightarrow> Request \<Rightarrow> patch_op list" where
  "volume_ops pod r =
     (if pointer [''spec'', ''volumes''] pod = None then [AddAt [''spec'', ''volumes''] (JArray [])]
      else [])
     @ [add_volume (jobj [(''name'', jstr ''dynamic-config''),
          (''emptyDir'',
             jobj ((if rq_volume_memory r then [(''medium'', jstr ''Memory'')] else [])
                   @ [(''sizeLimit'', jstr VOLUME_LIMIT)]))])]
     @ configmap_volume ''dynamic-config-ca'' (rq_ca r)
     @ secret_volume ''dynamic-config-ssh'' owner_read (map_option object_name (rq_ssh r))
     @ secret_volume ''dynamic-config-extra'' all_read (rq_extra_secret r)
     @ configmap_volume ''dynamic-config-canary'' (rq_canary r)
     @ secret_volume ''dynamic-config-client-tls'' all_read (rq_tls r)
     @ concat (map extra_volumes (rq_extra r))
     @ configmap_volume ''dynamic-config-template'' (rq_template r)
     @ configmap_volume ''dynamic-config-schema'' (rq_schema r)"

section \<open>The application's containers\<close>

definition mount_dir :: "Request \<Rightarrow> string" where
  "mount_dir r =
     (case path_parent (rq_path r) of
        None \<Rightarrow> ''/config''
      | Some d \<Rightarrow> if d = [] then ''/config'' else d)"

definition receives :: "Request \<Rightarrow> json \<Rightarrow> bool" where
  "receives r c =
     (case rq_inject_containers r of
        None \<Rightarrow> True
      | Some named \<Rightarrow>
          (case as_str (jfield ''name'' c) of None \<Rightarrow> False | Some name \<Rightarrow> name \<in> set named))"

definition render_mount :: "Request \<Rightarrow> json" where
  "render_mount r = jobj [(''name'', jstr ''dynamic-config''), (''mountPath'', jstr (mount_dir r))]"

definition mount_ops_at :: "Request \<Rightarrow> nat \<times> json \<Rightarrow> patch_op list" where
  "mount_ops_at r entry =
     (case entry of (index, c) \<Rightarrow>
        if \<not> receives r c then []
        else (if pointer [''volumeMounts''] c = None
              then [AddAt [''spec'', ''containers'', show_nat index, ''volumeMounts''] (JArray [])]
              else [])
             @ [AddAt [''spec'', ''containers'', show_nat index, ''volumeMounts'', ''-''] (render_mount r)])"

definition app_containers :: "json \<Rightarrow> (nat \<times> json) list" where
  "app_containers pod = enumerate 0 (unwrap_or (containers_of pod ''containers'') [])"

definition mount_ops :: "json \<Rightarrow> Request \<Rightarrow> patch_op list" where
  "mount_ops pod r = concat (map (mount_ops_at r) (app_containers pod))"

definition pull_ops :: "webhook_env \<Rightarrow> json \<Rightarrow> patch_op list" where
  "pull_ops env pod =
     (case pull_secret env of
        None \<Rightarrow> []
      | Some name \<Rightarrow>
          (if pointer [''spec'', ''imagePullSecrets''] pod = None
           then [AddAt [''spec'', ''imagePullSecrets''] (JArray [])] else [])
          @ [AddAt [''spec'', ''imagePullSecrets'', ''-''] (jobj [(''name'', jstr name)])])"

definition quoted :: "string \<Rightarrow> string" where
  "quoted s = ''\"'' @ s @ ''\"''"

definition env_script :: "Request \<Rightarrow> string" where
  "env_script r =
     (if rq_env_restart r
      then ''set -a; . '' @ rq_path r @ ''; set +a; export DYNAMIC_CONFIG_ENV_FINGERPRINT=''
           @ quoted (''$(cksum < '' @ rq_path r @ '')'') @ ''; exec '' @ quoted ''$@''
      else ''set -a; . '' @ rq_path r @ ''; set +a; exec '' @ quoted ''$@'')"

definition liveness_probe :: "Request \<Rightarrow> json" where
  "liveness_probe r =
     jobj [(''exec'', jobj [(''command'', jstrs [''/bin/sh'', ''-c'',
              ''test '' @ quoted (''$(cksum < '' @ rq_path r @ '')'') @ '' = ''
              @ quoted ''$DYNAMIC_CONFIG_ENV_FINGERPRINT''])]),
           (''periodSeconds'', jnat (min 120 (max 10 (rq_watch_seconds r)))),
           (''failureThreshold'', jnat 1)]"

definition wrap_ops_at :: "Request \<Rightarrow> string \<Rightarrow> nat \<times> json \<Rightarrow> patch_op list" where
  "wrap_ops_at r name entry =
     (case entry of (index, c) \<Rightarrow>
        if as_str (jfield ''name'' c) \<noteq> Some name then []
        else (let at = (\<lambda>field. [''spec'', ''containers'', show_nat index, field]);
                  items = (\<lambda>field. unwrap_or (as_array (jfield field c)) []) in
              [ReplaceAt (at ''command'')
                 (JArray (map JString [''/bin/sh'', ''-c'', env_script r, ''dynamic-config-env'']
                          @ items ''command'' @ items ''args''))]
              @ (if jget ''args'' c \<noteq> None then [RemoveAt (at ''args'')] else [])
              @ (if rq_env_restart r then [AddAt (at ''livenessProbe'') (liveness_probe r)] else [])))"

definition wrap_ops :: "json \<Rightarrow> Request \<Rightarrow> patch_op list" where
  "wrap_ops pod r =
     (case rq_env_inject r of
        None \<Rightarrow> []
      | Some name \<Rightarrow> concat (map (wrap_ops_at r name) (app_containers pod)))"

section \<open>The agent's arguments\<close>

definition flag_words :: "(string \<times> string) list \<Rightarrow> string list" where
  "flag_words flags = concat (map (\<lambda>(flag, v). if v = [] then [flag] else [flag, v]) flags)"

definition opt_flag :: "string \<Rightarrow> string option \<Rightarrow> string list" where
  "opt_flag flag v = (case v of None \<Rightarrow> [] | Some t \<Rightarrow> [flag, t])"

definition bare_flag :: "string \<Rightarrow> bool \<Rightarrow> string list" where
  "bare_flag flag b = (if b then [flag] else [])"

definition also_words :: "also_file \<Rightarrow> string list" where
  "also_words f =
     [''--also'', ''out='' @ also_path f
        @ (case also_section f of None \<Rightarrow> [] | Some s \<Rightarrow> '',section='' @ s)]"

definition watching_words :: "Request \<Rightarrow> string list" where
  "watching_words r =
     bare_flag ''--meta'' (rq_meta r)
     @ bare_flag ''--no-revoke-on-shutdown'' (rq_dynamic r \<and> \<not> rq_revoke_on_shutdown r)
     @ opt_flag ''--notify-http'' (rq_notify_http r)
     @ opt_flag ''--on-drift'' (rq_on_drift r)
     @ bare_flag ''--no-tls-reload'' (\<not> rq_tls_reload r)
     @ opt_flag ''--history'' (map_option show_nat (rq_history r))
     @ bare_flag ''--require-ack'' (rq_require_ack r)
     @ bare_flag ''--events'' (rq_events r)
     @ opt_flag ''--timeout'' (map_option show_nat (rq_timeout r))
     @ opt_flag ''--canary'' (map_option (\<lambda>c. CANARY_MOUNT @ ''/'' @ object_key c) (rq_canary r))
     @ opt_flag ''--revoke-grace''
         (if rq_dynamic r \<and> rq_revoke_on_shutdown r then map_option show_nat (rq_revoke_grace r)
          else None)"

definition agent_words :: "Request \<Rightarrow> bool \<Rightarrow> string list" where
  "agent_words r watch =
     [''--source'', rq_source r]
     @ opt_flag ''--endpoint'' (rq_endpoint r)
     @ [''--key'', rq_key r, ''--out'', rq_path r]
     @ flag_words (rq_arguments r)
     @ (if watch then [''--watch'', show_nat (rq_watch_seconds r)] else [])
     @ bare_flag ''--dynamic'' (rq_dynamic r)
     @ concat (map also_words (rq_also r))
     @ (if watch then watching_words r else [])"

definition metrics_words :: "nat option \<Rightarrow> bool \<Rightarrow> string list" where
  "metrics_words port watch =
     (case port of
        Some p \<Rightarrow> if watch then [''--metrics-addr'', ''0.0.0.0:'' @ show_nat p] else []
      | None \<Rightarrow> [])"

definition extra_words :: "ExtraRender \<Rightarrow> bool \<Rightarrow> string list" where
  "extra_words x watch =
     [''--source'', x_source x]
     @ opt_flag ''--endpoint'' (x_endpoint x)
     @ [''--key'', x_key x, ''--out'', x_path x]
     @ flag_words (x_arguments x)
     @ (if watch then [''--watch'', show_nat (x_watch_seconds x)] else [])"

section \<open>The agent's containers\<close>

definition volume_mount :: "bool \<Rightarrow> string \<Rightarrow> string \<Rightarrow> json list" where
  "volume_mount wanted name path =
     (if wanted then [jobj [(''name'', jstr name), (''mountPath'', jstr path), (''readOnly'', JBool True)]]
      else [])"

definition agent_mounts :: "Request \<Rightarrow> json list" where
  "agent_mounts r =
     render_mount r
     # volume_mount (rq_ca r \<noteq> None) ''dynamic-config-ca'' CA_MOUNT
     @ volume_mount (rq_ssh r \<noteq> None) ''dynamic-config-ssh'' SSH_MOUNT
     @ volume_mount (rq_canary r \<noteq> None) ''dynamic-config-canary'' CANARY_MOUNT
     @ volume_mount (rq_extra_secret r \<noteq> None) ''dynamic-config-extra'' EXTRA_MOUNT
     @ volume_mount (rq_tls r \<noteq> None) ''dynamic-config-client-tls'' TLS_MOUNT
     @ volume_mount (rq_template r \<noteq> None) ''dynamic-config-template'' TEMPLATE_MOUNT
     @ volume_mount (rq_schema r \<noteq> None) ''dynamic-config-schema'' SCHEMA_MOUNT"

definition extra_mounts :: "Request \<Rightarrow> ExtraRender \<Rightarrow> json list" where
  "extra_mounts r x =
     (let mount = (\<lambda>wanted base dir. volume_mount wanted (base @ ''-'' @ x_name x) (dir @ ''-'' @ x_name x)) in
      render_mount r
      # mount (x_ca x \<noteq> None) ''dynamic-config-ca'' CA_MOUNT
      @ mount (x_ssh x \<noteq> None) ''dynamic-config-ssh'' SSH_MOUNT
      @ mount (x_tls x \<noteq> None) ''dynamic-config-client-tls'' TLS_MOUNT
      @ mount (x_template x \<noteq> None) ''dynamic-config-template'' TEMPLATE_MOUNT)"

definition opt_field :: "string \<Rightarrow> string option \<Rightarrow> (string \<times> json) list" where
  "opt_field name v = (case v of None \<Rightarrow> [] | Some t \<Rightarrow> [(name, jstr t)])"

definition agent_resources :: "Resources \<Rightarrow> json" where
  "agent_resources res =
     jobj [(''requests'', jobj ([(''cpu'', jstr (cpu_request res)), (''memory'', jstr (memory_request res))]
              @ opt_field ''ephemeral-storage'' (ephemeral_request res))),
           (''limits'', jobj ([(''memory'', jstr (memory_limit res))]
              @ opt_field ''cpu'' (cpu_limit res)
              @ opt_field ''ephemeral-storage'' (ephemeral_limit res)))]"

definition extra_resources :: "Resources \<Rightarrow> json" where
  "extra_resources res =
     jobj [(''requests'', jobj [(''cpu'', jstr (cpu_request res)), (''memory'', jstr (memory_request res))]),
           (''limits'', jobj ([(''memory'', jstr (memory_limit res))] @ opt_field ''cpu'' (cpu_limit res)))]"

text \<open>The restricted Pod Security Standard; 65532 is the agent's own UID and GID.\<close>

definition security_context :: "Request \<Rightarrow> json" where
  "security_context r =
     jobj [(''runAsNonRoot'', JBool True),
           (''runAsUser'', jnat (unwrap_or (rq_run_as_user r) 65532)),
           (''runAsGroup'', jnat (unwrap_or (rq_run_as_group r) 65532)),
           (''allowPrivilegeEscalation'', JBool False),
           (''capabilities'', jobj [(''drop'', jstrs [''ALL''])]),
           (''readOnlyRootFilesystem'', JBool True),
           (''seccompProfile'', jobj [(''type'', jstr ''RuntimeDefault'')])]"

definition secret_entry :: "string \<Rightarrow> string \<Rightarrow> string \<Rightarrow> json" where
  "secret_entry variable secret key =
     jobj [(''name'', jstr variable),
           (''valueFrom'', jobj [(''secretKeyRef'', jobj [(''name'', jstr secret), (''key'', jstr key)])])]"

definition secret_entries :: "(string \<times> SecretRef) list \<Rightarrow> json list" where
  "secret_entries env =
     map (\<lambda>(variable, s). secret_entry variable (secret_name s) (secret_key s)) env"

definition aws_entries :: "string option \<Rightarrow> json list" where
  "aws_entries aws = (case aws of None \<Rightarrow> [] | Some s \<Rightarrow> map (\<lambda>key. secret_entry key s key) AWS_NAMES)"

definition identity_entries :: "Request \<Rightarrow> json list" where
  "identity_entries r =
     (if rq_events r \<or> rq_canary r \<noteq> None
      then map (\<lambda>(name, path). jobj [(''name'', jstr name),
             (''valueFrom'', jobj [(''fieldRef'', jobj [(''fieldPath'', jstr path)])])])
             [(''DYNAMIC_CONFIG_POD_NAME'', ''metadata.name''),
              (''DYNAMIC_CONFIG_POD_UID'', ''metadata.uid'')]
      else [])"

definition plain_entries :: "Request \<Rightarrow> json list" where
  "plain_entries r =
     map (\<lambda>(name, v). jobj [(''name'', jstr name), (''value'', jstr v)]) (rq_fleet_env r @ rq_agent_env r)"

definition readiness_probe :: "json \<Rightarrow> json" where
  "readiness_probe port =
     jobj [(''httpGet'', jobj [(''path'', jstr ''/readyz''), (''port'', port)]),
           (''periodSeconds'', jnat 5), (''failureThreshold'', jnat 60)]"

text \<open>The port, the probe on it, and the environment, which a container has only when they are asked
  for. \<open>named\<close> tells the main agent's port, which has a name, from a render's.\<close>

definition port_fields :: "bool \<Rightarrow> nat option \<Rightarrow> bool \<Rightarrow> bool \<Rightarrow> (string \<times> json) list" where
  "port_fields named port ready watch =
     (case port of
        None \<Rightarrow> []
      | Some p \<Rightarrow>
          if \<not> watch then []
          else [(''ports'', JArray [jobj ((''containerPort'', jnat p)
                   # (if named then [(''name'', jstr ''metrics'')] else []))])]
               @ (if ready
                  then [(''readinessProbe'', readiness_probe (if named then jstr ''metrics'' else jnat p))]
                  else []))"

definition env_fields :: "json list \<Rightarrow> (string \<times> json) list" where
  "env_fields env = (if env = [] then [] else [(''env'', JArray env)])"

definition agent_container :: "webhook_env \<Rightarrow> Request \<Rightarrow> bool \<Rightarrow> json" where
  "agent_container env r watch =
     jobj ([(''name'', jstr (if watch then ''dynamic-config-agent'' else ''dynamic-config-init'')),
        (''image'', jstr (unwrap_or (rq_agent_image r) (default_image env))),
        (''args'', jstrs (agent_words r watch @ metrics_words (rq_metrics_port r) watch)),
        (''volumeMounts'', JArray (agent_mounts r)),
        (''resources'', agent_resources (rq_resources r)),
        (''securityContext'', security_context r)]
      @ port_fields True (rq_metrics_port r) (rq_readiness r) watch
      @ env_fields (secret_entries (rq_secret_env r) @ aws_entries (rq_aws_secret r)
          @ identity_entries r @ plain_entries r))"

definition extra_container :: "webhook_env \<Rightarrow> Request \<Rightarrow> ExtraRender \<Rightarrow> bool \<Rightarrow> json" where
  "extra_container env r x watch =
     jobj ([(''name'', jstr ((if watch then ''dynamic-config-agent-'' else ''dynamic-config-init-'')
                             @ x_name x)),
        (''image'', jstr (default_image env)),
        (''args'', jstrs (extra_words x watch @ metrics_words (x_metrics_port x) watch)),
        (''volumeMounts'', JArray (extra_mounts r x)),
        (''resources'', extra_resources (rq_resources r)),
        (''securityContext'', security_context r)]
      @ port_fields False (x_metrics_port x) (rq_readiness r) watch
      @ env_fields (secret_entries (x_secret_env x) @ plain_entries r @ aws_entries (rq_aws_secret r)))"

section \<open>The patch\<close>

definition no_init :: "json \<Rightarrow> patch_op list" where
  "no_init pod =
     (if pointer [''spec'', ''initContainers''] pod = None
      then [AddAt [''spec'', ''initContainers''] (JArray [])] else [])"

definition init_ops :: "webhook_env \<Rightarrow> json \<Rightarrow> Request \<Rightarrow> patch_op list" where
  "init_ops env pod r =
     (if \<not> runs_init (rq_mode r) then []
      else no_init pod
        @ [AddAt [''spec'', ''initContainers'', if rq_init_first r then ''0'' else ''-'']
             (agent_container env r False)]
        @ map (\<lambda>x. AddAt [''spec'', ''initContainers'', ''-''] (extra_container env r x False))
            (rq_extra r))"

definition always :: "json \<Rightarrow> json" where
  "always c = jset ''restartPolicy'' (jstr ''Always'') c"

definition sidecar_ops :: "webhook_env \<Rightarrow> json \<Rightarrow> Request \<Rightarrow> patch_op list" where
  "sidecar_ops env pod r =
     (if \<not> runs_agent (rq_mode r) then []
      else if rq_native_sidecar r
      then (if rq_mode r \<noteq> Both then no_init pod else [])
        @ [AddAt [''spec'', ''initContainers'', ''-''] (always (agent_container env r True))]
        @ map (\<lambda>x. AddAt [''spec'', ''initContainers'', ''-''] (always (extra_container env r x True)))
            (rq_extra r)
      else [AddAt [''spec'', ''containers'', ''-''] (agent_container env r True)]
        @ map (\<lambda>x. AddAt [''spec'', ''containers'', ''-''] (extra_container env r x True))
            (rq_extra r))"

definition patches_for :: "webhook_env \<Rightarrow> json \<Rightarrow> Request \<Rightarrow> patch_op list" where
  "patches_for env pod r =
     mark_ops pod @ volume_ops pod r @ mount_ops pod r @ pull_ops env pod @ wrap_ops pod r
     @ init_ops env pod r @ sidecar_ops env pod r"

section \<open>Warnings\<close>

datatype warning =
    OnDisk
  | WorldReadable
  | PollsEvery nat
  | NotAuthenticated
  | LeaseStaysOut

definition warnings :: "Request \<Rightarrow> warning list" where
  "warnings r =
     (if \<not> rq_volume_memory r then [OnDisk] else [])
     @ (case (case rq_file_mode r of None \<Rightarrow> None | Some m \<Rightarrow> parse_uint 8 32 m) of
          None \<Rightarrow> []
        | Some m \<Rightarrow> if m AND 7 \<noteq> 0 then [WorldReadable] else [])
     @ (if rq_watch_seconds r < 5 then [PollsEvery (rq_watch_seconds r)] else [])
     @ (if rq_tls_skip_verify r then [NotAuthenticated] else [])
     @ (if rq_dynamic r \<and> \<not> rq_revoke_on_shutdown r then [LeaseStaysOut] else [])"

section \<open>What a patch does\<close>

text \<open>
  The API server applies the patch; its effect is RFC 6902's, on the tokens of the path: a dash
  appends to an array, an index inserts before it, a field of an object is set. An operation whose
  parent is missing fails.
\<close>

definition at_index :: "string \<Rightarrow> json list \<Rightarrow> nat option" where
  "at_index t xs = (case array_index t of None \<Rightarrow> None | Some n \<Rightarrow> if n < length xs then Some n else None)"

definition leaf_op :: "patch_op \<Rightarrow> string \<Rightarrow> json \<Rightarrow> json option" where
  "leaf_op op t j =
     (case (op, j) of
        (AddAt _ v, JObject m) \<Rightarrow> Some (JObject (map_insert t v m))
      | (AddAt _ v, JArray xs) \<Rightarrow>
          (if t = ''-'' then Some (JArray (xs @ [v]))
           else (case array_index t of
                   None \<Rightarrow> None
                 | Some n \<Rightarrow> if n \<le> length xs then Some (JArray (take n xs @ [v] @ drop n xs)) else None))
      | (ReplaceAt _ v, JObject m) \<Rightarrow>
          (if map_of m t = None then None else Some (JObject (map_insert t v m)))
      | (ReplaceAt _ v, JArray xs) \<Rightarrow>
          map_option (\<lambda>n. JArray (xs[n := v])) (at_index t xs)
      | (RemoveAt _, JObject m) \<Rightarrow>
          (if map_of m t = None then None else Some (JObject (filter (\<lambda>(k, _). k \<noteq> t) m)))
      | (RemoveAt _, JArray xs) \<Rightarrow>
          map_option (\<lambda>n. JArray (take n xs @ drop (Suc n) xs)) (at_index t xs)
      | _ \<Rightarrow> None)"

fun descend :: "(string \<Rightarrow> json \<Rightarrow> json option) \<Rightarrow> string list \<Rightarrow> json \<Rightarrow> json option" where
  "descend f [] j = None"
| "descend f [t] j = f t j"
| "descend f (t # u # ts) j =
     (case j of
        JObject m \<Rightarrow>
          (case map_of m t of
             None \<Rightarrow> None
           | Some c \<Rightarrow> map_option (\<lambda>c'. JObject (map_insert t c' m)) (descend f (u # ts) c))
      | JArray xs \<Rightarrow>
          (case at_index t xs of
             None \<Rightarrow> None
           | Some n \<Rightarrow> map_option (\<lambda>c'. JArray (xs[n := c'])) (descend f (u # ts) (xs ! n)))
      | _ \<Rightarrow> None)"

definition op_path :: "patch_op \<Rightarrow> string list" where
  "op_path op = (case op of AddAt p _ \<Rightarrow> p | ReplaceAt p _ \<Rightarrow> p | RemoveAt p \<Rightarrow> p)"

definition apply_op :: "patch_op \<Rightarrow> json \<Rightarrow> json option" where
  "apply_op op j = descend (leaf_op op) (op_path op) j"

fun apply_ops :: "patch_op list \<Rightarrow> json \<Rightarrow> json option" where
  "apply_ops [] j = Some j"
| "apply_ops (op # ops) j = (case apply_op op j of None \<Rightarrow> None | Some j' \<Rightarrow> apply_ops ops j')"

end
