(* ===== verification/Injected.thy ===== *)
theory Injected
  imports Patch
begin

text \<open>
  Injection is idempotent: applying the patch that \<open>patches_for\<close> produces leaves a pod that the
  contract does not touch again. The effect of the operations is tracked through the two parts of
  the pod the contract reads: the annotations and the container lists.
\<close>

section \<open>Operations under one field\<close>

lemma descend_object:
  assumes "descend f (a # b # ts) (JObject m) = Some j"
  obtains c c' where "map_of m a = Some c" "descend f (b # ts) c = Some c'"
    "j = JObject (map_insert a c' m)"
  using assms by (auto split: option.splits)

lemma descend_array:
  assumes "descend (leaf_op op) ts (JArray xs) = Some j"
  shows "\<exists>ys. j = JArray ys"
proof (cases ts)
  case (Cons t us)
  then show ?thesis
    using assms by (cases us) (auto simp: leaf_op_def split: option.splits patch_op.splits if_splits)
qed (use assms in simp)

lemma spec_no_index [simp]: "array_index ''spec'' = None" "array_index ''metadata'' = None"
  "array_index ''annotations'' = None" "array_index ''containers'' = None"
  "array_index ''initContainers'' = None"
  by code_simp+

lemma descend_field:
  assumes "descend f (a # b # ts) j = Some j'" and "array_index a = None"
  obtains m c c' where "j = JObject m" "map_of m a = Some c" "descend f (b # ts) c = Some c'"
    "j' = JObject (map_insert a c' m)"
  using assms by (cases j) (auto simp: at_index_def split: option.splits)

declare descend.simps(3) [simp del]

lemma apply_field_other:
  assumes "apply_op op j = Some j'" and "op_path op = a # b # ts" and "array_index a = None"
    and "k \<noteq> a"
  shows "pointer (k # ks) j' = pointer (k # ks) j"
  using assms unfolding apply_op_def by (auto elim!: descend_field)

section \<open>The mark\<close>

definition marked :: "json \<Rightarrow> bool" where
  "marked j \<longleftrightarrow> (\<exists>m. pointer [''metadata'', ''annotations''] j = Some (JObject m) \<and>
     map_of m (PREFIX @ STATUS) = Some (JString INJECTED))"

lemma status_no_index [simp]: "array_index (PREFIX @ STATUS) = None" "PREFIX @ STATUS \<noteq> ''-''"
  by code_simp+

lemma mark_sets:
  assumes "apply_op (AddAt [''metadata'', ''annotations'', PREFIX @ STATUS] (jstr INJECTED)) j = Some j'"
  shows "marked j'"
  using assms unfolding apply_op_def
  by (auto simp: op_path_def leaf_op_def marked_def jstr_def elim!: descend_field
      split: json.splits option.splits if_splits)

section \<open>Container lists stay lists\<close>

definition listed :: "json \<Rightarrow> bool" where
  "listed j \<longleftrightarrow> (\<exists>xs. pointer [''spec'', ''containers''] j = Some (JArray xs)) \<and>
     (\<forall>v. pointer [''spec'', ''initContainers''] j = Some v \<longrightarrow> (\<exists>xs. v = JArray xs))"

definition benign :: "patch_op \<Rightarrow> bool" where
  "benign op \<longleftrightarrow> op = AddAt [''spec'', ''initContainers''] (JArray []) \<or>
     (\<exists>k. op_path op = [''spec'', k] \<and> k \<noteq> ''containers'' \<and> k \<noteq> ''initContainers'') \<or>
     (\<exists>k t ts. op_path op = ''spec'' # k # t # ts)"

lemma benign_spec: "benign op \<Longrightarrow> \<exists>k ts. op_path op = ''spec'' # k # ts"
  by (auto simp: benign_def op_path_def)

lemma leaf_other:
  assumes "leaf_op op t (JObject m) = Some j"
  shows "\<exists>m'. j = JObject m' \<and> (\<forall>k. k \<noteq> t \<longrightarrow> map_of m' k = map_of m k)"
proof -
  have "map_of (filter (\<lambda>(k, _). k \<noteq> t) m) k = map_of m k" if "k \<noteq> t" for k
    using that by (induction m) auto
  then show ?thesis
    using assms by (auto simp: leaf_op_def split: patch_op.splits if_splits)
qed

lemma listed_spec:
  assumes "listed j"
  obtains m sm where "j = JObject m" "map_of m ''spec'' = Some (JObject sm)"
proof -
  obtain xs where xs: "pointer [''spec'', ''containers''] j = Some (JArray xs)"
    using assms by (auto simp: listed_def)
  then obtain c where c: "pointer_step ''spec'' j = Some c" "pointer_step ''containers'' c = Some (JArray xs)"
    by (auto split: option.splits)
  then obtain m where "j = JObject m" by (cases j) (auto simp: pointer_step_def split: option.splits)
  moreover obtain sm where "c = JObject sm"
    using c(2) by (cases c) (auto simp: pointer_step_def split: option.splits)
  ultimately show ?thesis using that c(1) by simp
qed

lemma listed_iff:
  assumes "map_of m ''spec'' = Some (JObject sm)"
  shows "listed (JObject m) \<longleftrightarrow> (\<exists>xs. map_of sm ''containers'' = Some (JArray xs)) \<and>
    (\<forall>v. map_of sm ''initContainers'' = Some v \<longrightarrow> (\<exists>xs. v = JArray xs))"
  using assms by (auto simp: listed_def split: option.splits)

lemma benign_listed:
  assumes "apply_op op j = Some j'" and "benign op" and "listed j"
  shows "listed j'"
proof -
  obtain m sm where j: "j = JObject m" "map_of m ''spec'' = Some (JObject sm)"
    by (rule listed_spec [OF assms(3)])
  obtain k ts where path: "op_path op = ''spec'' # k # ts" using benign_spec [OF assms(2)] by blast
  then have "descend (leaf_op op) (''spec'' # k # ts) j = Some j'"
    using assms(1) by (simp add: apply_op_def)
  then obtain c' where c': "descend (leaf_op op) (k # ts) (JObject sm) = Some c'"
    "j' = JObject (map_insert ''spec'' c' m)"
    by (rule descend_field) (use j in auto)
  have goal: "listed j'" if "c' = JObject sm'" "\<exists>xs. map_of sm' ''containers'' = Some (JArray xs)"
    "\<forall>v. map_of sm' ''initContainers'' = Some v \<longrightarrow> (\<exists>xs. v = JArray xs)" for sm'
    unfolding c'(2) using listed_iff [of "map_insert ''spec'' c' m" sm'] that by simp
  have old: "\<exists>xs. map_of sm ''containers'' = Some (JArray xs)"
    "\<forall>v. map_of sm ''initContainers'' = Some v \<longrightarrow> (\<exists>xs. v = JArray xs)"
    using assms(3) listed_iff [OF j(2)] j(1) by simp_all
  show ?thesis
  proof (cases ts)
    case Nil
    then have leaf: "leaf_op op k (JObject sm) = Some c'" using c'(1) by simp
    then obtain sm' where sm': "c' = JObject sm'" "\<forall>l. l \<noteq> k \<longrightarrow> map_of sm' l = map_of sm l"
      using leaf_other by blast
    show ?thesis
    proof (cases "op = AddAt [''spec'', ''initContainers''] (JArray [])")
      case True
      then have "c' = JObject (map_insert ''initContainers'' (JArray []) sm)"
        using leaf path by (simp add: leaf_op_def op_path_def)
      then show ?thesis by (rule goal) (use old in auto)
    next
      case False
      then have "k \<noteq> ''containers''" "k \<noteq> ''initContainers''"
        using assms(2) path Nil by (auto simp: benign_def)
      then show ?thesis using sm' old by (intro goal [of sm']) auto
    qed
  next
    case (Cons t us)
    then obtain d d' where d: "map_of sm k = Some d" "descend (leaf_op op) (t # us) d = Some d'"
      "c' = JObject (map_insert k d' sm)"
      using c'(1) by (auto elim: descend_object)
    have "\<exists>ys. d' = JArray ys" if "d = JArray xs" for xs
      using descend_array [of op "t # us"] d(2) that by blast
    then show ?thesis using d old by (intro goal [OF d(3)]) auto
  qed
qed

lemma benign_marked:
  assumes "apply_op op j = Some j'" and "benign op" and "marked j"
  shows "marked j'"
proof -
  obtain k ts where "op_path op = ''spec'' # k # ts" using benign_spec [OF assms(2)] by blast
  then have "pointer [''metadata'', ''annotations''] j' = pointer [''metadata'', ''annotations''] j"
    using apply_field_other [OF assms(1)] by simp
  then show ?thesis using assms(3) by (simp add: marked_def)
qed

section \<open>The agent's container\<close>

definition agent_names :: "string option set" where
  "agent_names = {Some ''dynamic-config-agent'', Some ''dynamic-config-init''}"

definition carries :: "json \<Rightarrow> bool" where
  "carries j \<longleftrightarrow> (\<exists>l xs c. l \<in> {''containers'', ''initContainers''} \<and>
     pointer [''spec'', l] j = Some (JArray xs) \<and> c \<in> set xs \<and> container_name c \<in> agent_names)"

lemma carries_injected: "carries j \<Longrightarrow> already_injected j"
  by (auto simp: carries_def already_injected_def containers_of_def list_ex_iff agent_names_def Let_def)

definition container_op :: "string \<Rightarrow> patch_op \<Rightarrow> json \<Rightarrow> bool" where
  "container_op t op c \<longleftrightarrow> (\<exists>l \<in> {''containers'', ''initContainers''}. op = AddAt [''spec'', l, t] c)"

definition append_op :: "patch_op \<Rightarrow> bool" where
  "append_op op \<longleftrightarrow> (\<exists>c. container_op ''-'' op c)"

lemma container_op_benign: "container_op t op c \<Longrightarrow> benign op"
  by (auto simp: container_op_def benign_def op_path_def)

lemma container_op_effect:
  assumes "apply_op op j = Some j'" and "container_op t op c" and "t = ''-'' \<or> t = ''0''" and "listed j"
  obtains l xs ys where "l \<in> {''containers'', ''initContainers''}"
    "pointer [''spec'', l] j = Some (JArray xs)" "pointer [''spec'', l] j' = Some (JArray ys)"
    "set ys = insert c (set xs)"
    "\<And>k. k \<noteq> l \<Longrightarrow> pointer [''spec'', k] j' = pointer [''spec'', k] j"
proof -
  obtain l where l: "l \<in> {''containers'', ''initContainers''}" "op = AddAt [''spec'', l, t] c"
    using assms(2) unfolding container_op_def by blast
  then have "descend (leaf_op op) [''spec'', l, t] j = Some j'"
    using assms(1) by (simp add: apply_op_def op_path_def)
  then obtain m s s' where s: "j = JObject m" "map_of m ''spec'' = Some s"
    "descend (leaf_op op) [l, t] s = Some s'" "j' = JObject (map_insert ''spec'' s' m)"
    by (rule descend_field) simp_all
  have "array_index l = None" using l(1) by auto
  with s(3) obtain sm d d' where d: "s = JObject sm" "map_of sm l = Some d"
    "leaf_op op t d = Some d'" "s' = JObject (map_insert l d' sm)"
    by (auto elim: descend_field)
  obtain xs where xs: "d = JArray xs" using assms(4) l(1) s d by (auto simp: listed_def)
  have "\<exists>ys. d' = JArray ys \<and> set ys = insert c (set xs)"
    using assms(3) d(3) xs l(2) by (auto simp: leaf_op_def array_index_def starts_with_def
        parse_uint_def digit_value_def)
  then show ?thesis using that [of l xs] l(1) s d xs by auto
qed

lemma container_op_carries:
  assumes "apply_op op j = Some j'" and "container_op t op c" and "t = ''-'' \<or> t = ''0''" and "listed j"
  shows "container_name c \<in> agent_names \<Longrightarrow> carries j'" and "carries j \<Longrightarrow> carries j'"
proof -
  obtain l xs ys where eff: "l \<in> {''containers'', ''initContainers''}"
    "pointer [''spec'', l] j = Some (JArray xs)" "pointer [''spec'', l] j' = Some (JArray ys)"
    "set ys = insert c (set xs)"
    "\<And>k. k \<noteq> l \<Longrightarrow> pointer [''spec'', k] j' = pointer [''spec'', k] j"
    using container_op_effect [OF assms] by blast
  show "container_name c \<in> agent_names \<Longrightarrow> carries j'"
    unfolding carries_def using eff(1,3,4) by blast
  assume "carries j"
  then obtain k zs d where c: "k \<in> {''containers'', ''initContainers''}"
    "pointer [''spec'', k] j = Some (JArray zs)" "d \<in> set zs" "container_name d \<in> agent_names"
    unfolding carries_def by blast
  show "carries j'"
  proof (cases "k = l")
    case True
    then have "d \<in> set ys" using c eff(2,4) by simp
    then show ?thesis unfolding carries_def using c eff(3) True by blast
  next
    case False
    then show ?thesis unfolding carries_def using c eff(5) by metis
  qed
qed

section \<open>The whole list\<close>

lemma apply_ops_append:
  "apply_ops (a @ b) j = (case apply_ops a j of None \<Rightarrow> None | Some j' \<Rightarrow> apply_ops b j')"
  by (induction a arbitrary: j) (auto split: option.splits)

lemma apply_benign:
  "apply_ops ops j = Some j' \<Longrightarrow> list_all benign ops \<Longrightarrow> listed j \<Longrightarrow> marked j \<Longrightarrow> listed j' \<and> marked j'"
  by (induction ops arbitrary: j) (auto split: option.splits dest: benign_listed benign_marked)

lemma apply_appends:
  "apply_ops ops j = Some j' \<Longrightarrow> list_all append_op ops \<Longrightarrow>
     listed j \<Longrightarrow> carries j \<Longrightarrow> carries j'"
  by (induction ops arbitrary: j)
    (auto simp: append_op_def split: option.splits
      dest: container_op_carries(2) benign_listed [OF _ container_op_benign])

lemma agent_container_name: "container_name (agent_container env r watch) \<in> agent_names"
  and always_container_name: "container_name (always (agent_container env r True)) \<in> agent_names"
proof -
  have obj: "\<exists>m. agent_container env r w = JObject m" for w by (simp add: agent_container_def jobj_def)
  have name: "jget ''name'' (agent_container env r w)
      = Some (jstr (if w then ''dynamic-config-agent'' else ''dynamic-config-init''))" for w
    by (simp add: agent_container_def jget_jobj map_of_eq_None_iff port_fields_def env_fields_def
        map_add_def split: option.splits)
  have as_pointer: "container_name (JObject m) =
      (case jget ''name'' (JObject m) of None \<Rightarrow> None | Some j \<Rightarrow> as_str j)" for m
    by (simp add: container_name_def split: option.splits)
  show "container_name (agent_container env r watch) \<in> agent_names"
    using obj [of watch] name [of watch] as_pointer
    by (auto simp: agent_names_def jstr_def split: if_splits)
  show "container_name (always (agent_container env r True)) \<in> agent_names"
    using obj [of True] name [of True] as_pointer
    by (auto simp: agent_names_def jstr_def always_def jset_def)
qed


lemma benign_volume [simp]:
  "benign (add_volume v)" "list_all benign (configmap_volume name c)"
  "list_all benign (secret_volume name bits s)"
  by (simp_all add: add_volume_def configmap_volume_def secret_volume_def benign_def op_path_def
      split: option.splits)

lemma list_all_concat: "(\<And>x. x \<in> set xs \<Longrightarrow> list_all P (f x)) \<Longrightarrow> list_all P (concat (map f xs))"
  by (auto simp: list_all_iff)

lemma volume_ops_benign: "list_all benign (volume_ops pod r)"
proof -
  have "list_all benign (extra_volumes x)" for x by (simp add: extra_volumes_def Let_def)
  moreover have "benign (AddAt [''spec'', ''volumes''] (JArray []))" by (simp add: benign_def op_path_def)
  ultimately show ?thesis by (simp add: volume_ops_def list_all_concat)
qed

lemma benign_below [simp]: "op_path op = ''spec'' # k # t # ts \<Longrightarrow> benign op"
  by (auto simp: benign_def)

lemma mount_ops_benign: "list_all benign (mount_ops pod r)"
  unfolding mount_ops_def
  by (rule list_all_concat) (simp add: mount_ops_at_def op_path_def split: prod.split)

lemma pull_ops_benign: "list_all benign (pull_ops env pod)"
proof -
  have "benign (AddAt [''spec'', ''imagePullSecrets''] j)" for j by (simp add: benign_def op_path_def)
  then show ?thesis by (simp add: pull_ops_def op_path_def split: option.split)
qed

lemma wrap_ops_benign: "list_all benign (wrap_ops pod r)"
proof -
  have "list_all benign (wrap_ops_at r name entry)" for name entry
    by (simp add: wrap_ops_at_def op_path_def Let_def split: prod.split option.split)
  then show ?thesis by (simp add: wrap_ops_def list_all_concat split: option.split)
qed

lemma no_init_benign: "list_all benign (no_init pod)"
  by (simp add: no_init_def benign_def)

lemmas ops_benign = volume_ops_benign mount_ops_benign pull_ops_benign wrap_ops_benign no_init_benign

lemma append_op_at [simp]:
  "append_op (AddAt [''spec'', ''containers'', ''-''] c)"
  "append_op (AddAt [''spec'', ''initContainers'', ''-''] c)"
  by (auto simp: append_op_def container_op_def)

lemma append_op_list [simp]:
  "list_all append_op (map (\<lambda>x. AddAt [''spec'', ''containers'', ''-''] (f x)) xs)"
  "list_all append_op (map (\<lambda>x. AddAt [''spec'', ''initContainers'', ''-''] (f x)) xs)"
  by (induction xs) simp_all

definition agent_op :: "patch_op \<Rightarrow> bool" where
  "agent_op op \<longleftrightarrow>
     (\<exists>t c. container_op t op c \<and> (t = ''-'' \<or> t = ''0'') \<and> container_name c \<in> agent_names)"

lemma agent_op_at:
  "container_name c \<in> agent_names \<Longrightarrow> agent_op (AddAt [''spec'', ''containers'', ''-''] c)"
  "container_name c \<in> agent_names \<Longrightarrow> agent_op (AddAt [''spec'', ''initContainers'', ''-''] c)"
  "container_name c \<in> agent_names \<Longrightarrow> agent_op (AddAt [''spec'', ''initContainers'', ''0''] c)"
  by (auto simp: agent_op_def container_op_def)

lemma sidecar_split:
  assumes "runs_agent (rq_mode r)"
  obtains pre op post where "sidecar_ops env pod r = pre @ [op] @ post" "list_all benign pre"
    "agent_op op" "append_op op" "list_all append_op post" "rq_mode r = Both \<Longrightarrow> pre = []"
proof (cases "rq_native_sidecar r")
  case True
  show ?thesis
  proof (rule that)
    show "sidecar_ops env pod r = (if rq_mode r \<noteq> Both then no_init pod else [])
        @ [AddAt [''spec'', ''initContainers'', ''-''] (always (agent_container env r True))]
        @ map (\<lambda>x. AddAt [''spec'', ''initContainers'', ''-''] (always (extra_container env r x True)))
            (rq_extra r)"
      using assms True by (simp add: sidecar_ops_def)
  qed (simp_all add: no_init_benign agent_op_at always_container_name)
next
  case False
  show ?thesis
  proof (rule that)
    show "sidecar_ops env pod r = []
        @ [AddAt [''spec'', ''containers'', ''-''] (agent_container env r True)]
        @ map (\<lambda>x. AddAt [''spec'', ''containers'', ''-''] (extra_container env r x True)) (rq_extra r)"
      using assms False by (simp add: sidecar_ops_def)
  qed (simp_all add: agent_op_at agent_container_name)
qed

lemma patches_split:
  obtains pre op post where "patches_for env pod r = mark_ops pod @ pre @ [op] @ post"
    "list_all benign pre" "agent_op op" "list_all append_op post"
proof (cases "rq_mode r = Sidecar")
  case True
  then have agent: "runs_agent (rq_mode r)" and no_init: "init_ops env pod r = []"
    by (simp_all add: runs_agent_def init_ops_def runs_init_def)
  obtain pre op post where parts: "sidecar_ops env pod r = pre @ [op] @ post" "list_all benign pre"
    "agent_op op" "list_all append_op post"
    by (rule sidecar_split [OF agent, of env pod]) blast
  show ?thesis
  proof (rule that)
    show "patches_for env pod r = mark_ops pod @ (volume_ops pod r @ mount_ops pod r @ pull_ops env pod
        @ wrap_ops pod r @ pre) @ [op] @ post"
      by (simp add: patches_for_def parts no_init)
  qed (simp_all add: ops_benign parts)
next
  case False
  let ?op = "AddAt [''spec'', ''initContainers'', if rq_init_first r then ''0'' else ''-'']
             (agent_container env r False)"
  let ?extras = "map (\<lambda>x. AddAt [''spec'', ''initContainers'', ''-''] (extra_container env r x False)) (rq_extra r)"
  have init: "init_ops env pod r = no_init pod @ [?op] @ ?extras"
    using False by (cases "rq_mode r") (simp_all add: init_ops_def runs_init_def)
  have rest: "list_all append_op (sidecar_ops env pod r)"
  proof (cases "rq_mode r")
    case Both
    then have "runs_agent (rq_mode r)" by (simp add: runs_agent_def)
    then obtain pre op post where "sidecar_ops env pod r = pre @ [op] @ post" "list_all append_op post"
      "append_op op" "rq_mode r = Both \<Longrightarrow> pre = []"
      by (rule sidecar_split [of r env pod]) blast
    then show ?thesis using Both by simp
  qed (use False in \<open>simp_all add: sidecar_ops_def runs_agent_def\<close>)
  show ?thesis
  proof (rule that)
    show "patches_for env pod r = mark_ops pod @ (volume_ops pod r @ mount_ops pod r @ pull_ops env pod
        @ wrap_ops pod r @ no_init pod) @ [?op] @ (?extras @ sidecar_ops env pod r)"
      by (simp add: patches_for_def init)
  qed (simp_all add: ops_benign rest agent_op_at agent_container_name)
qed

section \<open>A pod that is patched\<close>

definition example_record :: Request where
  "example_record = \<lparr> rq_source = ''vault'', rq_endpoint = Some ''https://v'', rq_key = ''k'',
     rq_path = ''/c/a.json'', rq_mode = Both, rq_watch_seconds = 30,
     rq_arguments = [(''--file-mode'', ''0640'')], rq_secret_env = [], rq_ca = None, rq_ssh = None,
     rq_tls = None, rq_template = None, rq_volume_memory = True, rq_native_sidecar = False,
     rq_resources = \<lparr> cpu_request = ''10m'', memory_request = ''32Mi'', cpu_limit = None,
           memory_limit = ''64Mi'', ephemeral_request = None, ephemeral_limit = None \<rparr>,
     rq_file_mode = Some ''640'', rq_run_as_user = Some 1000, rq_run_as_group = None,
     rq_env_inject = None, rq_env_restart = False, rq_metrics_port = None, rq_notify_http = None,
     rq_on_drift = None, rq_tls_reload = True, rq_history = None, rq_require_ack = False,
     rq_canary = None, rq_agent_image = None, rq_timeout = None, rq_events = False,
     rq_revoke_grace = None, rq_init_first = False, rq_extra_secret = None,
     rq_tls_server_name = None, rq_tls_skip_verify = False, rq_inject_containers = None,
     rq_readiness = True, rq_meta = False, rq_schema = None, rq_also = [], rq_dynamic = False,
     rq_revoke_on_shutdown = True, rq_aws_secret = None, rq_agent_env = [], rq_fleet_env = [],
     rq_extra = [] \<rparr>"

lemma example_read: "of_pod_with example_pod pinning_install = Inr (Some example_record)"
proof -
  have "annotations_of example_pod = Some example_notes" by code_simp
  moreover have "defaulted [] example_get ''tls-server-name'' = None" "example_get ''extra-secret'' = None"
    "fleet_env_of pinning_install [] None = []" by code_simp+
  ultimately show ?thesis
    by (simp only: of_pod_with_def read_request_def example_stages Let_def rbind_Inr prod.case
        option.case if_True if_False not_True_eq_False simp_thms ensure_simps ok_or_simps rmap.simps
        example_record_def append_Nil)
qed

definition example_env :: webhook_env where
  "example_env = \<lparr> default_image = ''agent'', pull_secret = None \<rparr>"

lemma example_ops:
  "patches_for example_env example_pod example_record =
    [AddAt [''metadata'', ''annotations'', PREFIX @ STATUS] (jstr INJECTED),
     AddAt [''spec'', ''volumes''] (JArray []),
     add_volume (jobj [(''name'', jstr ''dynamic-config''),
       (''emptyDir'', jobj [(''medium'', jstr ''Memory''), (''sizeLimit'', jstr VOLUME_LIMIT)])]),
     AddAt [''spec'', ''containers'', show_nat 0, ''volumeMounts''] (JArray []),
     AddAt [''spec'', ''containers'', show_nat 0, ''volumeMounts'', ''-''] (render_mount example_record),
     AddAt [''spec'', ''initContainers''] (JArray []),
     AddAt [''spec'', ''initContainers'', ''-''] (agent_container example_env example_record False),
     AddAt [''spec'', ''containers'', ''-''] (agent_container example_env example_record True)]"
proof -
  have shape: "(pointer [''metadata'', ''annotations''] example_pod = None) = False"
    "pointer [''spec'', ''volumes''] example_pod = None"
    "pointer [''spec'', ''initContainers''] example_pod = None"
    "app_containers example_pod = [(0, JObject [(''name'', JString ''app''),
        (''securityContext'', JObject [(''runAsUser'', JNum 2000)])])]"
    "pointer [''volumeMounts''] (JObject [(''name'', JString ''app''),
        (''securityContext'', JObject [(''runAsUser'', JNum 2000)])]) = None"
    by (simp_all add: example_pod_def pod_with_def app_containers_def containers_of_def)
  show ?thesis
    by (simp add: patches_for_def mark_ops_def volume_ops_def mount_ops_def mount_ops_at_def shape
        pull_ops_def wrap_ops_def init_ops_def sidecar_ops_def no_init_def example_record_def
        runs_init_def runs_agent_def example_env_def receives_def configmap_volume_def
        secret_volume_def del: pointer.simps)
qed

lemma example_applies: "\<exists>patched. apply_ops (patches_for example_env example_pod example_record) example_pod = Some patched"
  unfolding example_ops
  by (simp add: apply_op_def op_path_def leaf_op_def add_volume_def example_pod_def pod_with_def
     example_notes_def ann_def PREFIX_def at_index_def array_index_def parse_uint_def digit_value_def
     starts_with_def show_radix.simps digit_char_def STATUS_def descend.simps) code_simp
section \<open>Properties\<close>

lemma accepted_annotations: "of_pod_with pod inst = Inr (Some r) \<Longrightarrow> \<exists>m. annotations_of pod = Some m"
  by (erule of_pod_with_request) simp

lemma marked_carries_untouched:
  assumes "marked j" and "carries j"
  shows "of_pod_with j inst = Inr None"
proof -
  obtain m where m: "annotations_of j = Some m" "annotation m STATUS = Some INJECTED"
    using assms(1) by (auto simp: marked_def annotations_of_def annotation_def)
  then show ?thesis
    using carries_injected [OF assms(2)] by (simp add: of_pod_with_def asked_def)
qed

text \<open>C12: a mutating webhook is called more than once. Applying the patch of an accepted pod leaves
  a pod that a later admission, under any installation, passes without a second patch.\<close>

theorem injection_is_idempotent:
  assumes "of_pod_with pod inst = Inr (Some r)" and "listed pod"
    and "apply_ops (patches_for env pod r) pod = Some patched"
  shows "of_pod_with patched inst' = Inr None"
proof -
  obtain m where m: "annotations_of pod = Some m" using accepted_annotations [OF assms(1)] by blast
  then have mark: "mark_ops pod = [AddAt [''metadata'', ''annotations'', PREFIX @ STATUS] (jstr INJECTED)]"
    by (auto simp: mark_ops_def annotations_of_def split: option.splits)
  obtain pre op post where split: "patches_for env pod r = mark_ops pod @ pre @ [op] @ post"
    "list_all benign pre" "list_all append_op post" "agent_op op"
    by (rule patches_split [of env pod r]) blast
  then obtain j1 j2 j3 where steps: "apply_ops (mark_ops pod) pod = Some j1" "apply_ops pre j1 = Some j2"
    "apply_op op j2 = Some j3" "apply_ops post j3 = Some patched"
    using assms(3) by (auto simp: apply_ops_append split: option.splits)
  have applied: "apply_op (AddAt [''metadata'', ''annotations'', PREFIX @ STATUS] (jstr INJECTED)) pod = Some j1"
    using steps(1) mark by (auto split: option.splits)
  have "pointer (''spec'' # p) j1 = pointer (''spec'' # p) pod" for p
    using apply_field_other [OF applied] by (simp add: op_path_def)
  then have "listed j1" using assms(2) by (simp add: listed_def)
  then have j2: "listed j2" "marked j2"
    using apply_benign [OF steps(2) split(2)] mark_sets [OF applied] by blast+
  obtain t c where op: "container_op t op c" "t = ''-'' \<or> t = ''0''" "container_name c \<in> agent_names"
    using split(4) by (auto simp: agent_op_def)
  have j3: "listed j3" "marked j3" "carries j3"
    using benign_listed [OF steps(3) container_op_benign [OF op(1)] j2(1)]
      benign_marked [OF steps(3) container_op_benign [OF op(1)] j2(2)]
      container_op_carries(1) [OF steps(3) op(1,2) j2(1) op(3)] by blast+
  have "list_all benign post" using split(3) by (auto simp: list_all_iff append_op_def dest: container_op_benign)
  then have "marked patched" using apply_benign [OF steps(4)] j3 by blast
  moreover have "carries patched" using apply_appends [OF steps(4)] split(3) j3 by simp
  ultimately show ?thesis by (rule marked_carries_untouched)
qed


theorem injection_is_idempotent_witness:
  "\<exists>patched. apply_ops (patches_for example_env example_pod example_record) example_pod = Some patched \<and>
     of_pod_with patched bare_install = Inr None"
proof -
  have "listed example_pod" by (simp add: listed_def example_pod_def pod_with_def)
  then show ?thesis using example_applies injection_is_idempotent [OF example_read] by blast
qed

section \<open>The names the collision check reserves\<close>

text \<open>
  \<open>collides\<close> numbers the named renders where \<open>patches_for\<close> names them by their suffix, so a pod
  whose own container has a named render's agent's name is not refused.
\<close>

definition db_render :: ExtraRender where
  "db_render = \<lparr> x_name = ''db'', x_metrics_port = None, x_source = ''vault'', x_endpoint = None,
     x_key = ''k'', x_path = ''/c/db.json'', x_watch_seconds = 15, x_arguments = [],
     x_secret_env = [], x_ca = None, x_ssh = None, x_tls = None, x_template = None \<rparr>"

definition taken_pod :: json where
  "taken_pod = JObject [(''spec'', JObject [(''containers'',
     JArray [JObject [(''name'', JString ''dynamic-config-agent-db'')]])])]"

lemma collision_missed:
  "container_names taken_pod = [''dynamic-config-agent-db'']"
  "container_name (extra_container env r db_render True) = Some ''dynamic-config-agent-db''"
  "collides taken_pod (example_record \<lparr> rq_extra := [db_render] \<rparr>) = None"
proof -
  show names: "container_names taken_pod = [''dynamic-config-agent-db'']"
    by (simp add: container_names_def taken_pod_def containers_of_def name_field_def map_filter_simps)
  have "jget ''name'' (extra_container env r db_render True) = Some (JString ''dynamic-config-agent-db'')"
    by (simp add: extra_container_def jget_jobj db_render_def port_fields_def env_fields_def jstr_def)
  then show "container_name (extra_container env r db_render True) = Some ''dynamic-config-agent-db''"
    by (simp add: container_name_def extra_container_def jobj_def)
  show "collides taken_pod (example_record \<lparr> rq_extra := [db_render] \<rparr>) = None"
    by (simp add: collides_def names wanted_names_def example_record_def runs_agent_def runs_init_def
        show_radix.simps)
qed

end
