(* ===== verification/Classes.thy ===== *)
theory Classes
  imports Json
begin

text \<open>
  \<open>classes.rs\<close>: what a DynamicConfigClass or ClusterDynamicConfigClass says about a store, the list
  the API server answers read into a map, and the cache that admission reads and the poll
  replaces. Calling the API server is the poll's; its outcome is an argument.
\<close>

record Class =
  class_source :: string
  class_endpoint :: string
  class_token_secret :: "string option"
  class_namespaces :: "string list option"
  credential_elsewhere :: "string option"

type_synonym Classes = "string \<times> string \<rightharpoonup> Class"

definition admits :: "Class \<Rightarrow> string \<Rightarrow> bool" where
  "admits c namespace =
     (case class_namespaces c of
        None \<Rightarrow> True
      | Some allowed \<Rightarrow> allowed = [] \<or> namespace \<in> set allowed)"

definition no_classes :: Classes where
  "no_classes = Map.empty"

definition replace_classes :: "Classes \<Rightarrow> Classes \<Rightarrow> Classes" where
  "replace_classes polled held = polled"

definition resolve :: "Classes \<Rightarrow> string \<Rightarrow> string \<Rightarrow> Class option" where
  "resolve held namespace name = or_else (held (namespace, name)) (held ([], name))"

definition str_at :: "string list \<Rightarrow> json \<Rightarrow> string option" where
  "str_at p j = (case pointer p j of None \<Rightarrow> None | Some v \<Rightarrow> as_str v)"

definition str_field :: "string \<Rightarrow> json \<Rightarrow> string option" where
  "str_field k j = (case jget k j of None \<Rightarrow> None | Some v \<Rightarrow> as_str v)"

text \<open>
  The credential of one item: nothing, a Secret beside a namespaced class, or a Secret anywhere for
  a cluster class, which is skipped when its reference is incomplete (\<open>None\<close>).
\<close>

definition credential_of :: "json \<Rightarrow> bool \<Rightarrow> (string option \<times> string option) option" where
  "credential_of item namespaced =
     (if namespaced
      then Some (map_option (\<lambda>secret. secret @ ''/token'') (str_at [''spec'', ''tokenSecret''] item), None)
      else (case pointer [''spec'', ''tokenSecret''] item of
              None \<Rightarrow> Some (None, None)
            | Some reference \<Rightarrow>
                (case (str_field ''name'' reference, str_field ''namespace'' reference) of
                   (Some secret, Some holds) \<Rightarrow>
                     Some (Some (secret @ ''/'' @ unwrap_or (str_field ''key'' reference) ''token''),
                           Some holds)
                 | _ \<Rightarrow> None)))"

definition namespaces_of :: "json \<Rightarrow> bool \<Rightarrow> string list option" where
  "namespaces_of item namespaced =
     (if namespaced then None
      else Some (case pointer [''spec'', ''namespaces''] item of
                   None \<Rightarrow> []
                 | Some j \<Rightarrow> (case as_array j of
                     None \<Rightarrow> []
                   | Some xs \<Rightarrow> List.map_filter as_str xs)))"

definition class_of_item :: "bool \<Rightarrow> json \<Rightarrow> ((string \<times> string) \<times> Class) option" where
  "class_of_item namespaced item =
     (case (str_at [''metadata'', ''name''] item, str_at [''spec'', ''source''] item,
            str_at [''spec'', ''endpoint''] item, credential_of item namespaced) of
        (Some name, Some source, Some endpoint, Some (token, elsewhere)) \<Rightarrow>
          Some ((if namespaced then unwrap_or (str_at [''metadata'', ''namespace''] item) [] else [],
                 name),
                \<lparr> class_source = source, class_endpoint = endpoint, class_token_secret = token,
                  class_namespaces = namespaces_of item namespaced,
                  credential_elsewhere = elsewhere \<rparr>)
      | _ \<Rightarrow> None)"

definition from_list :: "json \<Rightarrow> bool \<Rightarrow> Classes" where
  "from_list list namespaced =
     (case jget ''items'' list of
        None \<Rightarrow> no_classes
      | Some j \<Rightarrow>
          (case as_array j of
             None \<Rightarrow> no_classes
           | Some items \<Rightarrow>
               foldl (\<lambda>m (k, c). m(k \<mapsto> c)) no_classes
                 (List.map_filter (class_of_item namespaced) items)))"

text \<open>One poll: both lists, the namespaced one on top; a list that fails keeps what was held.\<close>

definition list_classes :: "'e + json \<Rightarrow> 'e + json \<Rightarrow> 'e + Classes" where
  "list_classes cluster namespaced =
     rbind cluster (\<lambda>c. rbind namespaced (\<lambda>n. Inr (from_list c False ++ from_list n True)))"

definition poll_once :: "'e + Classes \<Rightarrow> Classes \<Rightarrow> Classes" where
  "poll_once listed held =
     (case listed of Inl _ \<Rightarrow> held | Inr classes \<Rightarrow> replace_classes classes held)"

section \<open>The interface: a slot whose latest value is what readers see\<close>

locale latest =
  fixes put :: "'v \<Rightarrow> 's \<Rightarrow> 's" and get :: "'s \<Rightarrow> 'v"
  assumes get_put: "get (put v s) = v"
begin

definition puts :: "'v list \<Rightarrow> 's \<Rightarrow> 's" where
  "puts vs s = foldl (\<lambda>s v. put v s) s vs"

lemma get_puts: "get (puts (vs @ [v]) s) = v"
  by (simp add: puts_def get_put)

lemma get_puts_any: "vs \<noteq> [] \<Longrightarrow> get (puts vs s) = last vs"
  by (cases vs rule: rev_cases) (simp_all add: get_puts)

end

interpretation class_cache: latest replace_classes id
  by unfold_locales (simp add: replace_classes_def)

section \<open>Facts\<close>

lemma resolve_own_first: "held (namespace, name) = Some c \<Longrightarrow> resolve held namespace name = Some c"
  by (simp add: resolve_def)

lemma from_list_entry:
  assumes "from_list list namespaced k = Some c"
  shows "\<exists>item. class_of_item namespaced item = Some (k, c)"
proof -
  have fold: "foldl (\<lambda>m (k, c). m(k \<mapsto> c)) m0 kcs k = Some c \<Longrightarrow> m0 k = Some c \<or> (k, c) \<in> set kcs"
    for m0 :: Classes and kcs
  proof (induction kcs arbitrary: m0)
    case (Cons kc kcs)
    obtain k' c' where kc: "kc = (k', c')" by (cases kc)
    have "foldl (\<lambda>m (k, c). m(k \<mapsto> c)) (m0(k' \<mapsto> c')) kcs k = Some c"
      using Cons.prems by (simp only: kc foldl.simps prod.case)
    then have "(m0(k' \<mapsto> c')) k = Some c \<or> (k, c) \<in> set kcs" by (rule Cons.IH)
    then show ?case by (auto simp: kc split: if_splits)
  qed simp
  have "set (List.map_filter f xs) = {y. \<exists>x \<in> set xs. f x = Some y}" for f :: "json \<Rightarrow> ((string \<times> string) \<times> Class) option" and xs
    by (induction xs) (auto simp: map_filter_simps split: option.splits)
  then show ?thesis
    using assms
    by (auto simp: from_list_def no_classes_def split: option.splits dest!: fold)
qed

lemma namespaced_entry:
  assumes "from_list list True (namespace, name) = Some c"
  shows "class_namespaces c = None \<and> credential_elsewhere c = None"
proof -
  obtain item where "class_of_item True item = Some ((namespace, name), c)"
    using from_list_entry [OF assms] by blast
  then show ?thesis
    by (auto simp: class_of_item_def credential_of_def namespaces_of_def split: option.split_asm prod.split_asm)
qed

lemma cluster_entry:
  assumes "from_list list False (namespace, name) = Some c"
  shows "namespace = [] \<and> class_namespaces c \<noteq> None"
proof -
  obtain item where "class_of_item False item = Some ((namespace, name), c)"
    using from_list_entry [OF assms] by blast
  then show ?thesis
    by (auto simp: class_of_item_def namespaces_of_def split: option.split_asm prod.split_asm)
qed

text \<open>A class read from the lists reaches a pod's namespace only as its own or as a cluster class.\<close>

lemma resolve_scope:
  assumes "list_classes cluster namespaced = Inr held" and "resolve held namespace name = Some c"
    and "namespace \<noteq> []"
  shows "class_namespaces c \<noteq> None \<or>
    (\<exists>list. namespaced = Inr list \<and>
       (from_list list True (namespace, name) = Some c \<or> from_list list True ([], name) = Some c))"
proof -
  obtain cl ns where lists: "cluster = Inr cl" "namespaced = Inr ns"
    "held = from_list cl False ++ from_list ns True"
    using assms(1) by (auto simp: list_classes_def res_simps)
  have "held (namespace, name) = Some c \<or> held ([], name) = Some c"
    using assms(2) by (auto simp: resolve_def or_else_def split: option.splits)
  then show ?thesis
    using lists cluster_entry by (auto simp: map_add_Some_iff)
qed

end
