(* ===== verification/Admission.thy ===== *)
theory Admission
  imports Injected Classes
begin

text \<open>
  The admission handler (\<open>patch.rs\<close>): the class a pod names written into its annotations, the
  contract, the installation's gates, the collision check, and the answer. The review's envelope
  and the JSON bytes of the patch are the crate's; the bytes are a parameter.
\<close>

datatype reason = POLICY | PINNED | MALFORMED | CONFLICT

definition reason_slug :: "reason \<Rightarrow> string" where
  "reason_slug r =
     (case r of
        POLICY \<Rightarrow> ''DynamicConfigPolicy''
      | PINNED \<Rightarrow> ''DynamicConfigPinned''
      | MALFORMED \<Rightarrow> ''DynamicConfigMalformed''
      | CONFLICT \<Rightarrow> ''DynamicConfigConflict'')"

datatype cause =
    ClassNotVisible string
  | ClassNotAdmitted string string
  | CredentialElsewhere string string
  | SourceOff string string
  | SourceNotAllowed string string string
  | EnvNotAllowed string string string
  | NameTaken string
  | Contract refusal

datatype answer =
    Allow
  | AllowPatched string "warning list" "deprecation list"
  | Refuse nat reason cause

record response =
  uid :: string
  answer :: answer

section \<open>The class a pod names\<close>

definition fill :: "string \<Rightarrow> string \<Rightarrow> (string \<times> json) list \<Rightarrow> (string \<times> json) list" where
  "fill name v notes =
     (if map_of notes (PREFIX @ name) = None then map_insert (PREFIX @ name) (jstr v) notes else notes)"

definition class_notes :: "Class \<Rightarrow> (string \<times> json) list \<Rightarrow> (string \<times> json) list" where
  "class_notes c notes =
     (let filled = fill ''endpoint'' (class_endpoint c) (fill ''source'' (class_source c) notes) in
      case class_token_secret c of None \<Rightarrow> filled | Some s \<Rightarrow> fill ''token-secret'' s filled)"

text \<open>\<open>pointer_mut\<close> on the annotations, which the caller has found to be an object.\<close>

definition set_annotations :: "(string \<times> json) list \<Rightarrow> json \<Rightarrow> json" where
  "set_annotations notes pod =
     (case pod of
        JObject m \<Rightarrow>
          (case map_of m ''metadata'' of
             Some (JObject meta) \<Rightarrow>
               JObject (map_insert ''metadata'' (JObject (map_insert ''annotations'' (JObject notes) meta)) m)
           | _ \<Rightarrow> pod)
      | _ \<Rightarrow> pod)"

definition with_class :: "json \<Rightarrow> string \<Rightarrow> Classes \<Rightarrow> (reason \<times> cause) + json option" where
  "with_class pod namespace classes =
     (case annotations_of pod of
        None \<Rightarrow> Inr None
      | Some notes \<Rightarrow>
          (if annotation notes STATUS = Some INJECTED then Inr None
           else (case annotation notes ''class'' of
             None \<Rightarrow> Inr None
           | Some named \<Rightarrow>
               (case resolve classes namespace named of
                  None \<Rightarrow> Inl (POLICY, ClassNotVisible named)
                | Some c \<Rightarrow>
                    if \<not> admits c namespace then Inl (POLICY, ClassNotAdmitted named namespace)
                    else (case credential_elsewhere c of
                            Some holds \<Rightarrow>
                              if holds \<noteq> namespace then Inl (POLICY, CredentialElsewhere named holds)
                              else Inr (Some (set_annotations (class_notes c notes) pod))
                          | None \<Rightarrow> Inr (Some (set_annotations (class_notes c notes) pod)))))))"

section \<open>The gates\<close>

definition request_sources :: "Request \<Rightarrow> string list" where
  "request_sources r = rq_source r # map x_source (rq_extra r)"

definition source_gate :: "Installation \<Rightarrow> string \<Rightarrow> string \<Rightarrow> (reason \<times> cause) + unit" where
  "source_gate inst namespace source =
     (if source_denied inst namespace source then Inl (POLICY, SourceOff source namespace)
      else if \<not> source_allowed inst namespace source
      then Inl (POLICY, SourceNotAllowed source namespace (source_listing inst namespace))
      else Inr ())"

definition env_gate :: "Installation \<Rightarrow> string \<Rightarrow> string \<times> string \<Rightarrow> (reason \<times> cause) + unit" where
  "env_gate inst namespace entry =
     (if agent_env_allowed inst namespace (fst entry) then Inr ()
      else Inl (POLICY, EnvNotAllowed (fst entry) namespace (agent_env_listing inst namespace)))"

definition gates :: "Installation \<Rightarrow> string \<Rightarrow> json \<Rightarrow> Request \<Rightarrow> (reason \<times> cause) + unit" where
  "gates inst namespace pod r =
     rbind (rmap (source_gate inst namespace) (request_sources r)) (\<lambda>_.
     rbind (rmap (env_gate inst namespace) (rq_agent_env r)) (\<lambda>_.
     case collides pod r of
       Some taken \<Rightarrow> Inl (CONFLICT, NameTaken taken)
     | None \<Rightarrow> Inr ()))"

section \<open>The answer\<close>

definition classify :: "refusal \<Rightarrow> reason" where
  "classify r = (if mentions_pins r then PINNED else MALFORMED)"

definition pod_answer :: "(patch_op list \<Rightarrow> 8 word list) \<Rightarrow> webhook_env \<Rightarrow> Installation \<Rightarrow> string \<Rightarrow> json
    \<Rightarrow> answer" where
  "pod_answer to_vec env inst namespace pod =
     (case of_pod_with pod inst of
        Inl refused \<Rightarrow> Refuse 400 (classify refused) (Contract refused)
      | Inr None \<Rightarrow> Allow
      | Inr (Some r) \<Rightarrow>
          (case gates inst namespace pod r of
             Inl (why, what) \<Rightarrow> Refuse 400 why what
           | Inr _ \<Rightarrow>
               AllowPatched (webhook_base64 (to_vec (patches_for env pod r))) (warnings r)
                 (deprecations (case annotations_of pod of None \<Rightarrow> [] | Some m \<Rightarrow> map fst m))))"

definition admission_response :: "(patch_op list \<Rightarrow> 8 word list) \<Rightarrow> webhook_env \<Rightarrow> Installation
    \<Rightarrow> Classes \<Rightarrow> json \<Rightarrow> response" where
  "admission_response to_vec env inst classes review =
     (let namespace = unwrap_or (str_at [''request'', ''namespace''] review) [] in
      \<lparr> uid = unwrap_or (str_at [''request'', ''uid''] review) [],
        answer =
          (case pointer [''request'', ''object''] review of
             None \<Rightarrow> Allow
           | Some pod \<Rightarrow>
               (case with_class pod namespace classes of
                  Inl (why, what) \<Rightarrow> Refuse 403 why what
                | Inr None \<Rightarrow> pod_answer to_vec env inst namespace pod
                | Inr (Some filled) \<Rightarrow> pod_answer to_vec env inst namespace filled)) \<rparr>)"

section \<open>The interface: a gate that decides names in a scope\<close>

text \<open>
  A gate answers for one name; passing a list of names is passing each of them. What a client
  relies on: whoever passed was denied nothing and allowed everything, whichever name came first.
\<close>

locale gate =
  fixes check :: "'scope \<Rightarrow> 'name \<Rightarrow> 'e + unit"
    and denied :: "'scope \<Rightarrow> 'name \<Rightarrow> bool"
    and allowed :: "'scope \<Rightarrow> 'name \<Rightarrow> bool"
  assumes passes: "check s n = Inr u \<longleftrightarrow> \<not> denied s n \<and> allowed s n"
begin

lemma all_pass: "rmap (check s) ns = Inr us \<Longrightarrow> \<forall>n \<in> set ns. \<not> denied s n \<and> allowed s n"
  by (induction ns arbitrary: us) (auto simp: res_simps passes)

lemma denied_refused:
  assumes "n \<in> set ns" and "denied s n"
  shows "\<exists>e. rmap (check s) ns = Inl e"
  using all_pass [of s ns] assms by (cases "rmap (check s) ns") auto

end

interpretation source_gates: gate "source_gate inst" "source_denied inst" "source_allowed inst" for inst
  by unfold_locales (auto simp: source_gate_def split: if_splits)

interpretation env_gates: gate "env_gate inst" "\<lambda>_ _. False"
  "\<lambda>namespace entry. agent_env_allowed inst namespace (fst entry)" for inst
  by unfold_locales (auto simp: env_gate_def split: if_splits)

section \<open>Facts\<close>

lemma gates_pass:
  assumes "gates inst namespace pod r = Inr u"
  shows "\<forall>s \<in> set (request_sources r). \<not> source_denied inst namespace s \<and> source_allowed inst namespace s"
    and "\<forall>e \<in> set (rq_agent_env r). agent_env_allowed inst namespace (fst e)"
    and "\<forall>n \<in> set (wanted_names r). n \<notin> set (container_names pod)"
proof -
  obtain us vs where parts: "rmap (source_gate inst namespace) (request_sources r) = Inr us"
    "rmap (env_gate inst namespace) (rq_agent_env r) = Inr vs" "collides pod r = None"
    using assms by (auto simp: gates_def res_simps split: option.splits)
  show "\<forall>s \<in> set (request_sources r). \<not> source_denied inst namespace s \<and> source_allowed inst namespace s"
    by (rule source_gates.all_pass [OF parts(1)])
  show "\<forall>e \<in> set (rq_agent_env r). agent_env_allowed inst namespace (fst e)"
    using env_gates.all_pass [OF parts(2)] by blast
  show "\<forall>n \<in> set (wanted_names r). n \<notin> set (container_names pod)"
    using parts(3) by (auto simp: collides_def find_None_iff)
qed

lemma pod_answer_patched:
  assumes "pod_answer to_vec env inst namespace pod = AllowPatched p ws ds"
  obtains r where "of_pod_with pod inst = Inr (Some r)" "gates inst namespace pod r = Inr ()"
    "p = webhook_base64 (to_vec (patches_for env pod r))" "ws = warnings r"
  using assms by (auto simp: pod_answer_def split: sum.splits option.splits)

lemma with_class_object:
  assumes "annotations_of pod = Some notes"
  shows "annotations_of (set_annotations new pod) = Some new"
proof -
  obtain m c where m: "pod = JObject m" "map_of m ''metadata'' = Some c"
    "pointer_step ''annotations'' c = Some (JObject notes)"
  proof -
    obtain c where c: "pointer_step ''metadata'' pod = Some c" "pointer_step ''annotations'' c = Some (JObject notes)"
      using assms by (auto simp: annotations_of_def as_object_eq_Some split: option.splits)
    then obtain m where "pod = JObject m"
      by (cases pod) (auto simp: pointer_step_def split: option.splits)
    with c that show thesis by auto
  qed
  then obtain meta where "c = JObject meta"
    by (cases c) (auto simp: pointer_step_def split: option.splits)
  with m show ?thesis by (simp add: set_annotations_def annotations_of_def)
qed

lemma fill_keeps: "map_of notes k = Some v \<Longrightarrow> map_of (fill name t notes) k = Some v"
  by (auto simp: fill_def)

lemma fill_sets: "map_of notes (PREFIX @ name) = None \<Longrightarrow> map_of (fill name t notes) (PREFIX @ name) = Some (jstr t)"
  by (simp add: fill_def)

lemma fill_other: "k \<noteq> PREFIX @ name \<Longrightarrow> map_of (fill name t notes) k = map_of notes k"
  by (simp add: fill_def)

lemma class_notes_keeps: "map_of notes k = Some v \<Longrightarrow> map_of (class_notes c notes) k = Some v"
  by (auto simp: class_notes_def Let_def fill_keeps split: option.splits)

lemma class_notes_endpoint:
  "map_of notes (PREFIX @ ''endpoint'') = None \<Longrightarrow>
     map_of (class_notes c notes) (PREFIX @ ''endpoint'') = Some (jstr (class_endpoint c))"
  by (auto simp: class_notes_def Let_def fill_other fill_sets split: option.splits)

lemma with_class_filled:
  assumes "with_class pod namespace classes = Inr (Some filled)"
  obtains anns named c where "annotations_of pod = Some anns" "annotation anns ''class'' = Some named"
    "resolve classes namespace named = Some c" "admits c namespace"
    "filled = set_annotations (class_notes c anns) pod"
  using assms by (auto simp: with_class_def split: option.splits if_splits)

section \<open>Properties\<close>

text \<open>The pod whose request an admission answers: the review's object, with the class it names filled in.\<close>

definition answered_pod :: "json \<Rightarrow> string \<Rightarrow> Classes \<Rightarrow> json \<Rightarrow> bool" where
  "answered_pod review namespace classes pod \<longleftrightarrow>
     (\<exists>object. pointer [''request'', ''object''] review = Some object \<and>
        (with_class object namespace classes = Inr (Some pod) \<or>
         with_class object namespace classes = Inr None \<and> pod = object))"

lemma answered_pod_unique:
  "answered_pod review namespace classes pod \<Longrightarrow> answered_pod review namespace classes pod' \<Longrightarrow> pod' = pod"
  by (auto simp: answered_pod_def)

text \<open>C3: an admission that answers with a patch answers the request of the review's own object, its class
  filled in: the contract accepts that object, the patch is that request's, its every source (the main one and
  those of the named renders) is neither denied nor off the allowlist in the review's namespace, its agent
  variables are all allowed there, and no container of the object has one of the names the patch reserves.\<close>

theorem patched_pod_passed_the_gates:
  assumes "answer (admission_response to_vec env inst classes review) = AllowPatched p ws ds"
    and "namespace = unwrap_or (str_at [''request'', ''namespace''] review) []"
  shows "\<exists>pod. answered_pod review namespace classes pod \<and>
    (\<exists>r. of_pod_with pod inst = Inr (Some r) \<and>
      p = webhook_base64 (to_vec (patches_for env pod r)) \<and> ws = warnings r \<and>
      (\<forall>s \<in> set (rq_source r # map x_source (rq_extra r)).
         \<not> source_denied inst namespace s \<and> source_allowed inst namespace s) \<and>
      (\<forall>e \<in> set (rq_agent_env r). agent_env_allowed inst namespace (fst e)) \<and>
      (\<forall>n \<in> set (wanted_names r). n \<notin> set (container_names pod)))"
proof -
  obtain pod where pod: "answered_pod review namespace classes pod"
    "pod_answer to_vec env inst namespace pod = AllowPatched p ws ds"
    using assms(1) unfolding answered_pod_def assms(2)
    by (auto simp: admission_response_def Let_def split: option.splits sum.splits)
  from pod(2) obtain r where r: "of_pod_with pod inst = Inr (Some r)" "gates inst namespace pod r = Inr ()"
    "p = webhook_base64 (to_vec (patches_for env pod r))" "ws = warnings r"
    by (rule pod_answer_patched)
  show ?thesis using pod(1) r(1,3,4) gates_pass [OF r(2)] unfolding request_sources_def by blast
qed

definition example_review :: json where
  "example_review = JObject [(''request'', JObject [(''namespace'', JString ''default''),
     (''object'', example_pod), (''uid'', JString ''u1'')])]"

lemma example_answer:
  "answer (admission_response to_vec example_env pinning_install no_classes example_review)
     = AllowPatched (webhook_base64 (to_vec (patches_for example_env example_pod example_record)))
         (warnings example_record) []"
proof -
  have paths: "str_at [''request'', ''namespace''] example_review = Some ''default''"
    "pointer [''request'', ''object''] example_review = Some example_pod"
    by (simp_all add: example_review_def str_at_def)
  have anns: "annotations_of example_pod = Some example_notes"
    by (simp add: annotations_of_def example_pod_def pod_with_def)
  have "with_class example_pod ''default'' no_classes = Inr None"
    unfolding with_class_def anns by code_simp
  moreover have "gates pinning_install ''default'' example_pod example_record = Inr ()"
    by (simp add: gates_def request_sources_def example_record_def source_gate_def source_denied_def
        source_allowed_def pinning_install_def allows_def in_scope_def collides_def
        container_names_def containers_of_def example_pod_def pod_with_def map_filter_simps
        name_field_def wanted_names_def runs_agent_def runs_init_def)
  ultimately show ?thesis
    by (simp add: admission_response_def Let_def paths pod_answer_def example_read anns no_deprecations
        del: pointer.simps)
qed

theorem patched_pod_passed_the_gates_witness:
  "\<exists>p ws ds. answer (admission_response (\<lambda>_. []) example_env pinning_install no_classes example_review)
       = AllowPatched p ws ds \<and>
     (\<exists>pod r. answered_pod example_review ''default'' no_classes pod \<and>
        of_pod_with pod pinning_install = Inr (Some r) \<and>
        (\<forall>n \<in> set (wanted_names r). n \<notin> set (container_names pod)))"
proof -
  have "''default'' = unwrap_or (str_at [''request'', ''namespace''] example_review) []"
    by (simp add: example_review_def str_at_def)
  from patched_pod_passed_the_gates [OF example_answer [of "\<lambda>_. []"] this] show ?thesis
    using example_answer [of "\<lambda>_. []"] by blast
qed

text \<open>A class is a default. Whatever annotation the pod wrote it keeps, and the class it was
  given is one that admits its namespace.\<close>

theorem class_is_a_default:
  assumes "with_class pod namespace classes = Inr (Some filled)"
  shows "\<exists>notes notes' named c. annotations_of pod = Some notes \<and> annotations_of filled = Some notes' \<and>
    (\<forall>k v. map_of notes k = Some v \<longrightarrow> map_of notes' k = Some v) \<and>
    annotation notes ''class'' = Some named \<and> resolve classes namespace named = Some c \<and>
    (class_namespaces c = None \<or> class_namespaces c = Some [] \<or>
     (\<exists>ns. class_namespaces c = Some ns \<and> namespace \<in> set ns))"
proof -
  obtain anns named c where parts: "annotations_of pod = Some anns"
    "annotation anns ''class'' = Some named" "resolve classes namespace named = Some c"
    "admits c namespace" "filled = set_annotations (class_notes c anns) pod"
    using assms by (rule with_class_filled)
  then show ?thesis
    using with_class_object [OF parts(1)] class_notes_keeps
    by (auto simp: admits_def split: option.splits)
qed

definition classed_pod :: json where
  "classed_pod = pod_with [ann ''class'' ''team'', ann ''inject'' ''true'']"

definition team_class :: Class where
  "team_class = \<lparr> class_source = ''vault'', class_endpoint = ''https://v'', class_token_secret = None,
     class_namespaces = Some [''default''], credential_elsewhere = None \<rparr>"

lemma classed_pod_filled:
  "\<exists>filled. with_class classed_pod ''default'' [([], ''team'') \<mapsto> team_class] = Inr (Some filled)"
  by (simp add: with_class_def classed_pod_def pod_with_def annotations_of_def annotation_def ann_def
      PREFIX_def STATUS_def resolve_def admits_def team_class_def)

theorem class_is_a_default_witness:
  "\<exists>filled notes'. with_class classed_pod ''default'' [([], ''team'') \<mapsto> team_class] = Inr (Some filled) \<and>
     annotations_of filled = Some notes'"
  using classed_pod_filled class_is_a_default by blast

text \<open>
  Two consequences of the way a class is filled in and a refusal is classified: a class fills the
  endpoint of a pod that answered with \<open>endpoint-secret\<close>, which the contract then refuses; and a
  malformed value that quotes the phrase is filed under the pins.
\<close>

lemma class_endpoint_conflicts:
  assumes "annotations_of pod = Some notes" and "map_of notes (PREFIX @ ''endpoint'') = None"
    and "annotation notes ''endpoint-secret'' = Some s"
  shows "of_pod_with (set_annotations (class_notes c notes) pod) inst \<noteq> Inr (Some r)"
proof
  let ?filled = "set_annotations (class_notes c notes) pod"
  assume "of_pod_with ?filled inst = Inr (Some r)"
  then obtain anns en an where read: "annotations_of ?filled = Some anns"
    "read_request (annotation anns) ?filled inst en an = Inr r"
    by (rule of_pod_with_request)
  then have anns: "anns = class_notes c notes" using with_class_object [OF assms(1)] by simp
  have "annotation anns ''endpoint'' = Some (class_endpoint c)"
    using class_notes_endpoint [OF assms(2)] by (simp add: anns annotation_def jstr_def)
  moreover have "annotation anns ''endpoint-secret'' = Some s"
    using assms(3) class_notes_keeps by (auto simp: anns annotation_def split: option.splits)
  ultimately show False
    using read_request_stages(6) [OF read(2)]
    by (cases "rq_endpoint r") (auto simp: as_level_def one_address_def)
qed

lemma quoted_phrase_is_pinned: "classify (NotBool ''inject'' PINS) = PINNED"
  using contains_sub_infix [of PINS "[]" "[]"] by (simp add: classify_def mentions_pins_def)

end
