(* ===== verification/Notify.thy ===== *)
theory Notify
  imports Prelude
begin

text \<open>
  Where the agent may be told to POST after a render (\<open>notify.rs\<close>): an endpoint on the pod's own
  loopback, and the request line it sends there. The call itself is I/O and is not modelled.
\<close>

record Endpoint =
  ep_host :: string
  ep_port :: nat
  ep_path :: string

datatype endpoint_error =
    NotHttp string
  | NoPort string
  | NotLoopback string
  | BadPort string

definition loopback_hosts :: "string list" where
  "loopback_hosts = [''localhost'', ''127.0.0.1'', ''[::1]'', ''::1'']"

definition bracket :: "char \<Rightarrow> bool" where
  "bracket c \<longleftrightarrow> c = CHR ''['' \<or> c = CHR '']''"

definition trim_brackets :: "string \<Rightarrow> string" where
  "trim_brackets s = rev (dropWhile bracket (rev (dropWhile bracket s)))"

definition split_path :: "string \<Rightarrow> string \<times> string" where
  "split_path rest =
     (case split_once (CHR ''/'') rest of
        Some (authority, path) \<Rightarrow> (authority, CHR ''/'' # path)
      | None \<Rightarrow> (rest, ''/''))"

definition parse_endpoint :: "string \<Rightarrow> endpoint_error + Endpoint" where
  "parse_endpoint url =
     rbind (ok_or (strip_prefix ''http://'' url) (NotHttp url)) (\<lambda>rest.
     case split_path rest of (authority, path) \<Rightarrow>
     rbind (ok_or (rsplit_once (CHR '':'') authority) (NoPort url)) (\<lambda>(host, port).
     rbind (ensure (host \<in> set loopback_hosts) (NotLoopback host)) (\<lambda>_.
     rbind (ok_or (parse_uint 10 16 port) (BadPort port)) (\<lambda>n.
     Inr \<lparr> ep_host = trim_brackets host, ep_port = n, ep_path = path \<rparr>))))"

definition crlf :: string where
  "crlf = [char_of (13 :: nat), char_of (10 :: nat)]"

definition notify_request :: "Endpoint \<Rightarrow> string" where
  "notify_request e =
     ''POST '' @ ep_path e @ '' HTTP/1.1'' @ crlf
     @ ''Host: '' @ ep_host e @ '':'' @ show_nat (ep_port e) @ crlf
     @ ''Content-Length: 0'' @ crlf
     @ ''User-Agent: dynamic-config-agent'' @ crlf
     @ ''Connection: close'' @ crlf @ crlf"

lemma trim_loopback:
  "host \<in> set loopback_hosts \<Longrightarrow> trim_brackets host \<in> {''localhost'', ''127.0.0.1'', ''::1''}"
  by (auto simp: loopback_hosts_def trim_brackets_def bracket_def)

lemma split_path_eq: "split_path rest = (a, p) \<Longrightarrow> CHR ''/'' \<notin> set a \<and> starts_with ''/'' p"
  by (auto simp: split_path_def starts_with_def split_once_eq_Some split_once_None_iff
      split: option.splits prod.splits)

lemma parse_endpoint_sound:
  assumes "parse_endpoint url = Inr e"
  shows "ep_host e \<in> {''localhost'', ''127.0.0.1'', ''::1''}" and "ep_port e < 2 ^ 16"
    and "starts_with ''/'' (ep_path e)"
proof -
  from assms obtain rest host port n where parts:
    "host \<in> set loopback_hosts" "parse_uint 10 16 port = Some n"
    "e = \<lparr> ep_host = trim_brackets host, ep_port = n, ep_path = snd (split_path rest) \<rparr>"
    by (auto simp: parse_endpoint_def res_simps split_beta)
  show "ep_host e \<in> {''localhost'', ''127.0.0.1'', ''::1''}"
    using trim_loopback [OF parts(1)] parts(3) by simp
  show "ep_port e < 2 ^ 16" using parse_uint_less [OF parts(2)] parts(3) by simp
  show "starts_with ''/'' (ep_path e)"
    using split_path_eq [of rest "fst (split_path rest)" "snd (split_path rest)"] parts(3) by simp
qed

text \<open>What is accepted is a function of the address as written: it is read back from its parts.\<close>

lemma parse_endpoint_written:
  assumes "host \<in> set loopback_hosts" and "n < 2 ^ 16" and "starts_with ''/'' path"
  shows "parse_endpoint (''http://'' @ host @ '':'' @ show_nat n @ path)
           = Inr \<lparr> ep_host = trim_brackets host, ep_port = n, ep_path = path \<rparr>"
proof -
  have plain: "CHR ''/'' \<notin> set (show_nat n)" "CHR '':'' \<notin> set (show_nat n)"
    using show_radix_chars [of "CHR ''/''" 10 n] show_radix_chars [of "CHR '':''" 10 n] by (auto simp: is_digit_def)
  have host: "CHR ''/'' \<notin> set host" using assms(1) by (auto simp: loopback_hosts_def)
  obtain p where p: "path = CHR ''/'' # p"
    using assms(3) by (auto simp: starts_with_iff)
  have "split_path (host @ '':'' @ show_nat n @ path) = (host @ '':'' @ show_nat n, path)"
    using split_once_append [of "CHR ''/''" "host @ '':'' @ show_nat n" p] host plain(1)
    by (simp add: split_path_def p)
  moreover have "rsplit_once (CHR '':'') (host @ CHR '':'' # show_nat n) = Some (host, show_nat n)"
    using plain(2) by (rule rsplit_once_append)
  moreover have strip: "strip_prefix ''http://'' (''http://'' @ t) = Some t" for t
    by (rule strip_prefix_append)
  ultimately show ?thesis
    unfolding parse_endpoint_def strip using assms by (simp add: parse_uint_show)
qed

end
