(* ===== verification/AgentSpec.thy ===== *)
theory AgentSpec
  imports Patch Notify
begin

text \<open>
  The agent's command line (\<open>spec.rs\<close>): the flags and the environment to a \<open>Spec\<close>, or a refusal.
  Durations are whole seconds, paths and credentials are byte strings. The flag loop takes one flag
  at a time, with its value where it has one; what it collects is a draft, and a \<open>Spec\<close> is a draft
  whose four required fields are there and that passed \<open>validated\<close>.
\<close>

unbundle bit_operations_syntax

section \<open>Output formats\<close>

datatype OutputFormat = FJson | FToml | FYaml | FIni | FProperties

definition format_of :: "string \<Rightarrow> OutputFormat option" where
  "format_of path =
     (case extension path of
        None \<Rightarrow> None
      | Some e \<Rightarrow>
          if e = ''json'' then Some FJson
          else if e = ''toml'' then Some FToml
          else if e = ''yaml'' \<or> e = ''yml'' then Some FYaml
          else if e = ''ini'' then Some FIni
          else if e = ''properties'' then Some FProperties
          else None)"

section \<open>Policies\<close>

datatype StartupPolicy = AllowCached | RequireFresh | BestEffort
datatype OnDelete = Retain | Remove | DeleteFail
datatype OnDrift = Warn | Repair | DriftFail

datatype spec_error =
    UnknownFlag string
  | NeedsValue string
  | BadFlag string string
  | FlagRange string
  | FlagEndpoint endpoint_error
  | AlsoField string
  | AlsoUnknown string
  | AlsoMode string
  | AlsoNoOut string
  | AlsoFormat string
  | SpecMissing string
  | SpecSource string
  | HalfPair
  | WrongStore string string
  | AuthUnknown string string
  | AuthNeeds string string
  | NatsKey
  | TwoTemplates
  | OutFormat string

definition startup_policy_of :: "string \<Rightarrow> spec_error + StartupPolicy" where
  "startup_policy_of t =
     (if t = ''allow-cached'' then Inr AllowCached
      else if t = ''require-fresh'' then Inr RequireFresh
      else if t = ''best-effort'' then Inr BestEffort
      else Inl (BadFlag ''--startup-policy'' t))"

definition on_delete_of :: "string \<Rightarrow> spec_error + OnDelete" where
  "on_delete_of t =
     (if t = ''retain'' then Inr Retain
      else if t = ''remove'' then Inr Remove
      else if t = ''fail'' then Inr DeleteFail
      else Inl (BadFlag ''--on-delete'' t))"

definition agent_drift_of :: "string \<Rightarrow> spec_error + OnDrift" where
  "agent_drift_of t =
     (if t = ''warn'' then Inr Warn
      else if t = ''repair'' then Inr Repair
      else if t = ''fail'' then Inr DriftFail
      else Inl (BadFlag ''--on-drift'' t))"

section \<open>Further files\<close>

record Rendering =
  rd_out :: string
  rd_section :: "string option"
  rd_mode :: "nat option"

definition octal :: "string \<Rightarrow> nat option" where
  "octal text = parse_uint 8 32 (unwrap_or (strip_prefix ''0o'' text) text)"

record also_draft =
  al_out :: "string option"
  al_section :: "string option"
  al_mode :: "nat option"

definition also_field :: "string \<Rightarrow> string \<Rightarrow> also_draft \<Rightarrow> spec_error + also_draft" where
  "also_field text field d =
     (case split_once (CHR ''='') field of
        None \<Rightarrow> Inl (AlsoField text)
      | Some (name, v) \<Rightarrow>
          (let n = trim name in
           if n = ''out'' then Inr (d \<lparr> al_out := Some v \<rparr>)
           else if n = ''section'' then Inr (d \<lparr> al_section := Some v \<rparr>)
           else if n = ''mode'' then
             rbind (ok_or (octal v) (AlsoMode v)) (\<lambda>m. Inr (d \<lparr> al_mode := Some m \<rparr>))
           else Inl (AlsoUnknown n)))"

definition parse_rendering :: "nat option \<Rightarrow> string \<Rightarrow> spec_error + Rendering" where
  "parse_rendering default_mode text =
     rbind (rfold (also_field text) (split_on (CHR '','') text)
              \<lparr> al_out = None, al_section = None, al_mode = default_mode \<rparr>) (\<lambda>d.
     rbind (ok_or (al_out d) (AlsoNoOut text)) (\<lambda>out.
     rbind (ok_or (format_of out) (AlsoFormat out)) (\<lambda>_.
     Inr \<lparr> rd_out = out, rd_section = al_section d, rd_mode = al_mode d \<rparr>)))"

section \<open>The draft and the specification\<close>

record settings =
  sp_watch :: "nat option"
  sp_file_mode :: "nat option"
  sp_metrics_addr :: "string option"
  sp_startup_policy :: StartupPolicy
  sp_max_document_bytes :: "nat option"
  sp_on_delete :: OnDelete
  sp_schema :: "string option"
  sp_meta :: bool
  sp_max_staleness :: "nat option"
  sp_dynamic :: bool
  sp_revoke_on_shutdown :: bool
  sp_revoke_grace :: nat
  sp_notify_http :: "Endpoint option"
  sp_on_drift :: OnDrift
  sp_tls_reload :: bool
  sp_history :: nat
  sp_require_ack :: bool
  sp_events :: bool
  sp_canary :: "string option"
  sp_timeout :: "nat option"
  sp_token :: "string option"
  sp_section :: "string option"
  sp_auth :: "string option"
  sp_auth_mount :: "string option"
  sp_auth_role :: "string option"
  sp_auth_username :: "string option"
  sp_auth_token_path :: "string option"
  sp_namespace :: "string option"
  sp_reference :: "string option"
  sp_ssh_key :: "string option"
  sp_api_url :: "string option"
  sp_template :: "string option"
  sp_template_inline :: "string option"
  sp_ca :: "string option"
  sp_tls_cert :: "string option"
  sp_tls_key :: "string option"
  sp_tls_server_name :: "string option"
  sp_tls_skip_verify :: bool
  sp_password :: "string option"

record draft = settings +
  dr_source :: "string option"
  dr_endpoint :: "string option"
  dr_key :: "string option"
  dr_out :: "string option"
  dr_also :: "string list"

record Spec = settings +
  sp_source :: string
  sp_endpoint :: string
  sp_key :: string
  sp_out :: string
  sp_also :: "Rendering list"

definition REVOKE_DEADLINE :: nat where
  "REVOKE_DEADLINE = 5"

definition initial_draft :: "(string \<Rightarrow> string option) \<Rightarrow> draft" where
  "initial_draft env =
     \<lparr> sp_watch = None, sp_file_mode = None, sp_metrics_addr = None,
       sp_startup_policy = AllowCached, sp_max_document_bytes = None, sp_on_delete = Retain,
       sp_schema = None, sp_meta = False, sp_max_staleness = None, sp_dynamic = False,
       sp_revoke_on_shutdown = True, sp_revoke_grace = REVOKE_DEADLINE, sp_notify_http = None,
       sp_on_drift = Warn, sp_tls_reload = True, sp_history = 0, sp_require_ack = False,
       sp_events = False, sp_canary = None, sp_timeout = None,
       sp_token = env ''DYNAMIC_CONFIG_AGENT_TOKEN'', sp_section = None, sp_auth = None,
       sp_auth_mount = None, sp_auth_role = None, sp_auth_username = None,
       sp_auth_token_path = None, sp_namespace = None, sp_reference = None, sp_ssh_key = None,
       sp_api_url = None, sp_template = None, sp_template_inline = None, sp_ca = None,
       sp_tls_cert = None, sp_tls_key = None, sp_tls_server_name = None,
       sp_tls_skip_verify = False, sp_password = env ''DYNAMIC_CONFIG_AGENT_PASSWORD'',
       dr_source = None, dr_endpoint = env ''DYNAMIC_CONFIG_AGENT_ENDPOINT'', dr_key = None,
       dr_out = None, dr_also = [] \<rparr>"

section \<open>The flags\<close>

type_synonym setter = "string \<Rightarrow> draft \<Rightarrow> spec_error + draft"

definition text_flags :: "(string \<times> (string \<Rightarrow> draft \<Rightarrow> draft)) list" where
  "text_flags = [
     (''--source'', \<lambda>v d. d \<lparr> dr_source := Some v \<rparr>),
     (''--endpoint'', \<lambda>v d. d \<lparr> dr_endpoint := Some v \<rparr>),
     (''--key'', \<lambda>v d. d \<lparr> dr_key := Some v \<rparr>),
     (''--out'', \<lambda>v d. d \<lparr> dr_out := Some v \<rparr>),
     (''--token'', \<lambda>v d. d \<lparr> sp_token := Some v \<rparr>),
     (''--section'', \<lambda>v d. d \<lparr> sp_section := Some v \<rparr>),
     (''--metrics-addr'', \<lambda>v d. d \<lparr> sp_metrics_addr := Some v \<rparr>),
     (''--canary'', \<lambda>v d. d \<lparr> sp_canary := Some v \<rparr>),
     (''--also'', \<lambda>v d. d \<lparr> dr_also := dr_also d @ [v] \<rparr>),
     (''--schema'', \<lambda>v d. d \<lparr> sp_schema := Some v \<rparr>),
     (''--auth'', \<lambda>v d. d \<lparr> sp_auth := Some v \<rparr>),
     (''--auth-mount'', \<lambda>v d. d \<lparr> sp_auth_mount := Some v \<rparr>),
     (''--auth-role'', \<lambda>v d. d \<lparr> sp_auth_role := Some v \<rparr>),
     (''--auth-username'', \<lambda>v d. d \<lparr> sp_auth_username := Some v \<rparr>),
     (''--auth-token-path'', \<lambda>v d. d \<lparr> sp_auth_token_path := Some v \<rparr>),
     (''--namespace'', \<lambda>v d. d \<lparr> sp_namespace := Some v \<rparr>),
     (''--ref'', \<lambda>v d. d \<lparr> sp_reference := Some v \<rparr>),
     (''--ssh-key'', \<lambda>v d. d \<lparr> sp_ssh_key := Some v \<rparr>),
     (''--api-url'', \<lambda>v d. d \<lparr> sp_api_url := Some v \<rparr>),
     (''--template'', \<lambda>v d. d \<lparr> sp_template := Some v \<rparr>),
     (''--template-inline'', \<lambda>v d. d \<lparr> sp_template_inline := Some v \<rparr>),
     (''--ca'', \<lambda>v d. d \<lparr> sp_ca := Some v \<rparr>),
     (''--tls-server-name'', \<lambda>v d. d \<lparr> sp_tls_server_name := Some v \<rparr>),
     (''--tls-cert'', \<lambda>v d. d \<lparr> sp_tls_cert := Some v \<rparr>),
     (''--tls-key'', \<lambda>v d. d \<lparr> sp_tls_key := Some v \<rparr>)]"

definition bare_flags :: "(string \<times> (draft \<Rightarrow> draft)) list" where
  "bare_flags = [
     (''--no-tls-reload'', sp_tls_reload_update (\<lambda>_. False)),
     (''--require-ack'', sp_require_ack_update (\<lambda>_. True)),
     (''--events'', sp_events_update (\<lambda>_. True)),
     (''--meta'', sp_meta_update (\<lambda>_. True)),
     (''--dynamic'', sp_dynamic_update (\<lambda>_. True)),
     (''--no-revoke-on-shutdown'', sp_revoke_on_shutdown_update (\<lambda>_. False)),
     (''--tls-skip-verify'', sp_tls_skip_verify_update (\<lambda>_. True)),
     (''--one-shot'', sp_watch_update (\<lambda>_. None))]"

definition u64_of :: "string \<Rightarrow> string \<Rightarrow> spec_error + nat" where
  "u64_of flag v = ok_or (parse_uint 10 64 v) (BadFlag flag v)"

definition seconds_of :: "string \<Rightarrow> string \<Rightarrow> spec_error + nat" where
  "seconds_of flag v =
     rbind (u64_of flag v) (\<lambda>n. if n = 0 then Inl (FlagRange flag) else Inr n)"

definition set_watch :: setter where
  "set_watch v d = rbind (u64_of ''--watch'' v) (\<lambda>n. Inr (d \<lparr> sp_watch := Some (max n 1) \<rparr>))"

definition set_timeout :: setter where
  "set_timeout v d = rbind (seconds_of ''--timeout'' v) (\<lambda>n. Inr (d \<lparr> sp_timeout := Some n \<rparr>))"

definition set_staleness :: setter where
  "set_staleness v d =
     rbind (seconds_of ''--max-staleness'' v) (\<lambda>n. Inr (d \<lparr> sp_max_staleness := Some n \<rparr>))"

definition set_grace :: setter where
  "set_grace v d = rbind (seconds_of ''--revoke-grace'' v) (\<lambda>n. Inr (d \<lparr> sp_revoke_grace := n \<rparr>))"

definition set_document_bytes :: setter where
  "set_document_bytes v d =
     rbind (u64_of ''--max-document-bytes'' v) (\<lambda>n. Inr (d \<lparr> sp_max_document_bytes := Some n \<rparr>))"

definition set_history :: setter where
  "set_history v d =
     rbind (u64_of ''--history'' v) (\<lambda>n.
     if n > MOST_HISTORY then Inl (FlagRange ''--history'') else Inr (d \<lparr> sp_history := n \<rparr>))"

definition agent_file_mode :: "string \<Rightarrow> spec_error + nat" where
  "agent_file_mode text =
     rbind (ok_or (octal text) (BadFlag ''--file-mode'' text)) (\<lambda>mode.
     rbind (ensure (mode \<le> 511) (FlagRange ''--file-mode'')) (\<lambda>_.
     rbind (ensure (mode AND 256 \<noteq> 0) (FlagRange ''--file-mode'')) (\<lambda>_.
     Inr mode)))"

definition set_startup_policy :: setter where
  "set_startup_policy v d = rbind (startup_policy_of v) (\<lambda>p. Inr (d \<lparr> sp_startup_policy := p \<rparr>))"

definition set_on_delete :: setter where
  "set_on_delete v d = rbind (on_delete_of v) (\<lambda>p. Inr (d \<lparr> sp_on_delete := p \<rparr>))"

definition set_on_drift :: setter where
  "set_on_drift v d = rbind (agent_drift_of v) (\<lambda>p. Inr (d \<lparr> sp_on_drift := p \<rparr>))"

definition set_notify_http :: setter where
  "set_notify_http v d =
     rbind (map_err FlagEndpoint (parse_endpoint v)) (\<lambda>e. Inr (d \<lparr> sp_notify_http := Some e \<rparr>))"

definition set_file_mode :: setter where
  "set_file_mode v d = rbind (agent_file_mode v) (\<lambda>m. Inr (d \<lparr> sp_file_mode := Some m \<rparr>))"

definition checked_flags :: "(string \<times> setter) list" where
  "checked_flags = [
     (''--watch'', set_watch), (''--startup-policy'', set_startup_policy),
     (''--max-document-bytes'', set_document_bytes), (''--on-delete'', set_on_delete),
     (''--on-drift'', set_on_drift), (''--timeout'', set_timeout), (''--history'', set_history),
     (''--notify-http'', set_notify_http), (''--max-staleness'', set_staleness),
     (''--revoke-grace'', set_grace), (''--file-mode'', set_file_mode)]"

definition value_flag :: "string \<Rightarrow> setter option" where
  "value_flag flag =
     or_else (map_option (\<lambda>f v d. Inr (f v d)) (map_of text_flags flag)) (map_of checked_flags flag)"

fun read_flags :: "string list \<Rightarrow> draft \<Rightarrow> spec_error + draft" where
  "read_flags [] d = Inr d"
| "read_flags (flag # rest) d =
     (case map_of bare_flags flag of
        Some put \<Rightarrow> read_flags rest (put d)
      | None \<Rightarrow>
          (case value_flag flag of
             None \<Rightarrow> Inl (UnknownFlag flag)
           | Some put \<Rightarrow>
               (case rest of
                  [] \<Rightarrow> Inl (NeedsValue flag)
                | v # rest' \<Rightarrow> rbind (put v d) (read_flags rest'))))"

section \<open>What is refused before a byte leaves the pod\<close>

definition needs :: "string \<Rightarrow> string \<Rightarrow> 'a option \<Rightarrow> spec_error + unit" where
  "needs auth what v = ensure (v \<noteq> None) (AuthNeeds auth what)"

definition consul_auth :: "Spec \<Rightarrow> string option \<Rightarrow> spec_error + unit" where
  "consul_auth s auth =
     (case auth of
        None \<Rightarrow> Inr ()
      | Some a \<Rightarrow>
          if a = ''token'' then needs a ''token'' (sp_token s)
          else if a = ''kubernetes'' \<or> a = ''jwt'' then
            rbind (needs a ''auth-mount'' (sp_auth_mount s)) (\<lambda>_.
            if a = ''jwt'' then needs a ''token'' (sp_token s) else Inr ())
          else Inl (AuthUnknown a ''consul''))"

definition vault_auth :: "Spec \<Rightarrow> string option \<Rightarrow> spec_error + unit" where
  "vault_auth s auth =
     (let a = unwrap_or auth ''token'' in
      if a = ''token'' then needs a ''token'' (sp_token s)
      else if a = ''kubernetes'' then needs a ''auth-role'' (sp_auth_role s)
      else if a = ''approle'' then
        rbind (needs a ''auth-role'' (sp_auth_role s)) (\<lambda>_. needs a ''password'' (sp_password s))
      else if a = ''jwt'' then needs a ''token'' (sp_token s)
      else if a = ''userpass'' \<or> a = ''ldap'' then
        rbind (needs a ''auth-username'' (sp_auth_username s)) (\<lambda>_. needs a ''password'' (sp_password s))
      else if a = ''cert'' then needs a ''tls-cert'' (sp_tls_cert s)
      else Inl (AuthUnknown a ''vault''))"

definition firestore_auth :: "Spec \<Rightarrow> string option \<Rightarrow> spec_error + unit" where
  "firestore_auth s auth =
     (let a = unwrap_or auth ''metadata-server'' in
      if a = ''metadata-server'' \<or> a = ''emulator'' then Inr ()
      else if a = ''access-token'' then needs a ''token'' (sp_token s)
      else Inl (AuthUnknown a ''firestore''))"

definition git_auth :: "Spec \<Rightarrow> string option \<Rightarrow> spec_error + unit" where
  "git_auth s auth =
     (let a = unwrap_or auth ''anonymous'' in
      if a = ''anonymous'' \<or> a = ''ssh'' then Inr ()
      else if a = ''token'' then needs a ''token'' (sp_token s)
      else if a = ''ssh-key'' then needs a ''ssh-key'' (sp_ssh_key s)
      else Inl (AuthUnknown a ''git''))"

definition no_auth :: "string \<Rightarrow> string option \<Rightarrow> spec_error + unit" where
  "no_auth source auth =
     (case auth of None \<Rightarrow> Inr () | Some a \<Rightarrow> Inl (AuthUnknown a source))"

definition validated_auth :: "Spec \<Rightarrow> spec_error + unit" where
  "validated_auth s =
     (let source = sp_source s; auth = sp_auth s in
      if source = ''consul'' then consul_auth s auth
      else if source = ''vault'' then vault_auth s auth
      else if source = ''config-server'' then
        (if auth = Some ''kubernetes'' then Inr () else no_auth source auth)
      else if source = ''firestore'' then firestore_auth s auth
      else if source = ''git'' then git_auth s auth
      else if source = ''etcd'' then
        rbind (no_auth source auth) (\<lambda>_.
        if sp_auth_username s \<noteq> None then needs ''user'' ''password'' (sp_password s) else Inr ())
      else if source = ''nats'' then
        rbind (no_auth source auth) (\<lambda>_. ensure (CHR ''/'' \<in> set (sp_key s)) NatsKey)
      else no_auth source auth)"

definition only_for :: "string \<Rightarrow> 'a option \<Rightarrow> string list \<Rightarrow> string \<Rightarrow> spec_error + unit" where
  "only_for flag v sources source =
     ensure (v = None \<or> source \<in> set sources) (WrongStore flag source)"

definition templated :: "('a settings_scheme) \<Rightarrow> bool" where
  "templated s \<longleftrightarrow> sp_template s \<noteq> None \<or> sp_template_inline s \<noteq> None"

definition validated :: "Spec \<Rightarrow> spec_error + Spec" where
  "validated s =
     (let source = sp_source s in
      rbind (ensure (source \<in> set SOURCES) (SpecSource source)) (\<lambda>_.
      rbind (ensure ((sp_tls_cert s \<noteq> None) = (sp_tls_key s \<noteq> None)) HalfPair) (\<lambda>_.
      rbind (only_for ''--ref'' (sp_reference s) [''git''] source) (\<lambda>_.
      rbind (only_for ''--ssh-key'' (sp_ssh_key s) [''git''] source) (\<lambda>_.
      rbind (only_for ''--api-url'' (sp_api_url s) [''firestore'', ''s3''] source) (\<lambda>_.
      rbind (only_for ''--namespace'' (sp_namespace s) [''vault''] source) (\<lambda>_.
      rbind (validated_auth s) (\<lambda>_.
      rbind (ensure (\<not> (sp_template s \<noteq> None \<and> sp_template_inline s \<noteq> None)) TwoTemplates) (\<lambda>_.
      rbind (ensure (templated s \<or> format_of (sp_out s) \<noteq> None) (OutFormat (sp_out s))) (\<lambda>_.
      Inr s))))))))))"

definition spec_of :: "draft \<Rightarrow> spec_error + Spec" where
  "spec_of d =
     rbind (ok_or (dr_source d) (SpecMissing ''--source'')) (\<lambda>source.
     rbind (ok_or (dr_endpoint d) (SpecMissing ''--endpoint'')) (\<lambda>endpoint.
     rbind (ok_or (dr_key d) (SpecMissing ''--key'')) (\<lambda>key.
     rbind (ok_or (dr_out d) (SpecMissing ''--out'')) (\<lambda>out.
     rbind (rmap (parse_rendering (sp_file_mode d)) (dr_also d)) (\<lambda>also.
     Inr (settings.extend (settings.truncate d) (Spec.fields source endpoint key out also)))))))"

definition from_args :: "(string \<Rightarrow> string option) \<Rightarrow> string list \<Rightarrow> spec_error + Spec" where
  "from_args env arguments =
     rbind (read_flags arguments (initial_draft env)) (\<lambda>d. rbind (spec_of d) validated)"


section \<open>What a draft keeps, flag after flag\<close>

definition mode_ok :: "nat \<Rightarrow> bool" where
  "mode_ok m \<longleftrightarrow> m \<le> 511 \<and> m AND 256 \<noteq> 0"

definition loopback :: "Endpoint \<Rightarrow> bool" where
  "loopback e \<longleftrightarrow> ep_host e \<in> {''localhost'', ''127.0.0.1'', ''::1''}"

definition settings_ok :: "'a settings_scheme \<Rightarrow> bool" where
  "settings_ok d \<longleftrightarrow>
     pred_option mode_ok (sp_file_mode d) \<and> pred_option (\<lambda>n. 1 \<le> n) (sp_watch d) \<and>
     pred_option (\<lambda>n. 1 \<le> n) (sp_timeout d) \<and> pred_option (\<lambda>n. 1 \<le> n) (sp_max_staleness d) \<and>
     1 \<le> sp_revoke_grace d \<and> sp_history d \<le> MOST_HISTORY \<and>
     pred_option loopback (sp_notify_http d)"

lemma flag_entry: "map_of table flag = Some f \<Longrightarrow> (flag, f) \<in> set table"
  by (rule map_of_SomeD)

text \<open>A property of drafts that every flag keeps is kept by the whole line.\<close>

lemma read_flags_invariant:
  assumes "read_flags ws d = Inr d'" and "P d"
    and "\<And>flag f d. (flag, f) \<in> set bare_flags \<Longrightarrow> P d \<Longrightarrow> P (f d)"
    and "\<And>flag f v d. (flag, f) \<in> set text_flags \<Longrightarrow> P d \<Longrightarrow> P (f v d)"
    and "\<And>flag f v d d'. (flag, f) \<in> set checked_flags \<Longrightarrow> P d \<Longrightarrow> f v d = Inr d' \<Longrightarrow> P d'"
  shows "P d'"
  using assms(1,2)
proof (induction ws d rule: read_flags.induct)
  case (2 flag rest d)
  show ?case
  proof (cases "map_of bare_flags flag")
    case (Some f)
    then show ?thesis using 2 assms(3) [OF flag_entry [OF Some]] by auto
  next
    case None
    with 2(3) obtain f v rest' d1 where step: "value_flag flag = Some f" "rest = v # rest'"
      "f v d = Inr d1" "read_flags rest' d1 = Inr d'"
      by (auto simp: res_simps split: option.splits list.splits)
    have "P d1"
    proof (cases "map_of text_flags flag")
      case (Some g)
      then show ?thesis
        using step 2(4) assms(4) [OF flag_entry [OF Some]] by (auto simp: value_flag_def)
    next
      case absent: None
      then have "map_of checked_flags flag = Some f" using step(1) by (simp add: value_flag_def)
      then show ?thesis using step(3) 2(4) assms(5) flag_entry by metis
    qed
    then show ?thesis using 2(1) [OF None step(1,2,3)] step(4) by blast
  qed
qed simp

lemma seconds_of_positive: "seconds_of flag v = Inr n \<Longrightarrow> 1 \<le> n"
  by (auto simp: seconds_of_def res_simps split: if_splits)

lemma agent_file_mode_ok: "agent_file_mode v = Inr m \<Longrightarrow> mode_ok m"
  by (auto simp: agent_file_mode_def mode_ok_def res_simps)

lemma settings_ok_initial: "settings_ok (initial_draft env)"
  by (simp add: settings_ok_def initial_draft_def REVOKE_DEADLINE_def)

lemma settings_ok_flags:
  assumes "read_flags ws (initial_draft env) = Inr d"
  shows "settings_ok d"
  using assms settings_ok_initial
proof (rule read_flags_invariant)
  fix flag f d assume "(flag, f) \<in> set bare_flags" "settings_ok (d :: draft)"
  then show "settings_ok (f d)" by (auto simp: bare_flags_def settings_ok_def)
next
  fix flag f v d assume "(flag, f) \<in> set text_flags" "settings_ok (d :: draft)"
  then show "settings_ok (f v d)" unfolding text_flags_def by (auto simp: settings_ok_def)
next
  fix flag f v d d' assume "(flag, f) \<in> set checked_flags" and d: "settings_ok d" "f v d = Inr d'"
  then consider "f = set_watch" | "f = set_document_bytes" | "f = set_timeout" | "f = set_history"
    | "f = set_staleness" | "f = set_grace"
    | "f = set_startup_policy" | "f = set_on_delete" | "f = set_on_drift"
    | "f = set_notify_http" | "f = set_file_mode"
    unfolding checked_flags_def by auto
  then show "settings_ok d'"
    using d
    by cases (auto simp: settings_ok_def set_watch_def set_document_bytes_def set_timeout_def
        set_history_def set_staleness_def set_grace_def set_startup_policy_def set_on_delete_def
        set_on_drift_def set_notify_http_def set_file_mode_def loopback_def res_simps
        dest: seconds_of_positive agent_file_mode_ok parse_endpoint_sound(1) split: if_splits)
qed

section \<open>Specifications\<close>

definition credentials_ok :: "Spec \<Rightarrow> bool" where
  "credentials_ok s \<longleftrightarrow>
     (sp_source s = ''vault'' \<and> (sp_auth s = None \<or> sp_auth s \<in> Some ` {''token'', ''jwt''})
        \<longrightarrow> sp_token s \<noteq> None) \<and>
     (sp_source s = ''vault'' \<and> sp_auth s \<in> Some ` {''kubernetes'', ''approle''}
        \<longrightarrow> sp_auth_role s \<noteq> None) \<and>
     (sp_source s = ''vault'' \<and> sp_auth s \<in> Some ` {''approle'', ''userpass'', ''ldap''}
        \<longrightarrow> sp_password s \<noteq> None) \<and>
     (sp_source s = ''vault'' \<and> sp_auth s = Some ''cert'' \<longrightarrow> sp_tls_cert s \<noteq> None) \<and>
     (sp_source s = ''consul'' \<and> sp_auth s \<in> Some ` {''kubernetes'', ''jwt''}
        \<longrightarrow> sp_auth_mount s \<noteq> None) \<and>
     (sp_source s = ''git'' \<and> sp_auth s = Some ''ssh-key'' \<longrightarrow> sp_ssh_key s \<noteq> None) \<and>
     (sp_source s \<in> {''redis'', ''etcd'', ''nats'', ''s3''} \<longrightarrow> sp_auth s = None) \<and>
     (sp_source s = ''nats'' \<longrightarrow> CHR ''/'' \<in> set (sp_key s))"

definition spec_ok :: "Spec \<Rightarrow> bool" where
  "spec_ok s \<longleftrightarrow>
     settings_ok s \<and> sp_source s \<in> set SOURCES \<and>
     (sp_tls_cert s = None \<longleftrightarrow> sp_tls_key s = None) \<and>
     (sp_reference s \<noteq> None \<or> sp_ssh_key s \<noteq> None \<longrightarrow> sp_source s = ''git'') \<and>
     (sp_api_url s \<noteq> None \<longrightarrow> sp_source s \<in> {''firestore'', ''s3''}) \<and>
     (sp_namespace s \<noteq> None \<longrightarrow> sp_source s = ''vault'') \<and>
     credentials_ok s \<and>
     (sp_template s = None \<or> sp_template_inline s = None) \<and>
     (templated s \<or> format_of (sp_out s) \<noteq> None) \<and>
     list_all (\<lambda>r. format_of (rd_out r) \<noteq> None) (sp_also s)"

lemma validated_auth_sound:
  "validated_auth s = Inr () \<Longrightarrow> credentials_ok s"
  by (auto simp: validated_auth_def credentials_ok_def Let_def needs_def consul_auth_def
      vault_auth_def git_auth_def no_auth_def res_simps split: if_splits option.splits)

lemma rendering_format: "parse_rendering m text = Inr r \<Longrightarrow> format_of (rd_out r) \<noteq> None"
  by (auto simp: parse_rendering_def res_simps)

lemma spec_of_sound:
  assumes "spec_of d = Inr s" and "settings_ok d"
  shows "settings_ok s" and "list_all (\<lambda>r. format_of (rd_out r) \<noteq> None) (sp_also s)"
  using assms
  by (auto simp: spec_of_def res_simps settings_ok_def settings.defs Spec.defs list_all_iff
      dest!: rmap_Inr_in_set dest: rendering_format)

lemma validated_eq: "validated s = Inr s' \<Longrightarrow> s' = s"
  by (auto simp: validated_def Let_def res_simps)

lemma validated_facts:
  assumes "validated s = Inr s'"
  shows "sp_source s \<in> set SOURCES" "(sp_tls_cert s \<noteq> None) = (sp_tls_key s \<noteq> None)"
    "sp_reference s = None \<or> sp_source s \<in> set [''git'']" "sp_ssh_key s = None \<or> sp_source s \<in> set [''git'']"
    "sp_api_url s = None \<or> sp_source s \<in> set [''firestore'', ''s3'']"
    "sp_namespace s = None \<or> sp_source s \<in> set [''vault'']"
    "\<not> (sp_template s \<noteq> None \<and> sp_template_inline s \<noteq> None)"
    "templated s \<or> format_of (sp_out s) \<noteq> None"
  using assms unfolding validated_def Let_def only_for_def rbind_eq_Inr ensure_eq_Inr
  by - (elim exE conjE, assumption)+

lemma validated_authenticates:
  assumes "validated s = Inr s'"
  shows "\<exists>u. validated_auth s = Inr u"
  using assms unfolding validated_def Let_def rbind_eq_Inr
  by (elim exE conjE) (rule exI)

lemma only_for_sound: "v = None \<or> source \<in> set sources \<Longrightarrow> v \<noteq> None \<longrightarrow> source \<in> set sources"
  by blast

lemma from_args_sound:
  assumes "from_args env arguments = Inr s"
  shows "spec_ok s"
proof -
  from assms obtain d s0 where d: "read_flags arguments (initial_draft env) = Inr d"
    "spec_of d = Inr s0" "validated s0 = Inr s"
    by (auto simp: from_args_def res_simps)
  then have s0: "s0 = s" using validated_eq by blast
  note base = spec_of_sound [OF d(2) settings_ok_flags [OF d(1)]] and facts = validated_facts [OF d(3)]
  note only = facts(3-6) [THEN only_for_sound, unfolded list.set]
  have "credentials_ok s" using validated_authenticates [OF d(3)] validated_auth_sound unfolding s0 by auto
  moreover have "sp_reference s \<noteq> None \<or> sp_ssh_key s \<noteq> None \<longrightarrow> sp_source s = ''git''"
    "sp_namespace s \<noteq> None \<longrightarrow> sp_source s = ''vault''"
    using only(1,2,4) unfolding s0 by simp_all
  ultimately show ?thesis
    unfolding spec_ok_def using base facts(1,2,7,8) only(3) unfolding s0 by (intro conjI) (assumption | blast)+
qed



definition example_line :: "string list" where
  "example_line = [''--source'', ''consul'', ''--endpoint'', ''http://c'', ''--key'', ''k'',
     ''--out'', ''/c/a.json'', ''--watch'', ''0'', ''--also'', ''out=/c/b.yml,mode=0600'']"

lemma example_line_read:
  "\<exists>s. from_args (\<lambda>_. None) example_line = Inr s \<and> sp_source s = ''consul'' \<and>
     sp_watch s = Some 1 \<and> sp_also s = [\<lparr> rd_out = ''/c/b.yml'', rd_section = None, rd_mode = Some 384 \<rparr>]"
proof -
  have fmts: "format_of ''/c/a.json'' = Some FJson" "format_of ''/c/b.yml'' = Some FYaml" by code_simp+
  have fields: "split_on (CHR '','') ''out=/c/b.yml,mode=0600'' = [''out=/c/b.yml'', ''mode=0600'']"
    by code_simp
  have also_fields: "also_field w ''out=/c/b.yml'' d = Inr (d \<lparr> al_out := Some ''/c/b.yml'' \<rparr>)"
    "also_field w ''mode=0600'' d = Inr (d \<lparr> al_mode := Some 384 \<rparr>)" for w d
    by (simp_all add: also_field_def trim_def trim_start_def trim_end_def is_space_def octal_def
        parse_uint_def strip_prefix_def starts_with_def digit_value_def)
  have zero: "parse_uint 10 64 ''0'' = Some 0"
    by (simp add: parse_uint_def starts_with_def digit_value_def)
  show ?thesis
    by (simp add: from_args_def example_line_def initial_draft_def bare_flags_def value_flag_def
        text_flags_def checked_flags_def set_watch_def u64_of_def zero spec_of_def parse_rendering_def
        fields also_fields fmts settings.defs Spec.defs validated_def SOURCES_def only_for_def
        validated_auth_def consul_auth_def templated_def)
qed


end
