(* ===== verification/Handshake.thy ===== *)
theory Handshake
  imports AgentSpec Accepted
begin

text \<open>
  The two ends of the injected command line: the words the webhook writes into the pod
  (\<open>patch.rs\<close>) read by the agent that starts there (\<open>spec.rs\<close>). The webhook writes them sight
  unseen and the agent refuses what it does not know, so what one writes the other must read.
\<close>

unbundle bit_operations_syntax

section \<open>Further files\<close>

lemma rfold_two: "rfold f [a, b] s = rbind (f a s) (\<lambda>t. rbind (f b t) Inr)"
  by (simp add: rbind_def split: sum.splits)

lemma also_text_read:
  assumes "CHR '','' \<notin> set path" and "pred_option (\<lambda>s. CHR '','' \<notin> set s) sec"
  shows "parse_rendering m
      (''out='' @ path @ (case sec of None \<Rightarrow> [] | Some s \<Rightarrow> '',section='' @ s))
    = rbind (ok_or (format_of path) (AlsoFormat path))
        (\<lambda>_. Inr \<lparr> rd_out = path, rd_section = sec, rd_mode = m \<rparr>)"
proof -
  have name: "trim ''out'' = ''out''" "trim ''section'' = ''section''" by code_simp+
  have out: "split_once (CHR ''='') (''out='' @ path) = Some (''out'', path)"
    using split_once_append [of "CHR ''=''" "''out''" path] by simp
  have first: "also_field w (''out='' @ path) d = Inr (d \<lparr> al_out := Some path \<rparr>)" for w d
    unfolding also_field_def out by (simp add: name)
  show ?thesis
  proof (cases sec)
    case None
    have "split_on (CHR '','') (''out='' @ path) = [''out='' @ path]"
      by (rule split_on_single) (use assms(1) in simp)
    then show ?thesis using None first by (simp add: parse_rendering_def)
  next
    case (Some s)
    have sec_field: "split_once (CHR ''='') (''section='' @ s) = Some (''section'', s)"
      using split_once_append [of "CHR ''=''" "''section''" s] by simp
    have second: "also_field w (''section='' @ s) d = Inr (d \<lparr> al_section := Some s \<rparr>)" for w d
      unfolding also_field_def sec_field by (simp add: name)
    have "split_on (CHR '','') (''section='' @ s) = [''section='' @ s]"
      by (rule split_on_single) (use assms(2) Some in simp)
    moreover have "CHR '','' \<notin> set (''out='' @ path)" using assms(1) by simp
    ultimately have "split_on (CHR '','') ((''out='' @ path) @ CHR '','' # (''section='' @ s))
        = [''out='' @ path, ''section='' @ s]"
      using split_on_append [of "CHR '',''" "''out='' @ path" "''section='' @ s"] by simp
    then have fields: "split_on (CHR '','') (''out='' @ path @ '',section='' @ s)
        = [''out='' @ path, ''section='' @ s]" by simp
    show ?thesis
      unfolding parse_rendering_def Some option.case fields rfold_two first second
      by simp
  qed
qed

text \<open>A file the webhook asks for with \<open>--also\<close> is the file the agent renders: the path and
  the section come back as written, with the main render's permissions, when neither holds the
  comma that separates fields and the path names a format.\<close>

theorem also_reads_back:
  assumes "also_words f = [flag, w]" and "CHR '','' \<notin> set (also_path f)"
    and "pred_option (\<lambda>s. CHR '','' \<notin> set s) (also_section f)" and "format_of (also_path f) \<noteq> None"
  shows "flag = ''--also'' \<and>
    parse_rendering m w = Inr \<lparr> rd_out = also_path f, rd_section = also_section f, rd_mode = m \<rparr>"
proof -
  have "flag = ''--also''"
    and w: "w = ''out='' @ also_path f
      @ (case also_section f of None \<Rightarrow> [] | Some s \<Rightarrow> '',section='' @ s)"
    using assms(1) by (auto simp: also_words_def)
  then show ?thesis unfolding w using also_text_read [OF assms(2,3)] assms(4) by auto
qed

theorem also_reads_back_witness:
  "parse_rendering (Some 416) ''out=/c/db.json,section=db''
     = Inr \<lparr> rd_out = ''/c/db.json'', rd_section = Some ''db'', rd_mode = Some 416 \<rparr>"
proof -
  define f where "f = \<lparr> also_name = ''db'', also_path = ''/c/db.json'', also_section = Some ''db'' \<rparr>"
  have words: "also_words f = [''--also'', ''out=/c/db.json,section=db'']"
    by (simp add: f_def also_words_def)
  have "format_of (also_path f) \<noteq> None" unfolding f_def also_file.simps by code_simp
  then show ?thesis using also_reads_back [OF words, of "Some 416"] by (simp add: f_def)
qed

text \<open>A comma in the section annotation is another field of the agent's: permissions nothing checked.\<close>

lemma also_section_injects:
  "parse_rendering (Some 416) (last (also_words
       \<lparr> also_name = ''db'', also_path = ''/c/db.json'', also_section = Some ''db,mode=04777'' \<rparr>))
     = Inr \<lparr> rd_out = ''/c/db.json'', rd_section = Some ''db'', rd_mode = Some 2559 \<rparr>"
proof -
  have "last (also_words
       \<lparr> also_name = ''db'', also_path = ''/c/db.json'', also_section = Some ''db,mode=04777'' \<rparr>)
     = ''out=/c/db.json,section=db,mode=04777''" by (simp add: also_words_def)
  moreover have "split_on (CHR '','') ''out=/c/db.json,section=db,mode=04777''
     = [''out=/c/db.json'', ''section=db'', ''mode=04777'']" by code_simp
  moreover have "also_field w ''out=/c/db.json'' d = Inr (d \<lparr> al_out := Some ''/c/db.json'' \<rparr>)"
    "also_field w ''section=db'' d = Inr (d \<lparr> al_section := Some ''db'' \<rparr>)"
    "also_field w ''mode=04777'' d = Inr (d \<lparr> al_mode := Some 2559 \<rparr>)" for w d
    by (simp_all add: also_field_def trim_def trim_start_def trim_end_def is_space_def octal_def
        parse_uint_def strip_prefix_def starts_with_def digit_value_def)
  moreover have "format_of ''/c/db.json'' = Some FJson" by code_simp
  ultimately show ?thesis by (simp add: parse_rendering_def)
qed

section \<open>File modes\<close>

lemma octal_zero_prefix: "m < 2 ^ 32 \<Longrightarrow> octal (''0'' @ show_radix 8 m) = Some m"
proof -
  assume m: "m < 2 ^ 32"
  obtain c cs where s: "show_radix 8 m = c # cs" by (cases "show_radix 8 m") simp_all
  have "is_digit c" using show_radix_chars [of c 8 m] s by simp
  then have "strip_prefix ''0o'' (''0'' @ show_radix 8 m) = None"
    by (auto simp: s strip_prefix_def starts_with_def is_digit_def)
  moreover have "digits_value 8 0 (''0'' @ show_radix 8 m) = Some m"
    using digits_value_show [of 8 m] by (simp add: digit_value_def)
  ultimately show ?thesis
    using m by (simp add: octal_def parse_uint_def starts_with_def)
qed

lemma file_mode_agrees:
  assumes "octal_mode ctx t = Inr m"
  shows "\<exists>v. agent_file_mode (''0'' @ m) = Inr v \<and> m = show_radix 8 v"
proof -
  obtain v where v: "m = show_radix 8 v" "v \<le> 511" "v AND 256 \<noteq> 0"
    using octal_mode_sound [OF assms] by auto
  then have "octal (''0'' @ m) = Some v" using octal_zero_prefix [of v] by simp
  with v show ?thesis by (simp add: agent_file_mode_def)
qed


section \<open>Words the agent reads\<close>

text \<open>The refusals admission leaves to the agent: the values of five flags it passes on unread.\<close>

definition left_to_the_agent :: "spec_error \<Rightarrow> bool" where
  "left_to_the_agent e =
     (case e of
        BadFlag f _ \<Rightarrow> f \<in> {''--startup-policy'', ''--on-delete'', ''--max-document-bytes'',
                            ''--max-staleness''}
      | FlagRange f \<Rightarrow> f = ''--max-staleness''
      | FlagEndpoint _ \<Rightarrow> True
      | _ \<Rightarrow> False)"

text \<open>A stretch of words is read when whatever follows it is read next, or such a refusal comes.\<close>

definition reads :: "string list \<Rightarrow> bool" where
  "reads ws \<longleftrightarrow> (\<forall>rest d. (\<exists>d'. read_flags (ws @ rest) d = read_flags rest d') \<or>
     (\<exists>e. read_flags (ws @ rest) d = Inl e \<and> left_to_the_agent e))"

lemma reads_Nil [simp]: "reads []"
  by (auto simp: reads_def)

lemma reads_append [intro]: "reads a \<Longrightarrow> reads b \<Longrightarrow> reads (a @ b)"
  unfolding reads_def by simp metis

lemma reads_concat: "(\<And>ws. ws \<in> set wss \<Longrightarrow> reads ws) \<Longrightarrow> reads (concat wss)"
  by (induction wss) auto

lemma reads_outcome:
  assumes "reads ws" and "read_flags ws d = Inl e"
  shows "left_to_the_agent e"
  using assms unfolding reads_def by (metis append_Nil2 Inl_Inr_False Inl_inject read_flags.simps(1))

lemma reads_bare: "map_of bare_flags flag \<noteq> None \<Longrightarrow> reads [flag]"
  unfolding reads_def by auto

lemma reads_value:
  assumes "map_of bare_flags flag = None" and "value_flag flag = Some f"
    and "\<And>d e. f v d = Inl e \<Longrightarrow> left_to_the_agent e"
  shows "reads [flag, v]"
  unfolding reads_def
proof (intro allI)
  fix rest d
  show "(\<exists>d'. read_flags ([flag, v] @ rest) d = read_flags rest d') \<or>
      (\<exists>e. read_flags ([flag, v] @ rest) d = Inl e \<and> left_to_the_agent e)"
    using assms by (cases "f v d") auto
qed

definition text_words :: "string list" where
  "text_words = [''--source'', ''--endpoint'', ''--key'', ''--out'', ''--section'',
     ''--metrics-addr'', ''--canary'', ''--also'', ''--schema'', ''--auth'', ''--auth-mount'',
     ''--auth-role'', ''--auth-username'', ''--auth-token-path'', ''--namespace'', ''--ref'',
     ''--ssh-key'', ''--api-url'', ''--template'', ''--template-inline'', ''--ca'',
     ''--tls-server-name'', ''--tls-cert'', ''--tls-key'']"

lemma reads_text:
  assumes "flag \<in> set text_words"
  shows "reads [flag, v]"
proof -
  have "list_all (\<lambda>flag. map_of bare_flags flag = None \<and> map_of text_flags flag \<noteq> None) text_words"
    by (simp add: text_words_def bare_flags_def text_flags_def)
  then have "\<exists>f. map_of bare_flags flag = None \<and> map_of text_flags flag = Some f"
    using assms by (auto simp: list_all_iff)
  then obtain f where "map_of bare_flags flag = None" "map_of text_flags flag = Some f" by blast
  then show ?thesis by (intro reads_value [where f = "\<lambda>v d. Inr (f v d)"]) (auto simp: value_flag_def)
qed

lemma checked_names:
  "distinct (map fst checked_flags)"
  "list_all (\<lambda>flag. map_of bare_flags flag = None \<and> map_of text_flags flag = None) (map fst checked_flags)"
  by (simp_all add: checked_flags_def bare_flags_def text_flags_def)

lemma checked_flag:
  assumes "(flag, f) \<in> set checked_flags"
  shows "map_of bare_flags flag = None \<and> value_flag flag = Some f"
proof -
  have "flag \<in> set (map fst checked_flags)" using assms by force
  then have "map_of bare_flags flag = None \<and> map_of text_flags flag = None"
    using checked_names(2) unfolding list_all_iff by blast
  then show ?thesis
    using map_of_is_SomeI [OF checked_names(1) assms] by (simp add: value_flag_def)
qed

lemma reads_checked:
  assumes "(flag, f) \<in> set checked_flags" and "\<And>d e. f v d = Inl e \<Longrightarrow> left_to_the_agent e"
  shows "reads [flag, v]"
  using checked_flag [OF assms(1)] assms(2) reads_value by metis

lemma reads_numbers:
  assumes "n < 2 ^ 64"
  shows "reads [''--watch'', show_nat n]"
    and "1 \<le> n \<Longrightarrow> reads [''--timeout'', show_nat n]"
    and "1 \<le> n \<Longrightarrow> reads [''--revoke-grace'', show_nat n]"
    and "n \<le> MOST_HISTORY \<Longrightarrow> reads [''--history'', show_nat n]"
proof -
  note num = parse_uint_show [of 10 n 64, simplified, OF assms [simplified]]
  show "reads [''--watch'', show_nat n]"
    by (rule reads_checked [where f = set_watch])
      (simp_all add: checked_flags_def set_watch_def u64_of_def num)
  show "1 \<le> n \<Longrightarrow> reads [''--timeout'', show_nat n]"
    by (rule reads_checked [where f = set_timeout])
      (simp_all add: checked_flags_def set_timeout_def seconds_of_def u64_of_def num)
  show "1 \<le> n \<Longrightarrow> reads [''--revoke-grace'', show_nat n]"
    by (rule reads_checked [where f = set_grace])
      (simp_all add: checked_flags_def set_grace_def seconds_of_def u64_of_def num)
  show "n \<le> MOST_HISTORY \<Longrightarrow> reads [''--history'', show_nat n]"
    by (rule reads_checked [where f = set_history])
      (simp_all add: checked_flags_def set_history_def u64_of_def num)
qed

lemma left_outcomes:
  "set_startup_policy v d = Inl e \<Longrightarrow> left_to_the_agent e"
  "set_on_delete v d = Inl e \<Longrightarrow> left_to_the_agent e"
  "set_document_bytes v d = Inl e \<Longrightarrow> left_to_the_agent e"
  "set_staleness v d = Inl e \<Longrightarrow> left_to_the_agent e"
  "set_notify_http v d = Inl e \<Longrightarrow> left_to_the_agent e"
  by (auto simp: set_startup_policy_def startup_policy_of_def set_on_delete_def on_delete_of_def
      set_document_bytes_def set_staleness_def set_notify_http_def seconds_of_def u64_of_def
      res_simps left_to_the_agent_def map_err_def split: if_splits sum.splits)

lemma reads_left:
  "reads [''--startup-policy'', v]" "reads [''--on-delete'', v]"
  "reads [''--max-document-bytes'', v]" "reads [''--max-staleness'', v]" "reads [''--notify-http'', v]"
  by (rule reads_checked [OF _ left_outcomes(1)] reads_checked [OF _ left_outcomes(2)]
      reads_checked [OF _ left_outcomes(3)] reads_checked [OF _ left_outcomes(4)]
      reads_checked [OF _ left_outcomes(5)]; simp add: checked_flags_def)+

lemma reads_drift: "p \<in> {''warn'', ''repair'', ''fail''} \<Longrightarrow> reads [''--on-drift'', p]"
  by (rule reads_checked [where f = set_on_drift])
    (auto simp: checked_flags_def set_on_drift_def agent_drift_of_def)

lemma reads_file_mode:
  assumes "canonical_mode m"
  shows "reads [''--file-mode'', ''0'' @ m]"
proof -
  obtain v where "agent_file_mode (''0'' @ m) = Inr v"
    using assms file_mode_agrees [of "[]" m m] by (auto simp: canonical_mode_def)
  then show ?thesis
    by (intro reads_checked [where f = set_file_mode]) (simp_all add: checked_flags_def set_file_mode_def)
qed

lemma reads_bare_words:
  "reads [''--dynamic'']" "reads [''--meta'']" "reads [''--no-revoke-on-shutdown'']"
  "reads [''--no-tls-reload'']" "reads [''--require-ack'']" "reads [''--events'']"
  "reads [''--tls-skip-verify'']"
  by (rule reads_bare; simp add: bare_flags_def)+


section \<open>The webhook's arguments\<close>

definition mounted_flags :: "string list" where
  "mounted_flags = [''--ssh-key'', ''--ca'', ''--tls-server-name'', ''--template'',
     ''--template-inline'', ''--schema'', ''--tls-cert'', ''--tls-key'']"

definition argument_ok :: "string \<times> string \<Rightarrow> bool" where
  "argument_ok a =
     (case a of (flag, v) \<Rightarrow>
        flag \<in> snd ` set POD_FLAGS \<or> flag \<in> set mounted_flags \<or>
        (flag = ''--tls-skip-verify'' \<and> v = []) \<or>
        (flag = ''--file-mode'' \<and> (\<exists>m. canonical_mode m \<and> v = ''0'' @ m)))"

definition argument_words :: "string \<times> string \<Rightarrow> string list" where
  "argument_words = (\<lambda>(flag, v). if v = [] then [flag] else [flag, v])"

lemma argument_flags:
  "argument_ok (''--auth'', v)" "argument_ok (''--ssh-key'', v)" "argument_ok (''--ca'', v)"
  "argument_ok (''--tls-server-name'', v)" "argument_ok (''--template'', v)"
  "argument_ok (''--template-inline'', v)" "argument_ok (''--schema'', v)"
  "argument_ok (''--tls-cert'', v)" "argument_ok (''--tls-key'', v)"
  "argument_ok (''--tls-skip-verify'', [])"
  "canonical_mode m \<Longrightarrow> argument_ok (''--file-mode'', CHR ''0'' # m)"
  by (simp_all add: argument_ok_def mounted_flags_def POD_FLAGS_def RENDER_FLAGS_def)

lemma pass_through_ok:
  assumes "snd ` set flags \<subseteq> snd ` set POD_FLAGS"
  shows "list_all argument_ok (pass_through flags strings get)"
  unfolding list_all_iff
proof
  fix a assume "a \<in> set (pass_through flags strings get)"
  then have "fst a \<in> snd ` set POD_FLAGS"
    using flags_of_pass_through [of flags strings get] assms by blast
  then show "argument_ok a" unfolding argument_ok_def split_beta by (rule disjI1)
qed

lemma pass_through_oks:
  "list_all argument_ok (pass_through POD_FLAGS strings get)"
  "list_all argument_ok (pass_through RENDER_FLAGS strings get)"
  by (rule pass_through_ok, simp, rule pass_through_ok, auto simp: POD_FLAGS_def)

lemma argument_sources_ok:
  "ssh_arguments label mount strings get ssh = Inr args \<Longrightarrow> list_all argument_ok args"
  "list_all argument_ok (ca_arguments mount ca)"
  "list_all argument_ok (skip_verify_arguments name skip)"
  "pred_option canonical_mode fm \<Longrightarrow> list_all argument_ok (file_mode_arguments fm)"
  "template_of label mount' texts = Inr (t, targs) \<Longrightarrow> list_all argument_ok targs"
  "list_all argument_ok (tls_arguments mount tls)"
  by (auto simp: argument_flags ssh_arguments_def Let_def ca_arguments_def skip_verify_arguments_def
      file_mode_arguments_def template_of_def tls_arguments_def
      split: option.splits if_splits prod.splits)

lemma pod_arguments_ok:
  assumes "pod_arguments strings get inst = Inr (ssh, ca, skip, args)"
  shows "list_all argument_ok args"
proof -
  obtain ssh_args where "ssh_arguments id SSH_MOUNT strings get ssh = Inr ssh_args"
    "args = pass_through POD_FLAGS strings get @ ssh_args @ ca_arguments CA_MOUNT ca
       @ skip_verify_arguments (defaulted strings get ''tls-server-name'') skip"
    using assms(1) by (auto simp: pod_arguments_def Let_def res_simps)
  then show ?thesis by (simp add: pass_through_oks argument_sources_ok)
qed

lemma late_arguments_ok:
  assumes "late_arguments strings get fm = Inr (t, schema, tls, args)"
    and "pred_option canonical_mode fm"
  shows "list_all argument_ok args"
proof -
  obtain targs where targs: "template_of id TEMPLATE_MOUNT
      (as_level strings get ''template'' ''template-configmap'') = Inr (t, targs)"
    and args: "args = file_mode_arguments fm @ targs
       @ (case schema of None \<Rightarrow> [] | Some r \<Rightarrow> [(''--schema'', SCHEMA_MOUNT @ ''/'' @ object_key r)])
       @ tls_arguments TLS_MOUNT tls"
    using assms(1) by (auto simp: late_arguments_def Let_def res_simps)
  show ?thesis
    unfolding args using argument_sources_ok(5) [OF targs] assms(2)
    by (simp add: argument_sources_ok argument_flags split: option.splits)
qed

lemma extra_arguments_ok:
  assumes "extra_arguments suffix get inst source strings = Inr (ca, ssh, tls, t, args)"
    and "installation_ok inst"
  shows "list_all argument_ok args"
proof -
  obtain ssh_args skip fm targs where parts:
    "ssh_arguments (suffixed suffix) (SSH_MOUNT @ ''-'' @ suffix) strings get ssh = Inr ssh_args"
    "file_mode_of (suffixed suffix) get inst (Some source) = Inr fm"
    "template_of (suffixed suffix) (TEMPLATE_MOUNT @ ''-'' @ suffix)
       (as_level strings get ''template'' ''template-configmap'') = Inr (t, targs)"
    "args = pass_through RENDER_FLAGS strings get @ ssh_args
       @ ca_arguments (CA_MOUNT @ ''-'' @ suffix) ca
       @ skip_verify_arguments (defaulted strings get ''tls-server-name'') skip
       @ file_mode_arguments fm @ targs @ tls_arguments (TLS_MOUNT @ ''-'' @ suffix) tls"
    using assms(1) by (auto simp: extra_arguments_def Let_def res_simps)
  have "pred_option canonical_mode fm"
    using parts(2) file_mode_canonical [OF _ assms(2)] by (cases fm) auto
  then show ?thesis
    unfolding parts(4) using argument_sources_ok(1) [OF parts(1)] argument_sources_ok(5) [OF parts(3)]
    by (simp add: pass_through_oks argument_sources_ok)
qed

lemma reads_pod_flag:
  assumes "flag \<in> snd ` set POD_FLAGS"
  shows "reads [flag, v]"
proof -
  have "flag \<in> set text_words \<or> flag \<in> {''--startup-policy'', ''--on-delete'',
      ''--max-document-bytes'', ''--max-staleness''}"
    using assms unfolding POD_FLAGS_def RENDER_FLAGS_def by (auto simp: text_words_def)
  then show ?thesis using reads_text reads_left by blast
qed

text \<open>An argument of a value flag with no value would make the next flag its value.\<close>

lemma reads_argument:
  assumes "argument_ok a" and "snd a = [] \<longrightarrow> fst a = ''--tls-skip-verify''"
  shows "reads (argument_words a)"
proof -
  obtain flag v where a: "a = (flag, v)" by (cases a)
  show ?thesis
  proof (cases "v = []")
    case True
    then show ?thesis using assms(2) reads_bare_words(7) by (simp add: a argument_words_def)
  next
    case False
    then consider "flag \<in> snd ` set POD_FLAGS" | "flag \<in> set mounted_flags"
      | m where "flag = ''--file-mode''" "canonical_mode m" "v = ''0'' @ m"
      using assms(1) by (auto simp: a argument_ok_def)
    then have "reads [flag, v]"
    proof cases
      case 2
      then have "flag \<in> set text_words" by (auto simp: mounted_flags_def text_words_def)
      then show ?thesis by (rule reads_text)
    qed (use reads_pod_flag reads_file_mode in auto)
    then show ?thesis using False by (simp add: a argument_words_def)
  qed
qed

lemma flag_words_concat: "flag_words args = concat (map argument_words args)"
  by (simp add: flag_words_def argument_words_def cong: map_cong)

lemma reads_flag_words:
  assumes "list_all argument_ok args"
    and "\<forall>a \<in> set args. snd a = [] \<longrightarrow> fst a = ''--tls-skip-verify''"
  shows "reads (flag_words args)"
  unfolding flag_words_concat
  using assms by (intro reads_concat) (auto simp: list_all_iff intro: reads_argument)


section \<open>The whole line\<close>

lemma remaining_stages:
  assumes "read_request get pod inst extra_names also_names = Inr r"
  shows "timeout_of (store_strings inst (Some (rq_source r))) get = Inr (rq_timeout r)"
    and "on_drift_of get = Inr (rq_on_drift r)"
  using assms
  unfolding read_request_def Let_def split_beta rbind_eq_Inr sum.inject ensure_eq_Inr ok_or_eq_Inr
  by (elim exE conjE, hypsubst, simp)+

lemma watch_seconds_bound:
  assumes "watch_seconds_of label get inst src = Inr n" and "installation_ok inst"
  shows "n < 2 ^ 64"
  using assms
  by (auto simp: watch_seconds_of_def res_simps knob_eq_Some supplied_eq_Some installation_ok_def
      tier_ok_def list_all_iff store_tier_def unwrap_or_def
      dest!: map_of_SomeD dest: parse_uint_less split: option.splits)

lemma number_bounds:
  "timeout_of strings get = Inr (Some n) \<Longrightarrow> 1 \<le> n \<and> n < 2 ^ 64"
  "lease_of get pod = Inr (meta, dynamic, revoke, Some n) \<Longrightarrow> 1 \<le> n \<and> n < 2 ^ 64"
  "on_drift_of get = Inr (Some p) \<Longrightarrow> p \<in> {''warn'', ''repair'', ''fail''}"
  by (auto simp: timeout_of_def lease_of_def revoke_grace_of_def on_drift_of_def res_simps
      dest!: parse_uint_less split: option.splits if_splits)

lemma reads_opt_flag: "(\<And>t. v = Some t \<Longrightarrow> reads [flag, t]) \<Longrightarrow> reads (opt_flag flag v)"
  by (cases v) (auto simp: opt_flag_def)

lemma reads_bare_flag: "reads [flag] \<Longrightarrow> reads (bare_flag flag b)"
  by (simp add: bare_flag_def)

lemma reads_texts:
  "reads [''--source'', v]" "reads [''--endpoint'', v]" "reads [''--key'', v]" "reads [''--out'', v]"
  "reads [''--canary'', v]" "reads [''--metrics-addr'', v]"
  by (rule reads_text, simp add: text_words_def)+

lemma reads_address: "reads [''--key'', k, ''--out'', p]"
  using reads_append [OF reads_texts(3) [of k] reads_texts(4) [of p]] by simp

lemma reads_also_words: "reads (also_words f)"
  unfolding also_words_def by (rule reads_text) (simp add: text_words_def)

lemma reads_watching_words:
  assumes "read_request get pod inst en an = Inr r" and "installation_ok inst"
  shows "reads (watching_words r)"
proof -
  note stages = read_request_stages [OF assms(1)] and more = remaining_stages [OF assms(1)]
  have history: "reads [''--history'', t]" if set: "map_option show_nat (rq_history r) = Some t" for t
  proof -
    obtain n where n: "rq_history r = Some n" "t = show_nat n"
      using set by (cases "rq_history r") auto
    then have "n \<le> MOST_HISTORY" using stages(19) history_bounds by metis
    then show ?thesis using reads_numbers(4) [of n] n(2) by (simp add: MOST_HISTORY_def)
  qed
  have timeout: "reads [''--timeout'', t]" if set: "map_option show_nat (rq_timeout r) = Some t" for t
  proof -
    obtain n where n: "rq_timeout r = Some n" "t = show_nat n"
      using set by (cases "rq_timeout r") auto
    then have "1 \<le> n \<and> n < 2 ^ 64" using more(1) number_bounds(1) by metis
    then show ?thesis using reads_numbers(2) [of n] n(2) by blast
  qed
  have grace: "reads [''--revoke-grace'', t]" if set: "map_option show_nat (rq_revoke_grace r) = Some t" for t
  proof -
    obtain n where n: "rq_revoke_grace r = Some n" "t = show_nat n"
      using set by (cases "rq_revoke_grace r") auto
    then have "1 \<le> n \<and> n < 2 ^ 64" using stages(16) number_bounds(2) by metis
    then show ?thesis using reads_numbers(3) [of n] n(2) by blast
  qed
  have drift: "reads [''--on-drift'', t]" if "rq_on_drift r = Some t" for t
    by (rule reads_drift, rule number_bounds(3) [of get]) (use more(2) that in simp)
  show ?thesis
    unfolding watching_words_def
    by (intro reads_append reads_bare_flag reads_bare_words reads_opt_flag)
      (auto intro: history timeout grace drift reads_left(5) reads_texts(5) split: if_splits)
qed

lemma reads_metrics_words: "reads (metrics_words port watch)"
  by (auto simp: metrics_words_def reads_texts split: option.splits)

lemma reads_agent_words:
  assumes "read_request get pod inst en an = Inr r" and "installation_ok inst"
    and "\<forall>a \<in> set (rq_arguments r). snd a = [] \<longrightarrow> fst a = ''--tls-skip-verify''"
  shows "reads (agent_words r watch)"
proof -
  note stages = read_request_stages [OF assms(1)]
  obtain args late where split: "rq_arguments r = args @ late"
    and args: "pod_arguments (store_strings inst (Some (rq_source r))) get inst
                 = Inr (rq_ssh r, rq_ca r, rq_tls_skip_verify r, args)"
    and late: "late_arguments (store_strings inst (Some (rq_source r))) get (rq_file_mode r)
                 = Inr (rq_template r, rq_schema r, rq_tls r, late)"
    using stages(7) by blast
  have "pred_option canonical_mode (rq_file_mode r)"
    using stages(11) file_mode_canonical [OF _ assms(2)] by (cases "rq_file_mode r") auto
  then have "list_all argument_ok (rq_arguments r)"
    using pod_arguments_ok [OF args] late_arguments_ok [OF late] split by simp
  then have flags: "reads (flag_words (rq_arguments r))" using assms(3) by (rule reads_flag_words)
  have watching: "reads [''--watch'', show_nat (rq_watch_seconds r)]"
    using watch_seconds_bound [OF stages(5) assms(2)] by (rule reads_numbers(1))
  have alsos: "reads (concat (map also_words (rq_also r)))"
    by (rule reads_concat) (auto intro: reads_also_words)
  show ?thesis
    unfolding agent_words_def
    using reads_watching_words [OF assms(1,2)] watching
    by (intro reads_append reads_bare_flag reads_bare_words reads_opt_flag flags alsos reads_texts
        reads_address) simp_all
qed

lemma reads_extra_words:
  assumes "extra_render suffix get path inst = Inr x" and "installation_ok inst"
    and "\<forall>a \<in> set (x_arguments x). snd a = [] \<longrightarrow> fst a = ''--tls-skip-verify''"
  shows "reads (extra_words x watch)"
proof -
  obtain ca ssh tls t strings where args: "extra_arguments suffix get inst (x_source x) strings
      = Inr (ca, ssh, tls, t, x_arguments x)"
    and seconds: "watch_seconds_of (suffixed suffix) get inst (Some (x_source x)) = Inr (x_watch_seconds x)"
    using assms(1)
    unfolding extra_render_def Let_def split_beta rbind_eq_Inr sum.inject ensure_eq_Inr ok_or_eq_Inr
    by (elim exE conjE) (hypsubst, force simp: prod_eq_iff)
  have flags: "reads (flag_words (x_arguments x))"
    using extra_arguments_ok [OF args assms(2)] assms(3) by (rule reads_flag_words)
  have "reads [''--watch'', show_nat (x_watch_seconds x)]"
    using watch_seconds_bound [OF seconds assms(2)] by (rule reads_numbers(1))
  then show ?thesis
    unfolding extra_words_def
    by (intro reads_append reads_opt_flag flags reads_texts reads_address) simp_all
qed

definition no_empty_values :: "Request \<Rightarrow> bool" where
  "no_empty_values r \<longleftrightarrow>
     list_all (list_all (\<lambda>a. snd a = [] \<longrightarrow> fst a = ''--tls-skip-verify''))
       (rq_arguments r # map x_arguments (rq_extra r))"

text \<open>C6: the agent understands the command line admission wrote for it. For every accepted pod
  whose pass-through annotations are not empty, and for each of its agents, main or named, init
  container or sidecar, the flag loop knows every flag and finds every value; what it can still
  refuse is the text of a start-up, delete, size or staleness setting, or of the reload address,
  which admission passes on unread.\<close>

theorem agent_understands_webhook:
  assumes "of_pod_with pod inst = Inr (Some r)" and "installation_ok inst" and "no_empty_values r"
    and "ws \<in> {agent_words r watch @ metrics_words (rq_metrics_port r) watch} \<union>
      (\<lambda>x. extra_words x watch @ metrics_words (x_metrics_port x) watch) ` set (rq_extra r)"
  shows "case read_flags ws d of Inl e \<Rightarrow> left_to_the_agent e | Inr _ \<Rightarrow> True"
proof -
  obtain anns en an where read: "read_request (annotation anns) pod inst en an = Inr r"
    using assms(1) by (rule of_pod_with_request)
  have "reads (agent_words r watch)"
    using assms(3) by (intro reads_agent_words [OF read assms(2)]) (simp add: no_empty_values_def list_all_iff)
  moreover have "reads (extra_words x watch)" if "x \<in> set (rq_extra r)" for x
  proof (rule extras_member [OF read_request_stages(26) [OF read] that])
    fix suffix
    assume "extra_render suffix (\<lambda>name. annotation anns (suffixed suffix name)) (Some (rq_path r)) inst = Inr x"
    then show ?thesis
      using assms(2,3) that by (intro reads_extra_words) (auto simp: no_empty_values_def list_all_iff)
  qed
  ultimately have "reads ws" using assms(4) reads_metrics_words by auto
  then show ?thesis using reads_outcome [of ws d] by (auto split: sum.splits)
qed

lemma example_arguments:
  obtains r where "of_pod_with example_pod pinning_install = Inr (Some r)" and "no_empty_values r"
proof -
  obtain r where r: "of_pod_with example_pod pinning_install = Inr (Some r)" by (rule example_request)
  have "annotations_of example_pod = Some example_notes" by code_simp
  then have read: "read_request example_get example_pod pinning_install [] [] = Inr r"
    using r by (simp add: of_pod_with_def Let_def example_stages(1,2) res_simps)
  note stages = read_request_stages [OF read]
  have src: "rq_source r = ''vault''" using stages(1) example_stages(3) by simp
  have fm: "rq_file_mode r = Some ''640''" using stages(11) src example_stages(16) by simp
  have "rq_arguments r = [(''--file-mode'', ''0640'')]"
    using stages(7) unfolding src fm example_stages(4,12,35) by auto
  moreover have "rq_extra r = []" using stages(26) by (simp add: extras_of_def)
  ultimately have "no_empty_values r" by (simp add: no_empty_values_def)
  with r show ?thesis by (rule that)
qed

theorem agent_understands_webhook_witness:
  "\<exists>r. of_pod_with example_pod pinning_install = Inr (Some r) \<and>
     (case read_flags (agent_words r True @ metrics_words (rq_metrics_port r) True) (initial_draft (\<lambda>_. None)) of
        Inl e \<Rightarrow> left_to_the_agent e | Inr _ \<Rightarrow> True)"
proof -
  obtain r where r: "of_pod_with example_pod pinning_install = Inr (Some r)" "no_empty_values r"
    by (rule example_arguments)
  show ?thesis
    using agent_understands_webhook [OF r(1) pinning_install_ok r(2),
        of "agent_words r True @ metrics_words (rq_metrics_port r) True" True] r(1) by blast
qed

text \<open>
  With an empty value the pair collapses to its flag, which takes the next flag for its value: the
  pod asked for a section of no name and gets an agent that refuses to start.
\<close>

lemma empty_value_swallows_a_flag:
  "read_flags (flag_words [(''--section'', []), (''--file-mode'', ''0640'')]) d
     = Inl (UnknownFlag ''0640'')"
  by (simp add: flag_words_def bare_flags_def value_flag_def text_flags_def checked_flags_def)

end
