(* ===== verification/Setters.thy ===== *)
theory Setters
  imports AgentSpec
begin

text \<open>
  Reading the agent's command line, one argument at a time (\<open>from_args\<close> of \<open>spec.rs\<close>): a line of known flags
  is the setters of its arguments applied in order, each setter moves one field, and so a field holds what the
  last argument of its flag put there. What the flags are and do is \<open>AgentSpec\<close>'s.
\<close>

section \<open>Arguments\<close>

datatype arg = Bare string | Valued string string

fun arg_words :: "arg \<Rightarrow> string list" where
  "arg_words (Bare flag) = [flag]"
| "arg_words (Valued flag v) = [flag, v]"

fun arg_flag :: "arg \<Rightarrow> string" where
  "arg_flag (Bare flag) = flag"
| "arg_flag (Valued flag v) = flag"

fun put_arg :: "arg \<Rightarrow> draft \<Rightarrow> spec_error + draft" where
  "put_arg (Bare flag) d =
     (case map_of bare_flags flag of None \<Rightarrow> Inl (UnknownFlag flag) | Some put \<Rightarrow> Inr (put d))"
| "put_arg (Valued flag v) d =
     (case value_flag flag of None \<Rightarrow> Inl (UnknownFlag flag) | Some put \<Rightarrow> put v d)"

fun arg_known :: "arg \<Rightarrow> bool" where
  "arg_known (Bare flag) \<longleftrightarrow> map_of bare_flags flag \<noteq> None"
| "arg_known (Valued flag v) \<longleftrightarrow> map_of bare_flags flag = None \<and> value_flag flag \<noteq> None"

lemma read_arguments:
  "list_all arg_known as \<Longrightarrow> read_flags (concat (map arg_words as)) d = rfold put_arg as d"
proof (induction as arbitrary: d)
  case (Cons a as)
  then show ?case by (cases a) (auto simp: rbind_def split: sum.splits)
qed simp

section \<open>Which flag moves a field\<close>

definition moved_only_by :: "string set \<Rightarrow> (draft \<Rightarrow> 'x) \<Rightarrow> bool" where
  "moved_only_by flags field \<longleftrightarrow>
     (\<forall>a d d'. arg_flag a \<notin> flags \<longrightarrow> put_arg a d = Inr d' \<longrightarrow> field d' = field d)"

lemma moved_only_byI:
  assumes "\<And>g f d. (g, f) \<in> set bare_flags \<Longrightarrow> g \<notin> flags \<Longrightarrow> field (f d) = field d"
    and "\<And>g f v d. (g, f) \<in> set text_flags \<Longrightarrow> g \<notin> flags \<Longrightarrow> field (f v d) = field d"
    and "\<And>g f v d d'. (g, f) \<in> set checked_flags \<Longrightarrow> g \<notin> flags \<Longrightarrow> f v d = Inr d' \<Longrightarrow> field d' = field d"
  shows "moved_only_by flags field"
  unfolding moved_only_by_def
proof (intro allI impI)
  fix a d d'
  assume a: "arg_flag a \<notin> flags" "put_arg a d = Inr d'"
  show "field d' = field d"
  proof (cases a)
    case (Bare g)
    then show ?thesis using a assms(1) [OF flag_entry] by (auto split: option.splits)
  next
    case (Valued g v)
    then obtain put where put: "value_flag g = Some put" "put v d = Inr d'" using a(2) by (auto split: option.splits)
    show ?thesis
    proof (cases "map_of text_flags g")
      case (Some f)
      then show ?thesis using put a(1) assms(2) [OF flag_entry] Valued by (auto simp: value_flag_def or_else_def)
    next
      case None
      then show ?thesis using put a(1) assms(3) [OF flag_entry] Valued by (auto simp: value_flag_def or_else_def)
    qed
  qed
qed

lemma moved_only_byD:
  "moved_only_by flags field \<Longrightarrow> put_arg a d = Inr d' \<Longrightarrow> arg_flag a \<notin> flags \<Longrightarrow> field d' = field d"
  unfolding moved_only_by_def by blast

definition said :: "string \<Rightarrow> arg list \<Rightarrow> arg list" where
  "said flag as = filter (\<lambda>a. arg_flag a = flag) as"

lemma said_simps [simp]:
  "said flag [] = []" "said flag (a # as) = (if arg_flag a = flag then a # said flag as else said flag as)"
  "said flag (as @ bs) = said flag as @ said flag bs"
  by (simp_all add: said_def)

lemma said_nothing: "flag \<notin> arg_flag ` set as \<Longrightarrow> said flag as = []"
  by (auto simp: said_def filter_empty_conv)

lemma unmoved:
  assumes "moved_only_by flags field" and "rfold put_arg as d = Inr d'" and "\<forall>g \<in> flags. said g as = []"
  shows "field d' = field d"
  using assms(2,3)
proof (induction as arbitrary: d)
  case (Cons a as)
  then obtain e where e: "put_arg a d = Inr e" "rfold put_arg as e = Inr d'" by (auto simp: res_simps)
  have "arg_flag a \<notin> flags" using Cons.prems(2) by auto
  moreover have "\<forall>g \<in> flags. said g as = []" using Cons.prems(2) by (auto split: if_splits)
  ultimately show ?case using Cons.IH [OF e(2)] moved_only_byD [OF assms(1) e(1)] by simp
qed simp

text \<open>A field whose flag comes once holds what that argument put there.\<close>

lemma moved_once:
  assumes "moved_only_by flags field" and "rfold put_arg as d = Inr d'" and "said flag as = [a]"
    and "\<forall>g \<in> flags - {flag}. said g as = []"
  shows "\<exists>e e'. put_arg a e = Inr e' \<and> field d' = field e'"
  using assms(2-)
proof (induction as arbitrary: d)
  case (Cons b as)
  then obtain e where e: "put_arg b d = Inr e" "rfold put_arg as e = Inr d'" by (auto simp: res_simps)
  have others: "\<forall>g \<in> flags - {flag}. said g as = []" using Cons.prems(3) by (auto split: if_splits)
  show ?case
  proof (cases "arg_flag b = flag")
    case True
    with Cons.prems(2) have "b = a" "said flag as = []" by simp_all
    with others have "\<forall>g \<in> flags. said g as = []" by blast
    then show ?thesis using e \<open>b = a\<close> unmoved [OF assms(1) e(2)] by blast
  next
    case False
    then show ?thesis using Cons.IH [OF e(2) _ others] Cons.prems(2) by simp
  qed
qed simp

section \<open>The fields\<close>

text \<open>The settings that are texts, and the flags they are passed in.\<close>

definition passed_flags :: "string list" where
  "passed_flags = [
     ''--section'', ''--auth'', ''--auth-mount'', ''--auth-role'', ''--auth-username'',
     ''--auth-token-path'', ''--namespace'', ''--ref'', ''--api-url'', ''--ssh-key'',
     ''--template'', ''--template-inline'', ''--schema'', ''--ca'', ''--tls-cert'',
     ''--tls-key'', ''--tls-server-name'']"

definition passed_texts :: "'a settings_scheme \<Rightarrow> string option list" where
  "passed_texts s = [
     sp_section s, sp_auth s, sp_auth_mount s, sp_auth_role s, sp_auth_username s,
     sp_auth_token_path s, sp_namespace s, sp_reference s, sp_api_url s, sp_ssh_key s,
     sp_template s, sp_template_inline s, sp_schema s, sp_ca s, sp_tls_cert s, sp_tls_key s,
     sp_tls_server_name s]"

lemmas setters = set_watch_def set_document_bytes_def set_timeout_def set_history_def set_staleness_def
  set_grace_def set_startup_policy_def set_on_delete_def set_on_drift_def set_notify_http_def set_file_mode_def

lemma setter_moves:
  "set_watch v d = Inr d' \<Longrightarrow> \<exists>n. d' = d \<lparr> sp_watch := Some n \<rparr>"
  "set_document_bytes v d = Inr d' \<Longrightarrow> \<exists>n. d' = d \<lparr> sp_max_document_bytes := Some n \<rparr>"
  "set_timeout v d = Inr d' \<Longrightarrow> \<exists>n. d' = d \<lparr> sp_timeout := Some n \<rparr>"
  "set_history v d = Inr d' \<Longrightarrow> \<exists>n. d' = d \<lparr> sp_history := n \<rparr>"
  "set_staleness v d = Inr d' \<Longrightarrow> \<exists>n. d' = d \<lparr> sp_max_staleness := Some n \<rparr>"
  "set_grace v d = Inr d' \<Longrightarrow> \<exists>n. d' = d \<lparr> sp_revoke_grace := n \<rparr>"
  "set_startup_policy v d = Inr d' \<Longrightarrow> \<exists>p. d' = d \<lparr> sp_startup_policy := p \<rparr>"
  "set_on_delete v d = Inr d' \<Longrightarrow> \<exists>p. d' = d \<lparr> sp_on_delete := p \<rparr>"
  "set_on_drift v d = Inr d' \<Longrightarrow> \<exists>p. d' = d \<lparr> sp_on_drift := p \<rparr>"
  "set_notify_http v d = Inr d' \<Longrightarrow> \<exists>e. d' = d \<lparr> sp_notify_http := Some e \<rparr>"
  "set_file_mode v d = Inr d' \<Longrightarrow> \<exists>m. d' = d \<lparr> sp_file_mode := Some m \<rparr>"
  by (auto simp: setters res_simps split: if_splits)

lemma moved_by:
  assumes "list_all (\<lambda>(g, f). g \<notin> flags \<longrightarrow> (\<forall>d. field (f d) = field d)) bare_flags"
    and "list_all (\<lambda>(g, f). g \<notin> flags \<longrightarrow> (\<forall>v d. field (f v d) = field d)) text_flags"
    and "\<And>d x. ''--watch'' \<notin> flags \<Longrightarrow> field (d \<lparr> sp_watch := x \<rparr>) = field d"
    and "\<And>d x. ''--max-document-bytes'' \<notin> flags \<Longrightarrow> field (d \<lparr> sp_max_document_bytes := x \<rparr>) = field d"
    and "\<And>d x. ''--timeout'' \<notin> flags \<Longrightarrow> field (d \<lparr> sp_timeout := x \<rparr>) = field d"
    and "\<And>d x. ''--history'' \<notin> flags \<Longrightarrow> field (d \<lparr> sp_history := x \<rparr>) = field d"
    and "\<And>d x. ''--max-staleness'' \<notin> flags \<Longrightarrow> field (d \<lparr> sp_max_staleness := x \<rparr>) = field d"
    and "\<And>d x. ''--revoke-grace'' \<notin> flags \<Longrightarrow> field (d \<lparr> sp_revoke_grace := x \<rparr>) = field d"
    and "\<And>d x. ''--startup-policy'' \<notin> flags \<Longrightarrow> field (d \<lparr> sp_startup_policy := x \<rparr>) = field d"
    and "\<And>d x. ''--on-delete'' \<notin> flags \<Longrightarrow> field (d \<lparr> sp_on_delete := x \<rparr>) = field d"
    and "\<And>d x. ''--on-drift'' \<notin> flags \<Longrightarrow> field (d \<lparr> sp_on_drift := x \<rparr>) = field d"
    and "\<And>d x. ''--notify-http'' \<notin> flags \<Longrightarrow> field (d \<lparr> sp_notify_http := x \<rparr>) = field d"
    and "\<And>d x. ''--file-mode'' \<notin> flags \<Longrightarrow> field (d \<lparr> sp_file_mode := x \<rparr>) = field d"
  shows "moved_only_by flags field"
proof (rule moved_only_byI)
  show "(g, f) \<in> set bare_flags \<Longrightarrow> g \<notin> flags \<Longrightarrow> field (f d) = field d" for g f d
    using assms(1) by (auto simp: list_all_iff)
  show "(g, f) \<in> set text_flags \<Longrightarrow> g \<notin> flags \<Longrightarrow> field (f v d) = field d" for g f v d
    using assms(2) by (auto simp: list_all_iff)
next
  fix g f v d d'
  assume g: "(g, f) \<in> set checked_flags" "g \<notin> flags" and set: "f v d = Inr d'"
  from g consider "''--watch'' \<notin> flags" "f = set_watch" | "''--max-document-bytes'' \<notin> flags" "f = set_document_bytes"
    | "''--timeout'' \<notin> flags" "f = set_timeout" | "''--history'' \<notin> flags" "f = set_history"
    | "''--max-staleness'' \<notin> flags" "f = set_staleness" | "''--revoke-grace'' \<notin> flags" "f = set_grace"
    | "''--startup-policy'' \<notin> flags" "f = set_startup_policy" | "''--on-delete'' \<notin> flags" "f = set_on_delete"
    | "''--on-drift'' \<notin> flags" "f = set_on_drift" | "''--notify-http'' \<notin> flags" "f = set_notify_http"
    | "''--file-mode'' \<notin> flags" "f = set_file_mode"
    unfolding checked_flags_def by auto
  then show "field d' = field d"
    using set by cases (auto simp: assms(3-) dest!: setter_moves)
qed

lemma passed_length [simp]: "length passed_flags = 17" "length (passed_texts s) = 17"
  by (simp_all add: passed_flags_def passed_texts_def)

lemma passed_moved: "list_all (\<lambda>i. moved_only_by {passed_flags ! i} (\<lambda>d. passed_texts d ! i)) [0..<17]"
  by (simp add: upt_rec passed_flags_def passed_texts_def)
    (intro conjI moved_by; simp add: bare_flags_def text_flags_def)

lemma passed_put:
  "list_all (\<lambda>i. \<forall>v d d'. put_arg (Valued (passed_flags ! i) v) d = Inr d' \<longrightarrow> passed_texts d' ! i = Some v) [0..<17]"
  by (simp add: upt_rec passed_flags_def passed_texts_def value_flag_def or_else_def text_flags_def)

end
