(* ===== verification/Asked.thy ===== *)
theory Asked
  imports Handshake Setters "HOL-Library.Sublist"
begin

text \<open>
  What a pod asks for and what its agent runs with: the request of \<open>annotations.rs\<close>, written as a command
  line by \<open>patch.rs\<close>, read back by \<open>spec.rs\<close>. The line is written as arguments once more, the arguments of an
  accepted request are shown to come once each, and every setting of the agent that reads them is the request's.
\<close>

section \<open>The line of a request\<close>

definition opt_arg :: "string \<Rightarrow> string option \<Rightarrow> arg list" where
  "opt_arg flag v = (case v of None \<Rightarrow> [] | Some t \<Rightarrow> [Valued flag t])"

definition bare_arg :: "string \<Rightarrow> bool \<Rightarrow> arg list" where
  "bare_arg flag b = (if b then [Bare flag] else [])"

definition arg_of :: "string \<times> string \<Rightarrow> arg" where
  "arg_of a = (case a of (flag, v) \<Rightarrow> if v = [] then Bare flag else Valued flag v)"

definition also_text :: "also_file \<Rightarrow> string" where
  "also_text f = ''out='' @ also_path f @ (case also_section f of None \<Rightarrow> [] | Some s \<Rightarrow> '',section='' @ s)"

definition head_args :: "Request \<Rightarrow> arg list" where
  "head_args r =
     [Valued ''--source'' (rq_source r)] @ opt_arg ''--endpoint'' (rq_endpoint r)
     @ [Valued ''--key'' (rq_key r), Valued ''--out'' (rq_path r)]"

definition watching_args :: "Request \<Rightarrow> arg list" where
  "watching_args r =
     bare_arg ''--meta'' (rq_meta r)
     @ bare_arg ''--no-revoke-on-shutdown'' (rq_dynamic r \<and> \<not> rq_revoke_on_shutdown r)
     @ opt_arg ''--notify-http'' (rq_notify_http r)
     @ opt_arg ''--on-drift'' (rq_on_drift r)
     @ bare_arg ''--no-tls-reload'' (\<not> rq_tls_reload r)
     @ opt_arg ''--history'' (map_option show_nat (rq_history r))
     @ bare_arg ''--require-ack'' (rq_require_ack r)
     @ bare_arg ''--events'' (rq_events r)
     @ opt_arg ''--timeout'' (map_option show_nat (rq_timeout r))
     @ opt_arg ''--canary'' (map_option (\<lambda>c. CANARY_MOUNT @ ''/'' @ object_key c) (rq_canary r))
     @ opt_arg ''--revoke-grace''
         (if rq_dynamic r \<and> rq_revoke_on_shutdown r then map_option show_nat (rq_revoke_grace r) else None)"

definition tail_args :: "Request \<Rightarrow> bool \<Rightarrow> arg list" where
  "tail_args r watch =
     opt_arg ''--watch'' (if watch then Some (show_nat (rq_watch_seconds r)) else None)
     @ bare_arg ''--dynamic'' (rq_dynamic r)
     @ map (\<lambda>f. Valued ''--also'' (also_text f)) (rq_also r)
     @ (if watch then watching_args r else [])
     @ opt_arg ''--metrics-addr''
         (if watch then map_option (\<lambda>p. ''0.0.0.0:'' @ show_nat p) (rq_metrics_port r) else None)"

definition request_args :: "Request \<Rightarrow> bool \<Rightarrow> arg list" where
  "request_args r watch = head_args r @ map arg_of (rq_arguments r) @ tail_args r watch"

lemma arg_words_simps [simp]:
  "concat (map arg_words (opt_arg flag v)) = opt_flag flag v"
  "concat (map arg_words (bare_arg flag b)) = bare_flag flag b"
  "concat (map (arg_words \<circ> arg_of) args) = flag_words args"
  by (auto simp: opt_arg_def opt_flag_def bare_arg_def bare_flag_def flag_words_def arg_of_def comp_def
      split: option.splits intro!: arg_cong [where f = concat])

lemma words_of_request:
  "agent_words r watch @ metrics_words (rq_metrics_port r) watch = concat (map arg_words (request_args r watch))"
proof -
  have "concat (map arg_words (map (\<lambda>f. Valued ''--also'' (also_text f)) fs)) = concat (map also_words fs)" for fs
    by (induction fs) (simp_all add: also_text_def also_words_def)
  moreover have "metrics_words (rq_metrics_port r) watch = opt_flag ''--metrics-addr''
      (if watch then map_option (\<lambda>p. ''0.0.0.0:'' @ show_nat p) (rq_metrics_port r) else None)"
    by (simp add: metrics_words_def opt_flag_def split: option.split)
  ultimately show ?thesis
    by (simp add: request_args_def head_args_def tail_args_def watching_args_def agent_words_def
        watching_words_def opt_flag_def)
qed

section \<open>The arguments of an accepted request\<close>

definition pod_flag_names :: "string list" where
  "pod_flag_names = map snd POD_FLAGS @ mounted_flags @ [''--tls-skip-verify'', ''--file-mode'']"

lemma argument_flag: "argument_ok a \<Longrightarrow> fst a \<in> set pod_flag_names"
  by (auto simp: argument_ok_def pod_flag_names_def split: prod.splits)

lemma pod_flag_names_known:
  "list_all (\<lambda>flag. flag = ''--tls-skip-verify'' \<or> flag \<notin> set (map fst bare_flags) \<and>
     (flag \<in> set (map fst text_flags) \<or> flag \<in> set (map fst checked_flags))) pod_flag_names"
  by code_simp

lemma flag_known:
  "flag \<notin> set (map fst bare_flags) \<Longrightarrow> flag \<in> set (map fst text_flags) \<or> flag \<in> set (map fst checked_flags) \<Longrightarrow>
     map_of bare_flags flag = None \<and> value_flag flag \<noteq> None"
  by (auto simp: map_of_eq_None_iff value_flag_def or_else_def image_iff split: option.splits dest: weak_map_of_SomeI)

lemma argument_known:
  assumes "argument_ok a" and "snd a = [] \<longrightarrow> fst a = ''--tls-skip-verify''"
  shows "arg_known (arg_of a)"
proof (cases "snd a = []")
  case True
  then show ?thesis using assms(2) by (cases a) (simp add: arg_of_def bare_flags_def)
next
  case False
  have "fst a \<noteq> ''--tls-skip-verify''"
    using assms(1) False by (auto simp: argument_ok_def mounted_flags_def POD_FLAGS_def RENDER_FLAGS_def split: prod.splits)
  then show ?thesis
    using False argument_flag [OF assms(1)] pod_flag_names_known flag_known [of "fst a"]
    by (cases a) (auto simp: arg_of_def list_all_iff)
qed

lemma distinct_pass_through: "distinct (map snd flags) \<Longrightarrow> distinct (map fst (pass_through flags strings get))"
proof (induction flags)
  case (Cons f flags)
  then show ?case
    using flags_of_pass_through [of flags strings get]
    by (cases f) (auto simp: pass_through_def map_filter_simps split: option.splits)
qed (simp add: pass_through_def map_filter_simps)

lemma map_of_absent: "flag \<notin> fst ` set args \<Longrightarrow> map_of args flag = None"
  by (simp add: map_of_eq_None_iff)

lemma pass_through_flag:
  "flag \<in> fst ` set (pass_through flags strings get) \<Longrightarrow> \<exists>name. (name, flag) \<in> set flags \<and> defaulted strings get name \<noteq> None"
  by (induction flags) (auto simp: pass_through_def map_filter_simps split: option.splits)

definition late_flags :: "string set" where
  "late_flags = {''--template'', ''--template-inline'', ''--schema'', ''--tls-cert'', ''--tls-key''}"

definition early_flags :: "string set" where
  "early_flags = {''--auth'', ''--ssh-key'', ''--ca'', ''--tls-server-name'', ''--tls-skip-verify''}"

lemma mounted_arguments_shape:
  assumes "ssh_arguments id SSH_MOUNT strings get ssh = Inr ssh_args"
    and "b = ssh_args @ ca_arguments CA_MOUNT ca @ skip_verify_arguments name skip"
  shows "distinct (map fst b)" and "fst ` set b \<subseteq> early_flags"
    and "map_of b ''--tls-skip-verify'' = (if skip then Some [] else None)"
    and "''--auth'' \<in> fst ` set b \<Longrightarrow> defaulted strings get ''auth'' = None"
proof -
  have "ssh_args = [] \<or> (\<exists>k. ssh_args = [(''--ssh-key'', k)]) \<or>
      (\<exists>k. ssh_args = [(''--auth'', ''ssh-key''), (''--ssh-key'', k)] \<and> defaulted strings get ''auth'' = None)"
    using assms(1) by (auto simp: ssh_arguments_def Let_def split: option.splits if_splits)
  then show "distinct (map fst b)" "fst ` set b \<subseteq> early_flags"
    "map_of b ''--tls-skip-verify'' = (if skip then Some [] else None)"
    "''--auth'' \<in> fst ` set b \<Longrightarrow> defaulted strings get ''auth'' = None"
    unfolding assms(2)
    by (auto simp: early_flags_def ca_arguments_def skip_verify_arguments_def split: option.splits)
qed

lemma flag_sets:
  "early_flags \<subseteq> insert ''--auth'' (insert ''--tls-skip-verify'' (set mounted_flags))"
  "late_flags \<subseteq> set mounted_flags" "early_flags \<inter> late_flags = {}" "''--file-mode'' \<notin> early_flags"
  "snd ` set POD_FLAGS \<inter> set mounted_flags = {}" "''--file-mode'' \<notin> snd ` set POD_FLAGS"
  "''--tls-skip-verify'' \<notin> snd ` set POD_FLAGS" "distinct (map snd POD_FLAGS)"
  by (simp_all add: early_flags_def late_flags_def mounted_flags_def POD_FLAGS_def RENDER_FLAGS_def)

lemma pod_arguments_shape:
  assumes "pod_arguments strings get inst = Inr (ssh, ca, skip, args)"
  shows "distinct (map fst args)" and "''--file-mode'' \<notin> fst ` set args"
    and "fst ` set args \<inter> late_flags = {}"
    and "map_of args ''--tls-skip-verify'' = (if skip then Some [] else None)"
proof -
  define a where "a = pass_through POD_FLAGS strings get"
  obtain ssh_args b where ssh: "ssh_arguments id SSH_MOUNT strings get ssh = Inr ssh_args"
    and b: "b = ssh_args @ ca_arguments CA_MOUNT ca
       @ skip_verify_arguments (defaulted strings get ''tls-server-name'') skip"
    and args: "args = a @ b"
    using assms by (auto simp: pod_arguments_def Let_def res_simps a_def)
  note rest = mounted_arguments_shape [OF ssh b]
  have a: "fst ` set a \<subseteq> snd ` set POD_FLAGS" "distinct (map fst a)"
    unfolding a_def by (rule flags_of_pass_through, rule distinct_pass_through [OF flag_sets(8)])
  have auth: "''--auth'' \<in> fst ` set a \<Longrightarrow> defaulted strings get ''auth'' \<noteq> None"
    unfolding a_def by (drule pass_through_flag) (auto simp: POD_FLAGS_def RENDER_FLAGS_def)
  have free: "fst ` set a \<inter> set mounted_flags = {}" "''--file-mode'' \<notin> fst ` set a" "''--tls-skip-verify'' \<notin> fst ` set a"
    using a(1) flag_sets(5-7) by blast+
  have "x \<notin> fst ` set b" if x: "x \<in> fst ` set a" for x
  proof
    assume y: "x \<in> fst ` set b"
    then have "x \<in> insert ''--auth'' (insert ''--tls-skip-verify'' (set mounted_flags))"
      using rest(2) flag_sets(1) by (meson subsetD)
    then show False
    proof (elim insertE)
      show "x = ''--auth'' \<Longrightarrow> False" using x y auth rest(4) by metis
      show "x = ''--tls-skip-verify'' \<Longrightarrow> False" using x free(3) by metis
      show "x \<in> set mounted_flags \<Longrightarrow> False" using x free(1) by (metis disjoint_iff)
    qed
  qed
  then have "fst ` set a \<inter> fst ` set b = {}" by (meson disjoint_iff)
  then show "distinct (map fst args)" using a(2) rest(1) by (simp add: args)
  show "''--file-mode'' \<notin> fst ` set args"
    unfolding args set_append image_Un using free(2) subsetD [OF rest(2)] flag_sets(4) by (metis UnE)
  show "fst ` set args \<inter> late_flags = {}"
    unfolding args set_append image_Un using free(1) rest(2) flag_sets(2,3) by blast
  show "map_of args ''--tls-skip-verify'' = (if skip then Some [] else None)"
    using rest(3) map_of_absent [OF free(3)] by (simp add: args map_add_def split: option.split)
qed

lemma template_arguments_shape:
  "template_of label mount texts = Inr (t, targs) \<Longrightarrow>
     targs = [] \<or> (\<exists>x. targs = [(''--template-inline'', x)]) \<or> (\<exists>x. targs = [(''--template'', x)])"
  by (cases texts) (auto simp: template_of_def split: option.splits)

lemma subseq_set: "subseq xs ys \<Longrightarrow> set xs \<subseteq> set ys"
  by (induction rule: list_emb.induct) auto

lemma subseq_distinct: "subseq xs ys \<Longrightarrow> distinct ys \<Longrightarrow> distinct xs"
  by (induction rule: list_emb.induct) (auto dest: subseq_set)

lemma late_arguments_shape:
  assumes "late_arguments strings get fm = Inr (t, schema, tls, args)"
  shows "distinct (map fst args)" and "fst ` set args \<subseteq> insert ''--file-mode'' late_flags"
    and "map_of args ''--file-mode'' = map_option (\<lambda>m. ''0'' @ m) fm"
proof -
  let ?rest = "[''--template-inline'', ''--template''] @ [''--schema''] @ [''--tls-cert'', ''--tls-key'']"
  obtain targs sargs where targs: "template_of id TEMPLATE_MOUNT
      (as_level strings get ''template'' ''template-configmap'') = Inr (t, targs)"
    and sargs: "sargs = (case schema of None \<Rightarrow> [] | Some r \<Rightarrow> [(''--schema'', SCHEMA_MOUNT @ ''/'' @ object_key r)])"
    and args: "args = file_mode_arguments fm @ targs @ sargs @ tls_arguments TLS_MOUNT tls"
    using assms(1) by (auto simp: late_arguments_def Let_def res_simps)
  have template: "subseq (map fst targs) [''--template-inline'', ''--template'']"
    using template_arguments_shape [OF targs] by auto
  have schema: "subseq (map fst sargs) [''--schema'']" by (simp add: sargs split: option.split)
  have tls: "subseq (map fst (tls_arguments TLS_MOUNT tls)) [''--tls-cert'', ''--tls-key'']"
    by (simp add: tls_arguments_def split: option.split)
  define rest where "rest = targs @ sargs @ tls_arguments TLS_MOUNT tls"
  have rest: "subseq (map fst rest) ?rest"
    unfolding rest_def map_append using template schema tls by (intro list_emb_append_mono)
  then have "fst ` set rest \<subseteq> set ?rest" unfolding set_map [symmetric] by (rule subseq_set)
  also have "set ?rest \<subseteq> late_flags" by (simp add: late_flags_def)
  finally have late: "fst ` set rest \<subseteq> late_flags" .
  have "distinct (map fst rest)" by (rule subseq_distinct [OF rest]) simp
  moreover have unset: "''--file-mode'' \<notin> fst ` set rest"
    using late by (rule contra_subsetD) (simp add: late_flags_def)
  ultimately show "distinct (map fst args)"
    unfolding args rest_def [symmetric] by (auto simp: file_mode_arguments_def split: option.split)
  show "fst ` set args \<subseteq> insert ''--file-mode'' late_flags"
    unfolding args rest_def [symmetric] using late by (auto simp: file_mode_arguments_def split: option.split)
  show "map_of args ''--file-mode'' = map_option (\<lambda>m. ''0'' @ m) fm"
    unfolding args rest_def [symmetric] using map_of_absent [OF unset]
    by (simp add: file_mode_arguments_def map_add_def split: option.split)
qed

lemma apart: "f \<notin> A \<Longrightarrow> A \<inter> L = {} \<Longrightarrow> B \<subseteq> insert f L \<Longrightarrow> A \<inter> B = {}"
  by blast

lemma request_arguments_shape:
  assumes "read_request get pod inst en an = Inr r"
  shows "distinct (map fst (rq_arguments r))"
    and "map_of (rq_arguments r) ''--file-mode'' = map_option (\<lambda>m. ''0'' @ m) (rq_file_mode r)"
    and "map_of (rq_arguments r) ''--tls-skip-verify'' = (if rq_tls_skip_verify r then Some [] else None)"
proof -
  obtain early late where args: "rq_arguments r = early @ late"
    and early: "pod_arguments (store_strings inst (Some (rq_source r))) get inst
                 = Inr (rq_ssh r, rq_ca r, rq_tls_skip_verify r, early)"
    and late: "late_arguments (store_strings inst (Some (rq_source r))) get (rq_file_mode r)
                 = Inr (rq_template r, rq_schema r, rq_tls r, late)"
    using read_request_stages(7) [OF assms] by blast
  note e = pod_arguments_shape [OF early] and l = late_arguments_shape [OF late]
  have skip: "''--tls-skip-verify'' \<notin> fst ` set late"
    using l(2) by (rule contra_subsetD) (simp add: late_flags_def)
  have "fst ` set early \<inter> fst ` set late = {}" using e(2,3) l(2) by (rule apart)
  then show "distinct (map fst (rq_arguments r))" using e(1) l(1) by (simp add: args)
  show "map_of (rq_arguments r) ''--file-mode'' = map_option (\<lambda>m. ''0'' @ m) (rq_file_mode r)"
    using l(3) map_of_absent [OF e(2)] by (simp add: args map_add_def split: option.split)
  show "map_of (rq_arguments r) ''--tls-skip-verify'' = (if rq_tls_skip_verify r then Some [] else None)"
    using e(4) map_of_absent [OF skip] by (simp add: args map_add_def)
qed

section \<open>The line is read argument by argument\<close>

lemma opt_arg_known: "map_of bare_flags flag = None \<Longrightarrow> value_flag flag \<noteq> None \<Longrightarrow> list_all arg_known (opt_arg flag v)"
  by (simp add: opt_arg_def split: option.split)

lemma bare_arg_known: "map_of bare_flags flag \<noteq> None \<Longrightarrow> list_all arg_known (bare_arg flag b)"
  by (simp add: bare_arg_def)

definition line_flags :: "string list" where
  "line_flags = [''--source'', ''--endpoint'', ''--key'', ''--out'', ''--watch'', ''--also'', ''--notify-http'',
     ''--on-drift'', ''--history'', ''--timeout'', ''--canary'', ''--revoke-grace'', ''--metrics-addr'']"

lemma line_flags_known:
  "list_all (\<lambda>flag. flag \<notin> set (map fst bare_flags) \<and>
     (flag \<in> set (map fst text_flags) \<or> flag \<in> set (map fst checked_flags))) line_flags"
  by code_simp

lemma line_flag: "flag \<in> set line_flags \<Longrightarrow> map_of bare_flags flag = None \<and> value_flag flag \<noteq> None"
  using line_flags_known flag_known by (auto simp: list_all_iff)

lemma request_args_known:
  assumes "list_all argument_ok (rq_arguments r)"
    and "\<forall>a \<in> set (rq_arguments r). snd a = [] \<longrightarrow> fst a = ''--tls-skip-verify''"
  shows "list_all arg_known (request_args r watch)"
proof -
  have known: "list_all (\<lambda>flag. map_of bare_flags flag = None \<and> value_flag flag \<noteq> None) line_flags"
    using line_flag by (simp add: list_all_iff)
  then have also_known: "list_all arg_known (map (\<lambda>f. Valued ''--also'' (also_text f)) (rq_also r))"
    by (simp add: line_flags_def list_all_iff)
  with known have valued: "list_all arg_known (head_args r)" "list_all arg_known (tail_args r watch)"
    by (simp_all add: line_flags_def head_args_def watching_args_def tail_args_def opt_arg_known bare_arg_known
        bare_flags_def)
  have "list_all arg_known (map arg_of (rq_arguments r))"
    using assms by (simp add: list_all_iff argument_known)
  with valued show ?thesis by (simp add: request_args_def)
qed

section \<open>What a line says of a flag\<close>

lemma arg_flag_of [simp]: "arg_flag (arg_of a) = fst a"
  by (cases a) (simp add: arg_of_def)

lemma opt_arg_simps [simp]: "opt_arg flag None = []" "opt_arg flag (Some t) = [Valued flag t]"
  by (simp_all add: opt_arg_def)

lemma bare_arg_simps [simp]: "bare_arg flag False = []" "bare_arg flag True = [Bare flag]"
  by (simp_all add: bare_arg_def)

lemma said_opt [simp]: "said flag (opt_arg g v) = (if g = flag then opt_arg g v else [])"
  by (simp add: opt_arg_def split: option.split)

lemma said_bare [simp]: "said flag (bare_arg g b) = (if g = flag then bare_arg g b else [])"
  by (simp add: bare_arg_def)

lemma said_also [simp]:
  "said flag (map (\<lambda>f. Valued g (h f)) fs) = (if g = flag then map (\<lambda>f. Valued g (h f)) fs else [])"
  by (induction fs) auto

lemma said_arguments:
  assumes "distinct (map fst args)"
  shows "said flag (map arg_of args) = (case map_of args flag of None \<Rightarrow> [] | Some v \<Rightarrow> [arg_of (flag, v)])"
  using assms
proof (induction args)
  case (Cons a args)
  show ?case
  proof (cases "fst a = flag")
    case True
    then have "map_of args flag = None" using Cons.prems by (simp add: map_of_eq_None_iff)
    then show ?thesis using Cons True by (cases a) simp
  qed (use Cons in \<open>cases a, simp\<close>)
qed simp

definition line_names :: "string list" where
  "line_names = line_flags @ [''--dynamic'', ''--meta'', ''--no-revoke-on-shutdown'', ''--no-tls-reload'',
     ''--require-ack'', ''--events'']"

lemma opt_arg_in: "flag \<in> A \<Longrightarrow> list_all (\<lambda>a. arg_flag a \<in> A) (opt_arg flag v)"
  by (simp add: opt_arg_def split: option.split)

lemma bare_arg_in: "flag \<in> A \<Longrightarrow> list_all (\<lambda>a. arg_flag a \<in> A) (bare_arg flag b)"
  by (simp add: bare_arg_def)

lemma also_arg_in: "flag \<in> A \<Longrightarrow> list_all (\<lambda>a. arg_flag a \<in> A) (map (\<lambda>f. Valued flag (h f)) fs)"
  by (simp add: list_all_iff)

lemma line_arg_flags: "list_all (\<lambda>a. arg_flag a \<in> set line_names) (head_args r @ tail_args r watch)"
proof -
  have "list_all (\<lambda>flag. flag \<in> set line_names) line_names" by (simp add: list_all_iff)
  then show ?thesis
    unfolding line_names_def line_flags_def list_all_append list.pred_inject append.simps
    by (simp only: head_args_def tail_args_def watching_args_def list_all_append list.pred_inject opt_arg_in
        bare_arg_in also_arg_in arg_flag.simps if_True if_False simp_thms split: if_split)
qed

lemma passed_elsewhere: "set passed_flags \<inter> set line_names = {}"
  by code_simp

lemma said_elsewhere:
  assumes "flag \<notin> set line_names"
  shows "said flag (head_args r) = []" and "said flag (tail_args r watch) = []"
  using line_arg_flags [of r watch] assms by (auto simp: list_all_iff intro!: said_nothing)

section \<open>The draft an agent ends with\<close>

text \<open>What the request says of one of its own flags.\<close>

lemma request_says:
  assumes "list_all argument_ok (rq_arguments r)" and "flag \<notin> set pod_flag_names"
  shows "said flag (request_args r watch) = said flag (head_args r) @ said flag (tail_args r watch)"
proof -
  have "said flag (map arg_of (rq_arguments r)) = []"
    using assms argument_flag by (intro said_nothing) (auto simp: list_all_iff)
  then show ?thesis by (simp add: request_args_def)
qed

lemma passed_as_asked:
  assumes "rfold put_arg (request_args r watch) (initial_draft env) = Inr d"
    and "distinct (map fst (rq_arguments r))"
    and "\<forall>a \<in> set (rq_arguments r). snd a = [] \<longrightarrow> fst a = ''--tls-skip-verify''"
  shows "passed_texts d = map (map_of (rq_arguments r)) passed_flags"
proof (rule nth_equalityI)
  fix i
  assume "i < length (passed_texts d)"
  then have i: "i < 17" by simp
  let ?flag = "passed_flags ! i"
  have elsewhere: "?flag \<notin> set line_names" using passed_elsewhere i by (metis disjoint_iff nth_mem passed_length(1))
  have "''--tls-skip-verify'' \<notin> set passed_flags" by (simp add: passed_flags_def)
  then have not_skip: "?flag \<noteq> ''--tls-skip-verify''" using i by (metis nth_mem passed_length(1))
  have says: "said ?flag (request_args r watch)
      = (case map_of (rq_arguments r) ?flag of None \<Rightarrow> [] | Some v \<Rightarrow> [arg_of (?flag, v)])"
    by (simp add: request_args_def said_elsewhere [OF elsewhere] said_arguments [OF assms(2)])
  have moved: "moved_only_by {?flag} (\<lambda>d. passed_texts d ! i)"
    using passed_moved i by (simp add: list_all_iff)
  have "passed_texts d ! i = map_of (rq_arguments r) ?flag"
  proof (cases "map_of (rq_arguments r) ?flag")
    case None
    have "list_all (\<lambda>i. passed_texts (initial_draft env) ! i = None) [0..<17]"
      by (simp add: upt_rec passed_texts_def initial_draft_def)
    then show ?thesis using unmoved [OF moved assms(1)] says None i by (simp add: list_all_iff)
  next
    case (Some v)
    then have "v \<noteq> []" using assms(3) not_skip by (auto dest!: map_of_SomeD)
    with says Some have once: "said ?flag (request_args r watch) = [Valued ?flag v]" by (simp add: arg_of_def)
    have "passed_texts d ! i = Some v"
      using moved_once [OF moved assms(1) once] passed_put i by (auto simp: list_all_iff)
    with Some show ?thesis by simp
  qed
  then show "passed_texts d ! i = map (map_of (rq_arguments r)) passed_flags ! i" using i by simp
qed simp

fun arg_values :: "arg \<Rightarrow> string list" where
  "arg_values (Bare flag) = []"
| "arg_values (Valued flag v) = [v]"

lemma also_moved:
  "rfold put_arg as d = Inr d' \<Longrightarrow> dr_also d' = dr_also d @ concat (map arg_values (said ''--also'' as))"
proof (induction as arbitrary: d)
  case (Cons a as)
  then obtain e where e: "put_arg a d = Inr e" "rfold put_arg as e = Inr d'" by (auto simp: res_simps)
  have "moved_only_by {''--also''} dr_also"
    by (rule moved_by) (simp_all add: bare_flags_def text_flags_def)
  then have "dr_also e = dr_also d" if "arg_flag a \<noteq> ''--also''" using moved_only_byD [OF _ e(1)] that by blast
  moreover have "dr_also e = dr_also d @ [v]" if "a = Valued ''--also'' v" for v
    using e(1) that by (auto simp: value_flag_def or_else_def text_flags_def)
  moreover have "map_of bare_flags ''--also'' = None" by (simp add: bare_flags_def)
  ultimately show ?case using Cons.IH [OF e(2)] e(1) by (cases "arg_flag a = ''--also''"; cases a) auto
qed simp

definition watched :: "bool \<Rightarrow> 'a option \<Rightarrow> 'a option" where
  "watched watch v = (if watch then v else None)"

text \<open>
  The settings a request asks for: what is only for the agent that watches is off, or its default, in the
  agent that writes once. The texts of the five flags that admission passes on are read as the agent reads them.
\<close>

definition asked_address :: "(string \<Rightarrow> string option) \<Rightarrow> Request \<Rightarrow> draft \<Rightarrow> bool" where
  "asked_address env r d \<longleftrightarrow>
     dr_source d = Some (rq_source r) \<and> dr_key d = Some (rq_key r) \<and> dr_out d = Some (rq_path r) \<and>
     dr_endpoint d = or_else (rq_endpoint r) (env ''DYNAMIC_CONFIG_AGENT_ENDPOINT'') \<and>
     dr_also d = map also_text (rq_also r) \<and>
     passed_texts d = map (map_of (rq_arguments r)) passed_flags \<and>
     sp_tls_skip_verify d = rq_tls_skip_verify r \<and>
     sp_token d = env ''DYNAMIC_CONFIG_AGENT_TOKEN'' \<and>
     sp_password d = env ''DYNAMIC_CONFIG_AGENT_PASSWORD''"

definition asked_writing :: "Request \<Rightarrow> bool \<Rightarrow> 'a settings_scheme \<Rightarrow> bool" where
  "asked_writing r watch s \<longleftrightarrow>
     map_option (show_radix 8) (sp_file_mode s) = rq_file_mode r \<and>
     sp_history s = unwrap_or (watched watch (rq_history r)) 0 \<and>
     sp_meta s = (watch \<and> rq_meta r) \<and>
     sp_require_ack s = (watch \<and> rq_require_ack r) \<and>
     (case watched watch (rq_on_drift r) of None \<Rightarrow> sp_on_drift s = Warn
      | Some t \<Rightarrow> agent_drift_of t = Inr (sp_on_drift s)) \<and>
     (case map_of (rq_arguments r) ''--on-delete'' of None \<Rightarrow> sp_on_delete s = Retain
      | Some t \<Rightarrow> on_delete_of t = Inr (sp_on_delete s)) \<and>
     sp_max_document_bytes s = Option.bind (map_of (rq_arguments r) ''--max-document-bytes'') (parse_uint 10 64)"

definition asked_running :: "Request \<Rightarrow> bool \<Rightarrow> 'a settings_scheme \<Rightarrow> bool" where
  "asked_running r watch s \<longleftrightarrow>
     sp_watch s = watched watch (Some (max (rq_watch_seconds r) 1)) \<and>
     sp_timeout s = watched watch (rq_timeout r) \<and>
     sp_dynamic s = rq_dynamic r \<and>
     sp_revoke_on_shutdown s = (\<not> (watch \<and> rq_dynamic r \<and> \<not> rq_revoke_on_shutdown r)) \<and>
     sp_revoke_grace s =
       unwrap_or (watched (watch \<and> rq_dynamic r \<and> rq_revoke_on_shutdown r) (rq_revoke_grace r)) REVOKE_DEADLINE \<and>
     sp_tls_reload s = (\<not> (watch \<and> \<not> rq_tls_reload r)) \<and>
     sp_events s = (watch \<and> rq_events r) \<and>
     sp_canary s = watched watch (map_option (\<lambda>c. CANARY_MOUNT @ ''/'' @ object_key c) (rq_canary r)) \<and>
     sp_metrics_addr s = watched watch (map_option (\<lambda>p. ''0.0.0.0:'' @ show_nat p) (rq_metrics_port r)) \<and>
     (case watched watch (rq_notify_http r) of None \<Rightarrow> sp_notify_http s = None
      | Some url \<Rightarrow> map_err FlagEndpoint (parse_endpoint url) = Inr (the (sp_notify_http s)) \<and> sp_notify_http s \<noteq> None) \<and>
     (case map_of (rq_arguments r) ''--startup-policy'' of None \<Rightarrow> sp_startup_policy s = AllowCached
      | Some t \<Rightarrow> startup_policy_of t = Inr (sp_startup_policy s)) \<and>
     sp_max_staleness s = Option.bind (map_of (rq_arguments r) ''--max-staleness'') (parse_uint 10 64)"

lemma line_moves:
  "moved_only_by {''--source''} dr_source" "moved_only_by {''--key''} dr_key" "moved_only_by {''--out''} dr_out"
  "moved_only_by {''--endpoint''} dr_endpoint" "moved_only_by {''--token''} sp_token" "moved_only_by {''--password''} sp_password"
  "moved_only_by {''--tls-skip-verify''} sp_tls_skip_verify" "moved_only_by {''--file-mode''} sp_file_mode"
  "moved_only_by {''--history''} sp_history" "moved_only_by {''--meta''} sp_meta"
  "moved_only_by {''--require-ack''} sp_require_ack" "moved_only_by {''--on-drift''} sp_on_drift"
  "moved_only_by {''--on-delete''} sp_on_delete" "moved_only_by {''--max-document-bytes''} sp_max_document_bytes"
  "moved_only_by {''--timeout''} sp_timeout" "moved_only_by {''--dynamic''} sp_dynamic"
  "moved_only_by {''--no-revoke-on-shutdown''} sp_revoke_on_shutdown" "moved_only_by {''--revoke-grace''} sp_revoke_grace"
  "moved_only_by {''--no-tls-reload''} sp_tls_reload" "moved_only_by {''--events''} sp_events"
  "moved_only_by {''--canary''} sp_canary" "moved_only_by {''--metrics-addr''} sp_metrics_addr"
  "moved_only_by {''--notify-http''} sp_notify_http" "moved_only_by {''--startup-policy''} sp_startup_policy"
  "moved_only_by {''--max-staleness''} sp_max_staleness"
  "moved_only_by {''--watch'', ''--one-shot''} sp_watch"
  by (rule moved_by; simp add: bare_flags_def text_flags_def)+

lemma opt_value:
  assumes "moved_only_by {flag} field" and "rfold put_arg as d = Inr d'" and "said flag as = opt_arg flag v"
  shows "v = None \<Longrightarrow> field d' = field d"
    and "v = Some t \<Longrightarrow> \<exists>e e'. put_arg (Valued flag t) e = Inr e' \<and> field d' = field e'"
  using unmoved [OF assms(1,2)] moved_once [OF assms(1,2), of flag "Valued flag t"] assms(3)
  by (simp_all add: opt_arg_def)

lemma bare_value:
  assumes "moved_only_by {flag} field" and "rfold put_arg as d = Inr d'" and "said flag as = bare_arg flag b"
    and "map_of bare_flags flag = Some f"
  shows "\<not> b \<Longrightarrow> field d' = field d" and "b \<Longrightarrow> \<exists>e. field d' = field (f e)"
  using unmoved [OF assms(1,2)] moved_once [OF assms(1,2), of flag "Bare flag"] assms(3,4)
  by (auto simp: bare_arg_def)

lemma names_apart: "set line_names \<inter> set pod_flag_names = {}"
  by code_simp

lemma line_says:
  assumes "list_all argument_ok (rq_arguments r)"
  shows "list_all (\<lambda>flag. said flag (request_args r w) = said flag (head_args r) @ said flag (tail_args r w)) line_names"
  using request_says [OF assms] names_apart by (auto simp: list_all_iff)

lemma request_says_line:
  assumes "list_all argument_ok (rq_arguments r)"
  shows "said ''--source'' (request_args r watch) = opt_arg ''--source'' (Some (rq_source r))"
    "said ''--key'' (request_args r watch) = opt_arg ''--key'' (Some (rq_key r))"
    "said ''--out'' (request_args r watch) = opt_arg ''--out'' (Some (rq_path r))"
    "said ''--endpoint'' (request_args r watch) = opt_arg ''--endpoint'' (rq_endpoint r)"
    "said ''--watch'' (request_args r watch) = opt_arg ''--watch'' (watched watch (Some (show_nat (rq_watch_seconds r))))"
    "said ''--history'' (request_args r watch) = opt_arg ''--history'' (watched watch (map_option show_nat (rq_history r)))"
    "said ''--timeout'' (request_args r watch) = opt_arg ''--timeout'' (watched watch (map_option show_nat (rq_timeout r)))"
    "said ''--on-drift'' (request_args r watch) = opt_arg ''--on-drift'' (watched watch (rq_on_drift r))"
    "said ''--notify-http'' (request_args r watch) = opt_arg ''--notify-http'' (watched watch (rq_notify_http r))"
    "said ''--canary'' (request_args r watch) =
       opt_arg ''--canary'' (watched watch (map_option (\<lambda>c. CANARY_MOUNT @ ''/'' @ object_key c) (rq_canary r)))"
    "said ''--metrics-addr'' (request_args r watch) =
       opt_arg ''--metrics-addr'' (watched watch (map_option (\<lambda>p. ''0.0.0.0:'' @ show_nat p) (rq_metrics_port r)))"
    "said ''--revoke-grace'' (request_args r watch) = opt_arg ''--revoke-grace''
       (watched (watch \<and> rq_dynamic r \<and> rq_revoke_on_shutdown r) (map_option show_nat (rq_revoke_grace r)))"
    "said ''--meta'' (request_args r watch) = bare_arg ''--meta'' (watch \<and> rq_meta r)"
    "said ''--require-ack'' (request_args r watch) = bare_arg ''--require-ack'' (watch \<and> rq_require_ack r)"
    "said ''--events'' (request_args r watch) = bare_arg ''--events'' (watch \<and> rq_events r)"
    "said ''--dynamic'' (request_args r watch) = bare_arg ''--dynamic'' (rq_dynamic r)"
    "said ''--no-tls-reload'' (request_args r watch) = bare_arg ''--no-tls-reload'' (watch \<and> \<not> rq_tls_reload r)"
    "said ''--no-revoke-on-shutdown'' (request_args r watch) =
       bare_arg ''--no-revoke-on-shutdown'' (watch \<and> rq_dynamic r \<and> \<not> rq_revoke_on_shutdown r)"
    "said ''--also'' (request_args r watch) = map (\<lambda>f. Valued ''--also'' (also_text f)) (rq_also r)"
  by (cases watch;
      simp add: line_says [OF assms, unfolded line_names_def line_flags_def list_all_append list.pred_inject append.simps]
        head_args_def tail_args_def watching_args_def watched_def)+

text \<open>The flags admission passes on, in the words of the request's arguments.\<close>

lemma request_says_argument:
  assumes "distinct (map fst (rq_arguments r))" and "flag \<notin> set line_names"
  shows "said flag (request_args r watch) =
    (case map_of (rq_arguments r) flag of None \<Rightarrow> [] | Some v \<Rightarrow> [arg_of (flag, v)])"
  by (simp add: request_args_def said_elsewhere [OF assms(2)] said_arguments [OF assms(1)])

lemma argument_value:
  assumes "moved_only_by {flag} field" and "rfold put_arg (request_args r watch) d = Inr d'"
    and "distinct (map fst (rq_arguments r))"
    and "\<forall>a \<in> set (rq_arguments r). snd a = [] \<longrightarrow> fst a = ''--tls-skip-verify''"
    and "flag \<notin> set line_names" and "flag \<noteq> ''--tls-skip-verify''"
  shows "case map_of (rq_arguments r) flag of None \<Rightarrow> field d' = field d
    | Some t \<Rightarrow> \<exists>e e'. put_arg (Valued flag t) e = Inr e' \<and> field d' = field e'"
proof -
  have "v \<noteq> []" if "map_of (rq_arguments r) flag = Some v" for v
    using map_of_SomeD [OF that] assms(4,6) by auto
  then have "said flag (request_args r watch) = opt_arg flag (map_of (rq_arguments r) flag)"
    using request_says_argument [OF assms(3,5), of watch]
    by (cases "map_of (rq_arguments r) flag") (simp_all add: arg_of_def)
  then show ?thesis
    using opt_value [OF assms(1,2)] by (auto split: option.split)
qed

lemma addressed_as_asked:
  assumes "rfold put_arg (request_args r watch) (initial_draft env) = Inr d"
    and "list_all argument_ok (rq_arguments r)"
    and "distinct (map fst (rq_arguments r))"
    and "\<forall>a \<in> set (rq_arguments r). snd a = [] \<longrightarrow> fst a = ''--tls-skip-verify''"
    and "map_of (rq_arguments r) ''--tls-skip-verify'' = (if rq_tls_skip_verify r then Some [] else None)"
  shows "asked_address env r d"
proof -
  note line = request_says_line [OF assms(2), of watch] and run = assms(1)
  have spoken: "\<exists>e e'. put_arg (Valued flag t) e = Inr e' \<and> field d = field e'"
    if "moved_only_by {flag} field" "said flag (request_args r watch) = opt_arg flag (Some t)" for flag t and field :: "draft \<Rightarrow> string option"
    using opt_value(2) [OF that(1) run that(2)] by simp
  have main: "dr_source d = Some (rq_source r)" "dr_key d = Some (rq_key r)" "dr_out d = Some (rq_path r)"
    using spoken [OF line_moves(1) line(1)] spoken [OF line_moves(2) line(2)] spoken [OF line_moves(3) line(3)]
    by (auto simp: value_flag_def or_else_def text_flags_def)
  have endpoint: "dr_endpoint d = or_else (rq_endpoint r) (env ''DYNAMIC_CONFIG_AGENT_ENDPOINT'')"
    using opt_value [OF line_moves(4) run line(4)]
    by (cases "rq_endpoint r") (auto simp: value_flag_def or_else_def text_flags_def initial_draft_def)
  have silent: "said flag (request_args r watch) = []" if "flag \<notin> set line_names" "flag \<notin> set pod_flag_names" for flag
    using request_says [OF assms(2) that(2)] said_elsewhere [OF that(1)] by simp
  have skip_name: "''--tls-skip-verify'' \<notin> set line_names" by code_simp
  have unsaid: "said ''--token'' (request_args r watch) = []" "said ''--password'' (request_args r watch) = []"
    by (rule silent; code_simp)+
  have "sp_token d = sp_token (initial_draft env)"
    by (rule unmoved [OF line_moves(5) run]) (simp add: unsaid)
  moreover have "sp_password d = sp_password (initial_draft env)"
    by (rule unmoved [OF line_moves(6) run]) (simp add: unsaid)
  ultimately have secrets: "sp_token d = env ''DYNAMIC_CONFIG_AGENT_TOKEN''" "sp_password d = env ''DYNAMIC_CONFIG_AGENT_PASSWORD''"
    by (simp_all add: initial_draft_def)
  have skip: "said ''--tls-skip-verify'' (request_args r watch) = bare_arg ''--tls-skip-verify'' (rq_tls_skip_verify r)"
    using request_says_argument [OF assms(3) skip_name, of watch] assms(5) by (simp add: arg_of_def)
  have "map_of bare_flags ''--tls-skip-verify'' = Some (sp_tls_skip_verify_update (\<lambda>_. True))"
    by (simp add: bare_flags_def)
  then have "sp_tls_skip_verify d = rq_tls_skip_verify r"
    using bare_value [OF line_moves(7) run skip] by (cases "rq_tls_skip_verify r") (auto simp: initial_draft_def)
  moreover have "dr_also d = map also_text (rq_also r)"
    using also_moved [OF run] line(19) by (simp add: initial_draft_def comp_def)
  ultimately show ?thesis
    using main endpoint secrets passed_as_asked [OF run assms(3,4)] by (simp add: asked_address_def)
qed

lemma checked_value:
  "put_arg (Valued ''--watch'' t) e = Inr e' \<Longrightarrow> \<exists>n. parse_uint 10 64 t = Some n \<and> sp_watch e' = Some (max n 1)"
  "put_arg (Valued ''--timeout'' t) e = Inr e' \<Longrightarrow> sp_timeout e' = parse_uint 10 64 t"
  "put_arg (Valued ''--history'' t) e = Inr e' \<Longrightarrow> parse_uint 10 64 t = Some (sp_history e')"
  "put_arg (Valued ''--revoke-grace'' t) e = Inr e' \<Longrightarrow> parse_uint 10 64 t = Some (sp_revoke_grace e')"
  "put_arg (Valued ''--max-staleness'' t) e = Inr e' \<Longrightarrow> sp_max_staleness e' = parse_uint 10 64 t"
  "put_arg (Valued ''--max-document-bytes'' t) e = Inr e' \<Longrightarrow> sp_max_document_bytes e' = parse_uint 10 64 t"
  "put_arg (Valued ''--file-mode'' t) e = Inr e' \<Longrightarrow> \<exists>m. octal t = Some m \<and> sp_file_mode e' = Some m"
  "put_arg (Valued ''--on-drift'' t) e = Inr e' \<Longrightarrow> agent_drift_of t = Inr (sp_on_drift e')"
  "put_arg (Valued ''--on-delete'' t) e = Inr e' \<Longrightarrow> on_delete_of t = Inr (sp_on_delete e')"
  "put_arg (Valued ''--startup-policy'' t) e = Inr e' \<Longrightarrow> startup_policy_of t = Inr (sp_startup_policy e')"
  "put_arg (Valued ''--notify-http'' t) e = Inr e' \<Longrightarrow>
     map_err FlagEndpoint (parse_endpoint t) = Inr (the (sp_notify_http e')) \<and> sp_notify_http e' \<noteq> None"
  "put_arg (Valued ''--canary'' t) e = Inr e' \<Longrightarrow> sp_canary e' = Some t"
  "put_arg (Valued ''--metrics-addr'' t) e = Inr e' \<Longrightarrow> sp_metrics_addr e' = Some t"
  by (auto simp: value_flag_def or_else_def text_flags_def checked_flags_def setters seconds_of_def u64_of_def
      agent_file_mode_def res_simps split: if_splits)

declare put_arg.simps [simp del]

lemma canonical_octal: "canonical_mode m \<Longrightarrow> \<exists>v. octal (''0'' @ m) = Some v \<and> m = show_radix 8 v"
proof -
  assume "canonical_mode m"
  then obtain v where "agent_file_mode (''0'' @ m) = Inr v" "m = show_radix 8 v"
    using file_mode_agrees [of "[]" m m] by (auto simp: canonical_mode_def)
  then show ?thesis by (auto simp: agent_file_mode_def res_simps)
qed

lemma small_number: "n < 2 ^ 64 \<Longrightarrow> parse_uint 10 64 (show_nat n) = Some n"
  using parse_uint_show [of 10 n 64] by simp

lemma written_as_asked:
  assumes run: "rfold put_arg (request_args r watch) (initial_draft env) = Inr d"
    and ok: "list_all argument_ok (rq_arguments r)"
    and once: "distinct (map fst (rq_arguments r))"
    and full: "\<forall>a \<in> set (rq_arguments r). snd a = [] \<longrightarrow> fst a = ''--tls-skip-verify''"
    and mode: "map_of (rq_arguments r) ''--file-mode'' = map_option (\<lambda>m. ''0'' @ m) (rq_file_mode r)"
      "pred_option canonical_mode (rq_file_mode r)"
    and history: "pred_option (\<lambda>n. n < 2 ^ 64) (rq_history r)"
  shows "asked_writing r watch d"
proof -
  note line = request_says_line [OF ok, of watch]
  have names: "''--file-mode'' \<notin> set line_names" "''--on-delete'' \<notin> set line_names" "''--max-document-bytes'' \<notin> set line_names"
    by code_simp+
  note argued = argument_value [OF _ run once full]
  have "map_option (show_radix 8) (sp_file_mode d) = rq_file_mode r"
    using argued [OF line_moves(8) names(1)] mode
    by (cases "rq_file_mode r") (auto simp: initial_draft_def dest!: checked_value canonical_octal)
  moreover have "sp_history d = unwrap_or (watched watch (rq_history r)) 0"
    using opt_value [OF line_moves(9) run line(6)] history
    by (cases "rq_history r") (auto simp: watched_def unwrap_or_def initial_draft_def small_number dest!: checked_value split: if_splits)
  moreover have "case watched watch (rq_on_drift r) of None \<Rightarrow> sp_on_drift d = Warn | Some t \<Rightarrow> agent_drift_of t = Inr (sp_on_drift d)"
    using opt_value [OF line_moves(12) run line(8)]
    by (auto simp: initial_draft_def dest!: checked_value split: option.split)
  moreover have "case map_of (rq_arguments r) ''--on-delete'' of None \<Rightarrow> sp_on_delete d = Retain
      | Some t \<Rightarrow> on_delete_of t = Inr (sp_on_delete d)"
    using argued [OF line_moves(13) names(2)] by (auto simp: initial_draft_def dest!: checked_value split: option.splits)
  moreover have "sp_max_document_bytes d = Option.bind (map_of (rq_arguments r) ''--max-document-bytes'') (parse_uint 10 64)"
    using argued [OF line_moves(14) names(3)] by (auto simp: initial_draft_def dest!: checked_value split: option.splits)
  moreover have "map_of bare_flags ''--meta'' = Some (sp_meta_update (\<lambda>_. True))"
    "map_of bare_flags ''--require-ack'' = Some (sp_require_ack_update (\<lambda>_. True))" by (simp_all add: bare_flags_def)
  then have "sp_meta d = (watch \<and> rq_meta r)" "sp_require_ack d = (watch \<and> rq_require_ack r)"
    using bare_value [OF line_moves(10) run line(13)] bare_value [OF line_moves(11) run line(14)]
    by (auto simp: initial_draft_def)
  ultimately show ?thesis by (simp add: asked_writing_def)
qed

lemma run_as_asked:
  assumes run: "rfold put_arg (request_args r watch) (initial_draft env) = Inr d"
    and ok: "list_all argument_ok (rq_arguments r)"
    and once: "distinct (map fst (rq_arguments r))"
    and full: "\<forall>a \<in> set (rq_arguments r). snd a = [] \<longrightarrow> fst a = ''--tls-skip-verify''"
    and numbers: "rq_watch_seconds r < 2 ^ 64" "pred_option (\<lambda>n. n < 2 ^ 64) (rq_timeout r)"
      "pred_option (\<lambda>n. n < 2 ^ 64) (rq_revoke_grace r)"
  shows "asked_running r watch d"
proof -
  note line = request_says_line [OF ok, of watch]
  have names: "''--startup-policy'' \<notin> set line_names" "''--max-staleness'' \<notin> set line_names" by code_simp+
  note argued = argument_value [OF _ run once full]
  let ?nr = "''--no-revoke-on-shutdown''"
  have once: "\<forall>g \<in> {''--watch'', ''--one-shot''} - {''--watch''}. said g (request_args r watch) = []"
  proof -
    have "''--one-shot'' \<notin> set line_names" "''--one-shot'' \<notin> set pod_flag_names" by code_simp+
    then have "said ''--one-shot'' (request_args r watch) = []"
      using request_says [OF ok] said_elsewhere by simp
    then show ?thesis by simp
  qed
  have "sp_watch d = watched watch (Some (max (rq_watch_seconds r) 1))"
  proof (cases watch)
    case True
    then show ?thesis
      using moved_once [OF line_moves(26) run _ once] line(5) small_number [OF numbers(1)]
      by (auto simp: watched_def dest!: checked_value)
  next
    case False
    then show ?thesis
      using unmoved [OF line_moves(26) run] line(5) once by (simp add: watched_def initial_draft_def)
  qed
  moreover have "sp_timeout d = watched watch (rq_timeout r)"
    using opt_value [OF line_moves(15) run line(7)] numbers(2)
    by (cases "rq_timeout r") (auto simp: watched_def initial_draft_def small_number dest!: checked_value split: if_splits)
  moreover have "sp_revoke_grace d =
      unwrap_or (watched (watch \<and> rq_dynamic r \<and> rq_revoke_on_shutdown r) (rq_revoke_grace r)) REVOKE_DEADLINE"
    using opt_value [OF line_moves(18) run line(12)] numbers(3)
    by (cases "rq_revoke_grace r")
      (auto simp: watched_def unwrap_or_def initial_draft_def small_number dest!: checked_value split: if_splits)
  moreover have "sp_canary d = watched watch (map_option (\<lambda>c. CANARY_MOUNT @ ''/'' @ object_key c) (rq_canary r))"
    using opt_value [OF line_moves(21) run line(10)]
    by (cases "rq_canary r") (auto simp: watched_def initial_draft_def dest!: checked_value split: if_splits)
  moreover have "sp_metrics_addr d = watched watch (map_option (\<lambda>p. ''0.0.0.0:'' @ show_nat p) (rq_metrics_port r))"
    using opt_value [OF line_moves(22) run line(11)]
    by (cases "rq_metrics_port r") (auto simp: watched_def initial_draft_def dest!: checked_value split: if_splits)
  moreover have "case watched watch (rq_notify_http r) of None \<Rightarrow> sp_notify_http d = None
      | Some url \<Rightarrow> map_err FlagEndpoint (parse_endpoint url) = Inr (the (sp_notify_http d)) \<and> sp_notify_http d \<noteq> None"
    using opt_value [OF line_moves(23) run line(9)]
    by (cases "watched watch (rq_notify_http r)") (auto simp: initial_draft_def dest!: checked_value)
  moreover have "case map_of (rq_arguments r) ''--startup-policy'' of None \<Rightarrow> sp_startup_policy d = AllowCached
      | Some t \<Rightarrow> startup_policy_of t = Inr (sp_startup_policy d)"
    using argued [OF line_moves(24) names(1)] by (auto simp: initial_draft_def dest!: checked_value split: option.splits)
  moreover have "sp_max_staleness d = Option.bind (map_of (rq_arguments r) ''--max-staleness'') (parse_uint 10 64)"
    using argued [OF line_moves(25) names(2)] by (auto simp: initial_draft_def dest!: checked_value split: option.splits)
  moreover have flips: "map_of bare_flags ''--dynamic'' = Some (sp_dynamic_update (\<lambda>_. True))"
    "map_of bare_flags ?nr = Some (sp_revoke_on_shutdown_update (\<lambda>_. False))"
    "map_of bare_flags ''--no-tls-reload'' = Some (sp_tls_reload_update (\<lambda>_. False))"
    "map_of bare_flags ''--events'' = Some (sp_events_update (\<lambda>_. True))" by (simp_all add: bare_flags_def)
  then have "sp_dynamic d = rq_dynamic r" "sp_revoke_on_shutdown d = (\<not> (watch \<and> rq_dynamic r \<and> \<not> rq_revoke_on_shutdown r))"
    "sp_tls_reload d = (\<not> (watch \<and> \<not> rq_tls_reload r))" "sp_events d = (watch \<and> rq_events r)"
    using bare_value [OF line_moves(16) run line(16) flips(1)] bare_value [OF line_moves(17) run line(18) flips(2)]
      bare_value [OF line_moves(19) run line(17) flips(3)] bare_value [OF line_moves(20) run line(15) flips(4)]
    by (auto simp: initial_draft_def)
  ultimately show ?thesis by (simp add: asked_running_def)
qed

section \<open>What the agent runs with\<close>

definition commaless :: "also_file \<Rightarrow> bool" where
  "commaless f \<longleftrightarrow> CHR '','' \<notin> set (also_path f) \<and> pred_option (\<lambda>s. CHR '','' \<notin> set s) (also_section f)"

definition asked_also :: "Request \<Rightarrow> Spec \<Rightarrow> bool" where
  "asked_also r s \<longleftrightarrow>
     list_all2 (\<lambda>f rd. parse_rendering (sp_file_mode s) (also_text f) = Inr rd \<and>
       (commaless f \<longrightarrow> rd = \<lparr> rd_out = also_path f, rd_section = also_section f, rd_mode = sp_file_mode s \<rparr>))
       (rq_also r) (sp_also s)"

definition asked_store :: "(string \<Rightarrow> string option) \<Rightarrow> Request \<Rightarrow> Spec \<Rightarrow> bool" where
  "asked_store env r s \<longleftrightarrow>
     sp_source s = rq_source r \<and> sp_key s = rq_key r \<and> sp_out s = rq_path r \<and>
     Some (sp_endpoint s) = or_else (rq_endpoint r) (env ''DYNAMIC_CONFIG_AGENT_ENDPOINT'') \<and>
     passed_texts s = map (map_of (rq_arguments r)) passed_flags \<and>
     sp_tls_skip_verify s = rq_tls_skip_verify r \<and>
     sp_token s = env ''DYNAMIC_CONFIG_AGENT_TOKEN'' \<and>
     sp_password s = env ''DYNAMIC_CONFIG_AGENT_PASSWORD''"

lemma also_text_commaless:
  assumes "parse_rendering m (also_text f) = Inr rd" and "commaless f"
  shows "rd = \<lparr> rd_out = also_path f, rd_section = also_section f, rd_mode = m \<rparr>"
  using assms(1) also_text_read [of "also_path f" "also_section f" m] assms(2) [unfolded commaless_def]
  unfolding also_text_def by (auto simp: res_simps simp del: append.simps append_Cons)

lemma spec_as_asked:
  assumes "spec_of d = Inr s" and "asked_address env r d"
  shows "asked_store env r s" and "asked_also r s"
    and "asked_writing r watch d \<Longrightarrow> asked_writing r watch s"
    and "asked_running r watch d \<Longrightarrow> asked_running r watch s"
proof -
  from assms(1) obtain source endpoint key out renders where parts:
    "dr_source d = Some source" "dr_endpoint d = Some endpoint" "dr_key d = Some key" "dr_out d = Some out"
    "rmap (parse_rendering (sp_file_mode d)) (dr_also d) = Inr renders"
    and s: "s = settings.extend (settings.truncate d) (Spec.fields source endpoint key out renders)"
    by (auto simp: spec_of_def res_simps)
  show "asked_store env r s"
    using assms(2) parts unfolding s asked_store_def asked_address_def passed_texts_def
    by (simp add: settings.defs Spec.defs)
  show "asked_also r s"
    using assms(2) parts(5) unfolding s asked_also_def asked_address_def
    by (auto simp: settings.defs Spec.defs rmap_eq_Inr list_all2_map1 also_text_commaless
        elim!: list_all2_mono)
  show "asked_writing r watch d \<Longrightarrow> asked_writing r watch s"
    unfolding s asked_writing_def by (simp add: settings.defs Spec.defs cong: option.case_cong)
  show "asked_running r watch d \<Longrightarrow> asked_running r watch s"
    unfolding s asked_running_def by (simp add: settings.defs Spec.defs cong: option.case_cong)
qed

lemma request_numbers:
  assumes "read_request get pod inst en an = Inr r" and "installation_ok inst"
  shows "rq_watch_seconds r < 2 ^ 64" and "pred_option (\<lambda>n. n < 2 ^ 64) (rq_timeout r)"
    and "pred_option (\<lambda>n. n < 2 ^ 64) (rq_revoke_grace r)" and "pred_option (\<lambda>n. n < 2 ^ 64) (rq_history r)"
    and "pred_option canonical_mode (rq_file_mode r)"
proof -
  note stages = read_request_stages [OF assms(1)] and more = remaining_stages [OF assms(1)]
  show "rq_watch_seconds r < 2 ^ 64" using watch_seconds_bound [OF stages(5) assms(2)] .
  show "pred_option (\<lambda>n. n < 2 ^ 64) (rq_timeout r)"
    using more(1) number_bounds(1) by (cases "rq_timeout r") auto
  show "pred_option (\<lambda>n. n < 2 ^ 64) (rq_revoke_grace r)"
    using stages(16) number_bounds(2) by (cases "rq_revoke_grace r") auto
  show "pred_option (\<lambda>n. n < 2 ^ 64) (rq_history r)"
  proof (cases "rq_history r")
    case (Some n)
    then have "n \<le> MOST_HISTORY" using stages(19) history_bounds by metis
    then show ?thesis using Some by (simp add: MOST_HISTORY_def)
  qed simp
  show "pred_option canonical_mode (rq_file_mode r)"
    using stages(11) file_mode_canonical [OF _ assms(2)] by (cases "rq_file_mode r") auto
qed

lemma request_arguments_ok:
  assumes "read_request get pod inst en an = Inr r" and "installation_ok inst"
  shows "list_all argument_ok (rq_arguments r)"
proof -
  obtain early late where "rq_arguments r = early @ late"
    and "pod_arguments (store_strings inst (Some (rq_source r))) get inst
           = Inr (rq_ssh r, rq_ca r, rq_tls_skip_verify r, early)"
    and "late_arguments (store_strings inst (Some (rq_source r))) get (rq_file_mode r)
           = Inr (rq_template r, rq_schema r, rq_tls r, late)"
    using read_request_stages(7) [OF assms(1)] by blast
  then show ?thesis
    using pod_arguments_ok late_arguments_ok [OF _ request_numbers(5) [OF assms]] by force
qed

text \<open>
  The agent that writes once is given no deadline, whatever the pod's \<open>timeout\<close> says: the flag is among those
  of the agent that watches.
\<close>

lemma init_agent_has_no_timeout:
  assumes "read_request get pod inst en an = Inr r" and "installation_ok inst"
  shows "said ''--timeout'' (request_args r False) = []"
  using request_says_line(7) [OF request_arguments_ok [OF assms], of False] by (simp add: watched_def opt_arg_def)

text \<open>C7: what a pod asks for is what its agent runs with. Whenever the agent of an accepted pod, whose
  pass-through annotations are not empty, starts from the command line admission wrote for it, each of its
  settings is the request's: the store, the document, the file and every text are those of the annotations, the
  credentials are those of the environment alone, verification is off only if the request turned it off, every
  number comes back as it was written, every additional file is the one named unless a comma splits it, and
  what is only for the agent that watches, the timeout included, is off or its default in the one that writes
  once.\<close>

theorem agent_runs_what_was_asked:
  assumes "of_pod_with pod inst = Inr (Some r)" and "installation_ok inst" and "no_empty_values r"
    and "from_args env (agent_words r watch @ metrics_words (rq_metrics_port r) watch) = Inr s"
  shows "asked_store env r s \<and> asked_also r s \<and> asked_writing r watch s \<and> asked_running r watch s"
proof -
  obtain anns en an where read: "read_request (annotation anns) pod inst en an = Inr r"
    using assms(1) by (rule of_pod_with_request)
  note ok = request_arguments_ok [OF read assms(2)] and numbers = request_numbers [OF read assms(2)]
    and shape = request_arguments_shape [OF read]
  have full: "\<forall>a \<in> set (rq_arguments r). snd a = [] \<longrightarrow> fst a = ''--tls-skip-verify''"
    using assms(3) by (simp add: no_empty_values_def list_all_iff)
  obtain d where d: "rfold put_arg (request_args r watch) (initial_draft env) = Inr d" and s: "spec_of d = Inr s"
    using assms(4) validated_eq
    unfolding from_args_def words_of_request read_arguments [OF request_args_known [OF ok full]]
    by (auto simp: res_simps)
  note lift = spec_as_asked [OF s addressed_as_asked [OF d ok shape(1) full shape(3)]]
  show ?thesis
    using lift(1,2) lift(3) [OF written_as_asked [OF d ok shape(1) full shape(2) numbers(5,4)]]
      lift(4) [OF run_as_asked [OF d ok shape(1) full numbers(1,2,3)]] by blast
qed

lemma example_command_line:
  obtains r where "of_pod_with example_pod pinning_install = Inr (Some r)" and "no_empty_values r"
    and "agent_words r True @ metrics_words (rq_metrics_port r) True =
      [''--source'', ''vault'', ''--endpoint'', ''https://v'', ''--key'', ''k'', ''--out'', ''/c/a.json'',
       ''--file-mode'', ''0640'', ''--watch'', ''30'']"
proof -
  have "annotations_of example_pod = Some example_notes" "show_nat 30 = ''30''" by code_simp+
  then have "\<exists>r. of_pod_with example_pod pinning_install = Inr (Some r) \<and> no_empty_values r \<and>
    agent_words r True @ metrics_words (rq_metrics_port r) True =
      [''--source'', ''vault'', ''--endpoint'', ''https://v'', ''--key'', ''k'', ''--out'', ''/c/a.json'',
       ''--file-mode'', ''0640'', ''--watch'', ''30'']"
    by (simp only: of_pod_with_def read_request_def example_stages Let_def rbind_Inr prod.case
        option.case if_True if_False not_True_eq_False simp_thms ensure_simps ok_or_simps rmap.simps)
      (simp add: no_empty_values_def agent_words_def metrics_words_def watching_words_def opt_flag_def
        bare_flag_def flag_words_def)
  then show ?thesis using that by blast
qed

definition token_env :: "string \<Rightarrow> string option" where
  "token_env = map_of [(''DYNAMIC_CONFIG_AGENT_TOKEN'', ''t'')]"

lemma example_command_read:
  "\<exists>s. from_args token_env
      [''--source'', ''vault'', ''--endpoint'', ''https://v'', ''--key'', ''k'', ''--out'', ''/c/a.json'',
       ''--file-mode'', ''0640'', ''--watch'', ''30''] = Inr s"
proof -
  have fmt: "format_of ''/c/a.json'' = Some FJson" by code_simp
  have numbers: "parse_uint 10 64 ''30'' = Some 30" "agent_file_mode ''0640'' = Inr 416"
    by (simp_all add: parse_uint_def starts_with_def digit_value_def agent_file_mode_def octal_def strip_prefix_def)
  show ?thesis
    by (simp add: from_args_def token_env_def initial_draft_def bare_flags_def value_flag_def
        text_flags_def checked_flags_def set_watch_def set_file_mode_def u64_of_def numbers spec_of_def fmt
        settings.defs Spec.defs validated_def SOURCES_def only_for_def validated_auth_def vault_auth_def
        needs_def unwrap_or_def templated_def)
qed

theorem agent_runs_what_was_asked_witness:
  "\<exists>r s. of_pod_with example_pod pinning_install = Inr (Some r) \<and>
     from_args token_env (agent_words r True @ metrics_words (rq_metrics_port r) True) = Inr s \<and>
     asked_store token_env r s \<and> asked_also r s \<and> asked_writing r True s \<and> asked_running r True s"
proof -
  obtain r where r: "of_pod_with example_pod pinning_install = Inr (Some r)" "no_empty_values r"
    and words: "agent_words r True @ metrics_words (rq_metrics_port r) True =
      [''--source'', ''vault'', ''--endpoint'', ''https://v'', ''--key'', ''k'', ''--out'', ''/c/a.json'',
       ''--file-mode'', ''0640'', ''--watch'', ''30'']"
    by (rule example_command_line)
  obtain s where s: "from_args token_env (agent_words r True @ metrics_words (rq_metrics_port r) True) = Inr s"
    using example_command_read unfolding words by blast
  show ?thesis using agent_runs_what_was_asked [OF r(1) pinning_install_ok r(2) s] r(1) s by blast
qed

section \<open>Verification of the store's certificate\<close>

definition extra_args :: "ExtraRender \<Rightarrow> bool \<Rightarrow> arg list" where
  "extra_args x watch =
     [Valued ''--source'' (x_source x)] @ opt_arg ''--endpoint'' (x_endpoint x)
     @ [Valued ''--key'' (x_key x), Valued ''--out'' (x_path x)] @ map arg_of (x_arguments x)
     @ opt_arg ''--watch'' (if watch then Some (show_nat (x_watch_seconds x)) else None)
     @ opt_arg ''--metrics-addr''
         (if watch then map_option (\<lambda>p. ''0.0.0.0:'' @ show_nat p) (x_metrics_port x) else None)"

lemma words_of_extra:
  "extra_words x watch @ metrics_words (x_metrics_port x) watch = concat (map arg_words (extra_args x watch))"
proof -
  have "metrics_words (x_metrics_port x) watch = opt_flag ''--metrics-addr''
      (if watch then map_option (\<lambda>p. ''0.0.0.0:'' @ show_nat p) (x_metrics_port x) else None)"
    by (simp add: metrics_words_def opt_flag_def split: option.split)
  then show ?thesis by (simp add: extra_args_def extra_words_def opt_flag_def)
qed

lemma extra_args_known:
  assumes "list_all argument_ok (x_arguments x)"
    and "\<forall>a \<in> set (x_arguments x). snd a = [] \<longrightarrow> fst a = ''--tls-skip-verify''"
  shows "list_all arg_known (extra_args x watch)"
proof -
  have known: "list_all (\<lambda>flag. map_of bare_flags flag = None \<and> value_flag flag \<noteq> None) line_flags"
    using line_flag by (simp add: list_all_iff)
  have "list_all arg_known (map arg_of (x_arguments x))"
    using assms by (simp add: list_all_iff argument_known)
  with known show ?thesis
    by (simp add: line_flags_def extra_args_def opt_arg_known)
qed

lemma extra_render_arguments_ok:
  assumes "extra_render sfx get path inst = Inr x" and "installation_ok inst"
  shows "list_all argument_ok (x_arguments x)"
  using extra_arguments_ok [OF extra_render_stages(9) [OF assms(1)] assms(2)] .

lemma verification_left_on:
  assumes "list_all arg_known as" and "said ''--tls-skip-verify'' as = []"
    and "from_args env (concat (map arg_words as)) = Inr s"
  shows "\<not> sp_tls_skip_verify s"
proof -
  obtain d where d: "rfold put_arg as (initial_draft env) = Inr d" and s: "spec_of d = Inr s"
    using assms(3) validated_eq unfolding from_args_def read_arguments [OF assms(1)] by (auto simp: res_simps)
  have "sp_tls_skip_verify d = sp_tls_skip_verify (initial_draft env)"
    by (rule unmoved [OF line_moves(7) d]) (simp add: assms(2))
  moreover have "sp_tls_skip_verify s = sp_tls_skip_verify d"
    using s by (auto simp: spec_of_def res_simps settings.defs Spec.defs)
  ultimately show ?thesis by (simp add: initial_draft_def)
qed

lemma said_in_arguments: "flag \<notin> fst ` set args \<Longrightarrow> said flag (map arg_of args) = []"
  by (rule said_nothing) (auto simp: image_iff)

lemma said_skip:
  shows "''--tls-skip-verify'' \<notin> fst ` set (rq_arguments r) \<Longrightarrow> said ''--tls-skip-verify'' (request_args r watch) = []"
    and "''--tls-skip-verify'' \<notin> fst ` set (x_arguments x) \<Longrightarrow> said ''--tls-skip-verify'' (extra_args x watch) = []"
proof -
  have also_said: "said ''--tls-skip-verify'' (map (\<lambda>f. Valued ''--also'' (also_text f)) fs) = []" for fs
    by (induction fs) simp_all
  have opt: "said ''--tls-skip-verify'' (opt_arg flag v) = []" "said ''--tls-skip-verify'' (bare_arg flag b) = []"
    if "flag \<noteq> ''--tls-skip-verify''" for flag v b
    using that by (auto simp: opt_arg_def bare_arg_def split: option.split)
  note parts = opt also_said said_in_arguments
  show "''--tls-skip-verify'' \<notin> fst ` set (rq_arguments r) \<Longrightarrow> said ''--tls-skip-verify'' (request_args r watch) = []"
    by (simp add: request_args_def head_args_def tail_args_def watching_args_def parts)
  show "''--tls-skip-verify'' \<notin> fst ` set (x_arguments x) \<Longrightarrow> said ''--tls-skip-verify'' (extra_args x watch) = []"
    by (simp add: extra_args_def parts)
qed

text \<open>C29: where the installation does not offer it and no pass-through annotation is empty, every agent of an
  accepted pod that starts from the line admission wrote for it, its own or a named render's, in the init
  container or beside the application, verifies the store's certificate.\<close>

theorem verification_stays_on:
  assumes "of_pod_with pod inst = Inr (Some r)" and "installation_ok inst" and "no_empty_values r"
    and "\<not> allow_tls_skip_verify inst"
    and "ws \<in> {agent_words r watch @ metrics_words (rq_metrics_port r) watch} \<union>
      (\<lambda>x. extra_words x watch @ metrics_words (x_metrics_port x) watch) ` set (rq_extra r)"
    and "from_args env ws = Inr s"
  shows "\<not> sp_tls_skip_verify s"
proof -
  obtain anns en an where read: "read_request (annotation anns) pod inst en an = Inr r"
    using assms(1) by (rule of_pod_with_request)
  note off = verification_is_not_asked_off [OF assms(1,4)]
  have full: "\<forall>a \<in> set args. snd a = [] \<longrightarrow> fst a = ''--tls-skip-verify''"
    if "args \<in> set (rq_arguments r # map x_arguments (rq_extra r))" for args
    using assms(3) that unfolding no_empty_values_def list_all_iff by blast
  from assms(5) consider
      "ws = agent_words r watch @ metrics_words (rq_metrics_port r) watch"
    | x where "x \<in> set (rq_extra r)" "ws = extra_words x watch @ metrics_words (x_metrics_port x) watch"
    by blast
  then show ?thesis
  proof cases
    case 1
    have "list_all arg_known (request_args r watch)"
      by (rule request_args_known [OF request_arguments_ok [OF read assms(2)] full]) simp
    then show ?thesis
      by (rule verification_left_on [OF _ _ assms(6) [unfolded 1 words_of_request]]) (use said_skip(1) off in blast)
  next
    case (2 x)
    obtain sfx where "extra_render sfx (\<lambda>name. annotation anns (suffixed sfx name)) (Some (rq_path r)) inst = Inr x"
      using extras_member [OF read_request_stages(26) [OF read] 2(1)] by blast
    then have "list_all argument_ok (x_arguments x)" using assms(2) by (rule extra_render_arguments_ok)
    then have "list_all arg_known (extra_args x watch)"
      by (rule extra_args_known [OF _ full]) (use 2(1) in simp)
    then show ?thesis
      by (rule verification_left_on [OF _ _ assms(6) [unfolded 2(2) words_of_extra]]) (use said_skip(2) off 2(1) in blast)
  qed
qed

theorem verification_stays_on_witness:
  "\<exists>r s. of_pod_with example_pod pinning_install = Inr (Some r) \<and>
     from_args token_env (agent_words r True @ metrics_words (rq_metrics_port r) True) = Inr s \<and>
     \<not> sp_tls_skip_verify s"
proof -
  obtain r where r: "of_pod_with example_pod pinning_install = Inr (Some r)" "no_empty_values r"
    and words: "agent_words r True @ metrics_words (rq_metrics_port r) True =
      [''--source'', ''vault'', ''--endpoint'', ''https://v'', ''--key'', ''k'', ''--out'', ''/c/a.json'',
       ''--file-mode'', ''0640'', ''--watch'', ''30'']"
    by (rule example_command_line)
  obtain s where s: "from_args token_env (agent_words r True @ metrics_words (rq_metrics_port r) True) = Inr s"
    using example_command_read unfolding words by blast
  have "\<not> allow_tls_skip_verify pinning_install" by (simp add: pinning_install_def)
  then show ?thesis
    using verification_stays_on [OF r(1) pinning_install_ok r(2) _ _ s, of True] r(1) s by blast
qed

text \<open>
  An empty section is a bare flag: it takes \<open>--auth\<close> for its value, and the method of authentication, which nothing
  reads at admission, is then a flag of the agent's own. Verification is off where nothing offered it.
\<close>

lemma empty_section_turns_verification_off:
  defines "get \<equiv> annotation [ann ''section'' [], ann ''auth'' ''--tls-skip-verify'']"
  shows "pod_arguments [] get bare_install
      = Inr (None, None, False, [(''--section'', []), (''--auth'', ''--tls-skip-verify'')])" (is ?A)
    and "\<not> allow_tls_skip_verify bare_install" (is ?B)
    and "\<exists>s. from_args token_env ([''--source'', ''vault'', ''--endpoint'', ''https://v'', ''--key'', ''k'',
        ''--out'', ''/c/a.json''] @ flag_words [(''--section'', []), (''--auth'', ''--tls-skip-verify'')]) = Inr s \<and>
      sp_tls_skip_verify s" (is ?C)
proof -
  show ?A unfolding get_def by code_simp
  show ?B by (simp add: bare_install_def)
  have fmt: "format_of ''/c/a.json'' = Some FJson" by code_simp
  show ?C
    by (simp add: from_args_def token_env_def initial_draft_def bare_flags_def value_flag_def
        text_flags_def checked_flags_def spec_of_def fmt flag_words_def
        settings.defs Spec.defs validated_def SOURCES_def only_for_def validated_auth_def vault_auth_def
        needs_def unwrap_or_def templated_def)
qed

end
