(* ===== verification/Files.thy ===== *)
theory Files
  imports Paths
begin

text \<open>
  The files beside the application (\<open>render.rs\<close>: \<open>write_atomically\<close>, \<open>keep_previous\<close>, \<open>prune\<close>,
  \<open>write_meta\<close>). A volume is the map from paths to regular files, in path order; what the standard
  library does to it is a sequence of primitive operations, any of which the kernel may refuse, and a
  write that is refused may leave any prefix of its text. The digest (crate \<open>sha2\<close>) and the clock
  are parameters.
\<close>

unbundle bit_operations_syntax

section \<open>A volume\<close>

record rendered_file =
  file_text :: string
  file_mode :: nat

type_synonym volume = "(string \<times> rendered_file) list"

definition created_mode :: nat where
  "created_mode = 420"

definition read_file :: "volume \<Rightarrow> string \<Rightarrow> string option" where
  "read_file v p = map_option file_text (map_of v p)"

definition put_file :: "string \<Rightarrow> rendered_file \<Rightarrow> volume \<Rightarrow> volume" where
  "put_file = map_insert"

definition drop_file :: "string \<Rightarrow> volume \<Rightarrow> volume" where
  "drop_file p v = filter (\<lambda>(q, _). q \<noteq> p) v"

datatype fs_op =
    WriteFile string string
  | SetMode string nat
  | RenameFile string string
  | RemoveFile string

text \<open>Writing truncates a file that is there and keeps its mode; a new one gets the umask's.\<close>

definition written :: "string \<Rightarrow> string \<Rightarrow> volume \<Rightarrow> volume" where
  "written p c v =
     put_file p \<lparr> file_text = c,
       file_mode = (case map_of v p of None \<Rightarrow> created_mode | Some f \<Rightarrow> file_mode f) \<rparr> v"

fun fs_apply :: "fs_op \<Rightarrow> volume \<Rightarrow> volume option" where
  "fs_apply (WriteFile p c) v = Some (written p c v)"
| "fs_apply (SetMode p m) v =
     (case map_of v p of None \<Rightarrow> None | Some f \<Rightarrow> Some (put_file p (f \<lparr> file_mode := m \<rparr>) v))"
| "fs_apply (RenameFile p q) v =
     (case map_of v p of
        None \<Rightarrow> None
      | Some f \<Rightarrow> if p = q then Some v else Some (put_file q f (drop_file p v)))"
| "fs_apply (RemoveFile p) v =
     (case map_of v p of None \<Rightarrow> None | Some _ \<Rightarrow> Some (drop_file p v))"

fun fs_apply_all :: "fs_op list \<Rightarrow> volume \<Rightarrow> volume option" where
  "fs_apply_all [] v = Some v"
| "fs_apply_all (op # ops) v =
     (case fs_apply op v of None \<Rightarrow> None | Some w \<Rightarrow> fs_apply_all ops w)"

text \<open>
  What another process can find on the volume while the operations run, or after one of them
  failed or the container was killed: any prefix of them done, and of a write any prefix of its text.
\<close>

inductive seen :: "fs_op list \<Rightarrow> volume \<Rightarrow> volume \<Rightarrow> bool" where
  seen_here: "seen ops v v"
| seen_torn: "c = a @ b \<Longrightarrow> seen (WriteFile p c # ops) v (written p a v)"
| seen_later: "fs_apply op v = Some w \<Longrightarrow> seen ops w u \<Longrightarrow> seen (op # ops) v u"

inductive_cases seen_NilE: "seen [] v u"
inductive_cases seen_ConsE: "seen (op # ops) v u"

section \<open>Write, then rename\<close>

definition scratch_path :: "string \<Rightarrow> string option" where
  "scratch_path path =
     map_option (\<lambda>dir. path_join dir (''.'' @ unwrap_or (file_name path) ''rendered'' @ ''.tmp''))
       (path_parent path)"

definition write_atomically :: "string \<Rightarrow> string \<Rightarrow> nat option \<Rightarrow> fs_op list option" where
  "write_atomically path content mode =
     map_option (\<lambda>scratch.
       [WriteFile scratch content]
       @ (case mode of None \<Rightarrow> [] | Some m \<Rightarrow> [SetMode scratch m])
       @ [RenameFile scratch path]) (scratch_path path)"

section \<open>What is written beside a render\<close>

definition hex_digit :: "nat \<Rightarrow> char" where
  "hex_digit n = (if n < 10 then char_of (48 + n) else char_of (87 + n))"

definition hex_byte :: "8 word \<Rightarrow> string" where
  "hex_byte b = [hex_digit (unat b div 16), hex_digit (unat b mod 16)]"

definition digest :: "(string \<Rightarrow> 8 word list) \<Rightarrow> string \<Rightarrow> string" where
  "digest sha256 document = ''sha256:'' @ concat (map hex_byte (sha256 document))"

definition beside :: "string \<Rightarrow> string \<Rightarrow> string option" where
  "beside suffix path =
     map_option (\<lambda>name. with_file_name path (''.'' @ name @ suffix)) (file_name path)"

definition history_path :: "string \<Rightarrow> string option" where
  "history_path = beside ''.history''"

definition meta_path :: "string \<Rightarrow> string option" where
  "meta_path = beside ''.meta''"

definition newline :: string where
  "newline = [char_of (10 :: nat)]"

definition meta_document :: "string option \<Rightarrow> string \<Rightarrow> nat \<Rightarrow> string" where
  "meta_document revision fingerprint now =
     (let quote = [char_of (34 :: nat)];
          rev_text = (case revision of None \<Rightarrow> ''null'' | Some r \<Rightarrow> quote @ r @ quote) in
      ''{'' @ newline
      @ ''  '' @ quote @ ''fingerprint'' @ quote @ '': '' @ quote @ fingerprint @ quote @ '','' @ newline
      @ ''  '' @ quote @ ''revision'' @ quote @ '': '' @ rev_text @ '','' @ newline
      @ ''  '' @ quote @ ''rendered_at'' @ quote @ '': '' @ show_nat now @ newline
      @ ''}'' @ newline)"

definition write_meta :: "string \<Rightarrow> string option \<Rightarrow> string \<Rightarrow> nat \<Rightarrow> nat option \<Rightarrow> fs_op list option" where
  "write_meta path revision fingerprint now mode =
     (case meta_path path of
        None \<Rightarrow> Some []
      | Some meta \<Rightarrow> write_atomically meta (meta_document revision fingerprint now) mode)"

section \<open>The generations that were replaced\<close>

definition mode_of_file :: "volume \<Rightarrow> string \<Rightarrow> nat option" where
  "mode_of_file v p = map_option (\<lambda>f. file_mode f AND 511) (map_of v p)"

definition files_in :: "string \<Rightarrow> volume \<Rightarrow> string list" where
  "files_in dir v = filter (\<lambda>p. path_parent p = Some dir) (map fst v)"

definition over_limit :: "nat \<Rightarrow> string list \<Rightarrow> string list" where
  "over_limit keep names = (let ps = sort names in take (length ps - keep) ps)"

text \<open>A file that cannot be removed stays: nothing hears of it. \<open>stuck\<close> says which ones those are.\<close>

definition prune :: "(string \<Rightarrow> bool) \<Rightarrow> string \<Rightarrow> nat \<Rightarrow> volume \<Rightarrow> volume" where
  "prune stuck dir keep v =
     fold drop_file (filter (\<lambda>p. \<not> stuck p) (over_limit keep (files_in dir v))) v"

function trim_start_matches :: "string \<Rightarrow> string \<Rightarrow> string" where
  "trim_start_matches p s =
     (if p \<noteq> [] \<and> starts_with p s then trim_start_matches p (drop (length p) s) else s)"
  by pat_completeness auto
termination
  by (relation "measure (\<lambda>(p, s). length s)") (auto simp: starts_with_iff)

declare trim_start_matches.simps [simp del]

definition short_digest :: "string \<Rightarrow> string" where
  "short_digest d =
     (let h = trim_start_matches ''sha256:'' d in if 12 \<le> length h then take 12 h else [])"

definition kept_path :: "(string \<Rightarrow> 8 word list) \<Rightarrow> nat \<Rightarrow> string \<Rightarrow> string \<Rightarrow> string \<Rightarrow> string" where
  "kept_path sha256 now path dir previous =
     path_join dir (show_nat now @ ''-'' @ short_digest (digest sha256 previous) @ ''.''
       @ unwrap_or (extension path) ''txt'')"

datatype history_error = NoName | WriteRefused

text \<open>
  On a volume that refuses no write: the directory is made, the copy is written whole, the oldest
  names past the limit go, those the volume lets go.
\<close>

definition keep_previous :: "(string \<Rightarrow> 8 word list) \<Rightarrow> (string \<Rightarrow> bool) \<Rightarrow> nat \<Rightarrow> string \<Rightarrow> nat \<Rightarrow> volume
    \<Rightarrow> history_error + volume" where
  "keep_previous sha256 stuck now path keep v =
     (if keep = 0 then Inr v
      else (case read_file v path of
              None \<Rightarrow> Inr v
            | Some previous \<Rightarrow>
                rbind (ok_or (history_path path) NoName) (\<lambda>dir.
                let kept = kept_path sha256 now path dir previous in
                rbind (ok_or (write_atomically kept previous (mode_of_file v path)) WriteRefused) (\<lambda>ops.
                rbind (ok_or (fs_apply_all ops v) WriteRefused) (\<lambda>w.
                Inr (prune stuck dir keep w))))))"

section \<open>Facts\<close>

lemma map_of_put [simp]: "map_of (put_file p f v) = (map_of v)(p \<mapsto> f)"
  by (simp add: put_file_def)

lemma map_of_drop [simp]: "map_of (drop_file p v) = (map_of v)(p := None)"
  by (induction v) (auto simp: drop_file_def fun_eq_iff)

lemma map_of_written:
  "map_of (written p c v) = (map_of v)(p \<mapsto> \<lparr> file_text = c,
     file_mode = (case map_of v p of None \<Rightarrow> created_mode | Some f \<Rightarrow> file_mode f) \<rparr>)"
  by (simp add: written_def)

text \<open>The path an operation may change.\<close>

fun touches :: "fs_op \<Rightarrow> string set" where
  "touches (WriteFile p _) = {p}"
| "touches (SetMode p _) = {p}"
| "touches (RenameFile p q) = {p, q}"
| "touches (RemoveFile p) = {p}"

lemma fs_apply_frame: "fs_apply op v = Some w \<Longrightarrow> q \<notin> touches op \<Longrightarrow> map_of w q = map_of v q"
  by (cases op) (auto simp: map_of_written split: option.splits if_splits)

lemma seen_frame:
  "seen ops v u \<Longrightarrow> \<forall>op \<in> set ops. q \<notin> touches op \<Longrightarrow> map_of u q = map_of v q"
  by (induction rule: seen.induct) (auto simp: map_of_written dest: fs_apply_frame)

lemma seen_Cons:
  "seen (op # ops) v u \<longleftrightarrow> u = v \<or> (\<exists>p a b. op = WriteFile p (a @ b) \<and> u = written p a v) \<or>
     (\<exists>w. fs_apply op v = Some w \<and> seen ops w u)"
  by (auto elim!: seen_ConsE intro: seen.intros)

lemma seen_Nil [simp]: "seen [] v u \<longleftrightarrow> u = v"
  by (auto elim: seen_NilE intro: seen.intros)

lemma seen_append:
  "seen (a @ b) v u \<longleftrightarrow> seen a v u \<or> (\<exists>w. fs_apply_all a v = Some w \<and> seen b w u)"
proof (induction a arbitrary: v)
  case Nil
  then show ?case using seen_here by auto
next
  case (Cons op a)
  then show ?case by (auto simp: seen_Cons split: option.splits)
qed

lemma fs_apply_all_append:
  "fs_apply_all (a @ b) v = (case fs_apply_all a v of None \<Rightarrow> None | Some w \<Rightarrow> fs_apply_all b w)"
  by (induction a arbitrary: v) (auto split: option.splits)

subsection \<open>A file named by a plain path\<close>

text \<open>The paths a pod names: absolute, plain, not hidden. Every path below that is made of one is hidden.\<close>

definition visible :: "string \<Rightarrow> bool" where
  "visible p \<longleftrightarrow> (\<exists>ds n. list_all plain_name ds \<and> plain_name n \<and> hd n \<noteq> CHR ''.'' \<and>
     p = plain_dir (ds @ [n]))"

lemma hidden_plain: "plain_name n \<Longrightarrow> CHR ''/'' \<notin> set t \<Longrightarrow> plain_name (CHR ''.'' # n @ t)"
  by (cases n) (auto simp: plain_name_def)

lemma beside_hidden:
  assumes "list_all plain_name ds" and "plain_name n" and "CHR ''/'' \<notin> set t"
  shows "beside t (plain_dir (ds @ [n])) = Some (plain_dir (ds @ [CHR ''.'' # n @ t]))"
  using plain_file(2) [OF assms(1,2)] plain_with_file_name [OF assms(1,2) hidden_plain [OF assms(2,3)]]
  by (simp add: beside_def)

lemma scratch_hidden:
  assumes "list_all plain_name ds" and "plain_name n"
  shows "scratch_path (plain_dir (ds @ [n])) = Some (plain_dir (ds @ [CHR ''.'' # n @ ''.tmp'']))"
  using plain_file [OF assms] plain_join [OF assms(1) hidden_plain [OF assms(2)], of "''.tmp''"]
  by (simp add: scratch_path_def)

lemma hidden_not_visible:
  assumes "list_all plain_name ds" and "plain_name (CHR ''.'' # n)"
  shows "\<not> visible (plain_dir (ds @ [CHR ''.'' # n]))"
proof
  assume "visible (plain_dir (ds @ [CHR ''.'' # n]))"
  then obtain es m where m: "list_all plain_name es" "plain_name m" "hd m \<noteq> CHR ''.''"
    "plain_dir (ds @ [CHR ''.'' # n]) = plain_dir (es @ [m])"
    unfolding visible_def by blast
  then have "ds @ [CHR ''.'' # n] = es @ [m]"
    using plain_dir_inj [of "ds @ [CHR ''.'' # n]" "es @ [m]"] assms by simp
  then have "m = CHR ''.'' # n" by blast
  then show False using m(3) by simp
qed

lemma visible_scratch:
  assumes "visible p"
  obtains scratch where "scratch_path p = Some scratch" and "\<not> visible scratch"
proof -
  obtain ds n where p: "list_all plain_name ds" "plain_name n" "p = plain_dir (ds @ [n])"
    using assms unfolding visible_def by blast
  have "\<not> visible (plain_dir (ds @ [CHR ''.'' # n @ ''.tmp'']))"
    using p(1) hidden_plain [OF p(2), of "''.tmp''"] by (intro hidden_not_visible) simp_all
  then show ?thesis using scratch_hidden [OF p(1,2)] p(3) that by blast
qed

subsection \<open>Write, then rename\<close>

lemma write_atomically_visible:
  assumes "visible p"
  obtains scratch where "\<not> visible scratch" and "scratch \<noteq> p"
    and "write_atomically p c m = Some (WriteFile scratch c
           # (case m of None \<Rightarrow> [] | Some k \<Rightarrow> [SetMode scratch k]) @ [RenameFile scratch p])"
proof -
  obtain scratch where "scratch_path p = Some scratch" "\<not> visible scratch"
    using assms by (rule visible_scratch)
  then show ?thesis using assms by (intro that) (auto simp: write_atomically_def)
qed

lemma write_atomically_seen:
  assumes "visible p" and "write_atomically p c m = Some ops" and "seen ops v u"
  shows "visible q \<Longrightarrow> q \<noteq> p \<Longrightarrow> map_of u q = map_of v q"
    and "map_of u p = map_of v p \<or>
      (\<exists>f. map_of u p = Some f \<and> file_text f = c \<and> (m = None \<or> m = Some (file_mode f)))"
proof -
  obtain scratch where ops: "\<not> visible scratch" "scratch \<noteq> p"
    "ops = WriteFile scratch c # (case m of None \<Rightarrow> [] | Some k \<Rightarrow> [SetMode scratch k]) @ [RenameFile scratch p]"
    using assms(1,2) write_atomically_visible [OF assms(1), of c m] by (metis option.inject)
  show "visible q \<Longrightarrow> q \<noteq> p \<Longrightarrow> map_of u q = map_of v q"
    by (rule seen_frame [OF assms(3)]) (use ops in \<open>auto split: option.splits\<close>)
  show "map_of u p = map_of v p \<or>
      (\<exists>f. map_of u p = Some f \<and> file_text f = c \<and> (m = None \<or> m = Some (file_mode f)))"
    using assms(3) ops(2) unfolding ops(3)
    by (auto simp: seen_Cons map_of_written split: option.splits)
qed

lemma write_atomically_done:
  assumes "visible p" and "write_atomically p c m = Some ops"
  obtains u f where "fs_apply_all ops v = Some u" and "map_of u p = Some f" and "file_text f = c"
    and "m = None \<or> m = Some (file_mode f)" and "\<And>q. visible q \<Longrightarrow> q \<noteq> p \<Longrightarrow> map_of u q = map_of v q"
proof -
  obtain scratch where ops: "\<not> visible scratch" "scratch \<noteq> p"
    "ops = WriteFile scratch c # (case m of None \<Rightarrow> [] | Some k \<Rightarrow> [SetMode scratch k]) @ [RenameFile scratch p]"
    using assms(1,2) write_atomically_visible [OF assms(1), of c m] by (metis option.inject)
  have "\<exists>u. fs_apply_all ops v = Some u \<and>
      (\<exists>f. map_of u p = Some f \<and> file_text f = c \<and> (m = None \<or> m = Some (file_mode f))) \<and>
      (\<forall>q. visible q \<longrightarrow> q \<noteq> p \<longrightarrow> map_of u q = map_of v q)"
    using ops by (cases m) (auto simp: map_of_written)
  then show ?thesis using that by blast
qed


text \<open>C30: an application never reads half a file. Whatever it finds while a render is being written,
  or after the write failed anywhere, is the file that was there or the whole new one, in the mode
  the new one keeps; no other file of the pod moved.\<close>

theorem readers_see_whole_files:
  assumes "visible p" and "write_atomically p c m = Some ops" and "seen ops v u"
  shows "(map_of u p = map_of v p \<or>
      (\<exists>f. map_of u p = Some f \<and> file_text f = c \<and> (m = None \<or> m = Some (file_mode f)))) \<and>
    (\<forall>q. visible q \<and> q \<noteq> p \<longrightarrow> map_of u q = map_of v q)"
  using write_atomically_seen [OF assms] by blast

lemma visible_example: "visible ''/c/a.json''"
proof -
  have "''/c/a.json'' = plain_dir ([''c''] @ [''a.json''])" by (simp add: plain_dir_def)
  then show ?thesis
    unfolding visible_def by (intro exI [of _ "[''c'']"] exI [of _ "''a.json''"]) (simp add: plain_name_def)
qed

theorem readers_see_whole_files_witness:
  "map_of (written ''/c/.a.json.tmp'' ''ne'' [(''/c/a.json'', \<lparr> file_text = ''old'', file_mode = 384 \<rparr>)])
     ''/c/a.json'' = Some \<lparr> file_text = ''old'', file_mode = 384 \<rparr>"
proof -
  define v where "v = [(''/c/a.json'', \<lparr> file_text = ''old'', file_mode = 384 \<rparr>)]"
  define ops where "ops = [WriteFile ''/c/.a.json.tmp'' (''ne'' @ ''w''), RenameFile ''/c/.a.json.tmp'' ''/c/a.json'']"
  have "write_atomically ''/c/a.json'' ''new'' None = Some ops" unfolding ops_def by code_simp
  moreover have "seen ops v (written ''/c/.a.json.tmp'' ''ne'' v)"
    unfolding ops_def by (rule seen_torn) (rule refl)
  ultimately show ?thesis
    using readers_see_whole_files [OF visible_example, of "''new''" None ops v] unfolding v_def
    by (auto simp: map_of_written)
qed

section \<open>Publishing a set of files\<close>

text \<open>
  A store whose updates a reader sees whole or not at all: what a sequence of them shows is always
  the first few. The renders of one document are published through it.
\<close>

locale atomic_store =
  fixes during :: "'k \<Rightarrow> 'v \<Rightarrow> 's \<Rightarrow> 's \<Rightarrow> bool" and after :: "'k \<Rightarrow> 'v \<Rightarrow> 's \<Rightarrow> 's option"
    and view :: "'s \<Rightarrow> 'k \<Rightarrow> 'a option" and shown :: "'v \<Rightarrow> 'a" and names :: "'k set"
  assumes during_self: "k \<in> names \<Longrightarrow> during k v s t \<Longrightarrow> view t k = view s k \<or> view t k = Some (shown v)"
    and during_other: "k \<in> names \<Longrightarrow> j \<in> names \<Longrightarrow> j \<noteq> k \<Longrightarrow> during k v s t \<Longrightarrow> view t j = view s j"
    and after_self: "k \<in> names \<Longrightarrow> after k v s = Some t \<Longrightarrow> view t k = Some (shown v)"
    and after_other: "k \<in> names \<Longrightarrow> j \<in> names \<Longrightarrow> j \<noteq> k \<Longrightarrow> after k v s = Some t \<Longrightarrow> view t j = view s j"
begin

fun published :: "('k \<times> 'v) list \<Rightarrow> 's \<Rightarrow> 's \<Rightarrow> bool" where
  "published [] s t = (t = s)"
| "published ((k, v) # rest) s t =
     (during k v s t \<or> (\<exists>s'. after k v s = Some s' \<and> published rest s' t))"

definition first_shown :: "nat \<Rightarrow> ('k \<times> 'v) list \<Rightarrow> 's \<Rightarrow> 'k \<Rightarrow> 'a option" where
  "first_shown n kvs s k =
     (case map_of (take n kvs) k of None \<Rightarrow> view s k | Some v \<Rightarrow> Some (shown v))"

lemma published_prefix:
  assumes "published kvs s t" and "fst ` set kvs \<subseteq> names" and "distinct (map fst kvs)"
  shows "\<exists>n \<le> length kvs. \<forall>k \<in> names. view t k = first_shown n kvs s k"
  using assms
proof (induction kvs arbitrary: s)
  case Nil
  then show ?case by (auto simp: first_shown_def)
next
  case (Cons kv rest)
  obtain k v where kv: "kv = (k, v)" by (cases kv)
  have k: "k \<in> names" using Cons.prems(2) kv by simp
  consider "during k v s t" | s' where "after k v s = Some s'" "published rest s' t"
    using Cons.prems(1) kv by auto
  then show ?case
  proof cases
    case 1
    note other = during_other [OF k _ _ 1]
    from during_self [OF k 1] show ?thesis
    proof
      assume same: "view t k = view s k"
      have "view t j = view s j" if "j \<in> names" for j using other [OF that] same by (cases "j = k") auto
      then show ?thesis by (intro exI [of _ 0]) (simp add: first_shown_def)
    next
      assume new: "view t k = Some (shown v)"
      have "view t j = first_shown 1 (kv # rest) s j" if "j \<in> names" for j
        using other [OF that] new kv by (cases "j = k") (auto simp: first_shown_def)
      then show ?thesis by (intro exI [of _ 1]) simp
    qed
  next
    case 2
    obtain n where n: "n \<le> length rest" "\<forall>j \<in> names. view t j = first_shown n rest s' j"
      using Cons.IH [OF 2(2)] Cons.prems(2,3) by auto
    have absent: "k \<notin> fst ` set (take n rest)"
      using Cons.prems(3) kv in_set_takeD by (fastforce simp: image_iff)
    then have gone: "map_of (take n rest) k = None" by (simp add: map_of_eq_None_iff)
    have "view t j = first_shown (Suc n) (kv # rest) s j" if j: "j \<in> names" for j
      using n(2) j after_self [OF k 2(1)] after_other [OF k j _ 2(1)] kv gone
      by (cases "j = k") (auto simp: first_shown_def split: option.splits)
    then show ?thesis using n(1) by (intro exI [of _ "Suc n"]) simp
  qed
qed

end

definition file_during :: "string \<Rightarrow> string \<times> nat option \<Rightarrow> volume \<Rightarrow> volume \<Rightarrow> bool" where
  "file_during p cm v u \<longleftrightarrow>
     (\<exists>ops. write_atomically p (fst cm) (snd cm) = Some ops \<and> seen ops v u) \<or>
     (write_atomically p (fst cm) (snd cm) = None \<and> u = v)"

definition file_after :: "string \<Rightarrow> string \<times> nat option \<Rightarrow> volume \<Rightarrow> volume option" where
  "file_after p cm v =
     (case write_atomically p (fst cm) (snd cm) of None \<Rightarrow> None | Some ops \<Rightarrow> fs_apply_all ops v)"

interpretation volumes: atomic_store file_during file_after read_file fst "Collect visible"
proof (unfold_locales, unfold mem_Collect_eq)
  fix k :: string and cm s t assume k: "visible k" and "file_during k cm s t"
  moreover obtain ops where "write_atomically k (fst cm) (snd cm) = Some ops"
    using write_atomically_visible [OF k] by metis
  ultimately have seen: "write_atomically k (fst cm) (snd cm) = Some ops" "seen ops s t"
    by (auto simp: file_during_def)
  show "read_file t k = read_file s k \<or> read_file t k = Some (fst cm)"
    using write_atomically_seen(2) [OF k seen] by (auto simp: read_file_def)
  show "visible j \<Longrightarrow> j \<noteq> k \<Longrightarrow> read_file t j = read_file s j" for j
    using write_atomically_seen(1) [OF k seen] by (simp add: read_file_def)
next
  fix k :: string and cm s t assume k: "visible k" and after: "file_after k cm s = Some t"
  then obtain ops where ops: "write_atomically k (fst cm) (snd cm) = Some ops" "fs_apply_all ops s = Some t"
    by (auto simp: file_after_def split: option.splits)
  obtain u f where u: "fs_apply_all ops s = Some u" "map_of u k = Some f" "file_text f = fst cm"
    "\<And>q. visible q \<Longrightarrow> q \<noteq> k \<Longrightarrow> map_of u q = map_of s q"
    using write_atomically_done [OF k ops(1)] by metis
  then have "u = t" using ops(2) by simp
  then show "read_file t k = Some (fst cm)" using u(2,3) by (simp add: read_file_def)
  show "visible j \<Longrightarrow> j \<noteq> k \<Longrightarrow> read_file t j = read_file s j" for j
    using u(4) \<open>u = t\<close> by (simp add: read_file_def)
qed

end
