(* ===== verification/History.thy ===== *)
theory History
  imports Files
begin

text \<open>
  What \<open>keep_previous\<close> keeps (\<open>render.rs\<close>): the generation a render replaces, in the directory
  beside it, in the mode it had, and no more of them than was asked for save those the volume would not remove.
\<close>

unbundle bit_operations_syntax

section \<open>Volumes keep their order\<close>

definition volume_ok :: "volume \<Rightarrow> bool" where
  "volume_ok v \<longleftrightarrow> sorted (map fst v) \<and> distinct (map fst v)"

lemma volume_ok_put: "volume_ok v \<Longrightarrow> volume_ok (put_file p f v)"
  unfolding volume_ok_def put_file_def by (rule sorted_insert)

lemma map_fst_drop: "map fst (drop_file p v) = filter (\<lambda>q. q \<noteq> p) (map fst v)"
  by (induction v) (auto simp: drop_file_def)

lemma volume_ok_drop: "volume_ok v \<Longrightarrow> volume_ok (drop_file p v)"
  by (simp add: volume_ok_def map_fst_drop sorted_wrt_filter)

lemma volume_ok_apply: "fs_apply op v = Some w \<Longrightarrow> volume_ok v \<Longrightarrow> volume_ok w"
  by (cases op) (auto simp: written_def volume_ok_put volume_ok_drop split: option.splits if_splits)

lemma volume_ok_apply_all: "fs_apply_all ops v = Some w \<Longrightarrow> volume_ok v \<Longrightarrow> volume_ok w"
  by (induction ops arbitrary: v) (auto dest: volume_ok_apply split: option.splits)

section \<open>Pruning\<close>

lemma files_in_drop: "files_in dir (drop_file p v) = filter (\<lambda>q. q \<noteq> p) (files_in dir v)"
  by (simp add: files_in_def map_fst_drop conj_commute)

lemma files_in_fold_drop: "files_in dir (fold drop_file ps v) = filter (\<lambda>q. q \<notin> set ps) (files_in dir v)"
  by (induction ps arbitrary: v) (auto simp: files_in_drop conj_commute)

lemma map_of_fold_drop: "map_of (fold drop_file ps v) q = (if q \<in> set ps then None else map_of v q)"
  by (induction ps arbitrary: v) auto

lemma over_limit_length: "length (over_limit keep ps) = length ps - keep"
  by (simp add: over_limit_def Let_def)

lemma over_limit_subset: "set (over_limit keep ps) \<subseteq> set ps"
  using set_take_subset [of "length ps - keep" "sort ps"] by (simp add: over_limit_def Let_def)

lemma over_limit_distinct: "distinct ps \<Longrightarrow> distinct (over_limit keep ps)"
  by (simp add: over_limit_def Let_def distinct_take)

lemma prune_length:
  assumes "volume_ok v" and "w = prune stuck dir keep v"
  shows "length (files_in dir w) \<le> keep + length (filter stuck (files_in dir w))"
proof -
  let ?ps = "files_in dir v" and ?over = "set (over_limit keep (files_in dir v))"
  have distinct: "distinct ?ps" using assms(1) by (simp add: volume_ok_def files_in_def)
  have left: "files_in dir w = filter (\<lambda>q. q \<notin> ?over \<or> stuck q) ?ps"
    by (auto simp: assms(2) prune_def files_in_fold_drop intro: filter_cong)
  have "card ?over = length ?ps - keep"
    using over_limit_distinct [OF distinct] over_limit_length by (metis distinct_card)
  moreover have "card (set ?ps - ?over) = card (set ?ps) - card ?over"
    using over_limit_subset by (rule card_Diff_subset [OF finite_set])
  ultimately have kept: "card (set ?ps - ?over) \<le> keep" using distinct_card [OF distinct] by simp
  have "set (files_in dir w) \<subseteq> (set ?ps - ?over) \<union> set (filter stuck (files_in dir w))"
    unfolding left by auto
  then have "card (set (files_in dir w)) \<le> card (set ?ps - ?over) + card (set (filter stuck (files_in dir w)))"
    by (meson card_Un_le card_mono finite_Diff finite_UnI finite_set order_trans)
  moreover have "distinct (files_in dir w)" unfolding left using distinct by simp
  ultimately show ?thesis using kept by (simp only: distinct_card distinct_filter)
qed

text \<open>The greatest name is the last to go.\<close>

lemma newest_stays:
  assumes "distinct ps" and "\<forall>q \<in> set ps. q \<le> p" and "0 < keep"
  shows "p \<notin> set (over_limit keep ps)"
proof
  let ?s = "sort ps"
  assume "p \<in> set (over_limit keep ps)"
  then obtain i where i: "i < length ps - keep" "?s ! i = p"
    unfolding over_limit_def Let_def by (auto simp: in_set_conv_nth)
  then have "i < length ?s - 1" using assms(3) by simp
  then have last: "i < length ?s" "Suc i < length ?s" by simp_all
  have "?s ! i \<le> ?s ! Suc i" by (rule sorted_nth_mono) (use last in simp_all)
  moreover have "?s ! Suc i \<in> set ps" using nth_mem [OF last(2)] by simp
  ultimately have "?s ! Suc i = ?s ! i" using assms(2) i(2) by (metis order_antisym)
  then show False using nth_eq_iff_index_eq [of ?s "Suc i" i] assms(1) last by simp
qed

section \<open>The kept generation\<close>

lemma map_of_prune_outside: "path_parent q \<noteq> Some dir \<Longrightarrow> map_of (prune stuck dir keep v) q = map_of v q"
  using over_limit_subset [of keep "files_in dir v"]
  by (auto simp: prune_def map_of_fold_drop files_in_def)

lemma hex_digit_plain: "n < 16 \<Longrightarrow> hex_digit n \<noteq> CHR ''/''"
  by (auto simp: hex_digit_def char_of_eq_iff take_bit_eq_mod)

lemma digest_plain: "CHR ''/'' \<notin> set (digest sha256 d)"
proof -
  have "CHR ''/'' \<noteq> hex_digit (unat b div 16)" "CHR ''/'' \<noteq> hex_digit (unat b mod 16)" for b :: "8 word"
  proof -
    have "unat b < 2 ^ LENGTH(8)" by (rule unsigned_less)
    then show "CHR ''/'' \<noteq> hex_digit (unat b div 16)" "CHR ''/'' \<noteq> hex_digit (unat b mod 16)"
      using hex_digit_plain [of "unat b div 16"] hex_digit_plain [of "unat b mod 16"]
      by (auto simp: div_less_iff_less_mult)
  qed
  then show ?thesis by (simp add: digest_def hex_byte_def)
qed

lemma trim_start_matches_subset: "set (trim_start_matches p s) \<subseteq> set s"
proof (induction p s rule: trim_start_matches.induct)
  case (1 p s)
  then show ?case
    using set_drop_subset [of "length p" s] by (subst trim_start_matches.simps) auto
qed

lemma short_digest_plain: "CHR ''/'' \<notin> set (short_digest (digest sha256 d))"
  using digest_plain [of sha256 d] trim_start_matches_subset [of "''sha256:''" "digest sha256 d"]
    set_take_subset [of 12 "trim_start_matches ''sha256:'' (digest sha256 d)"]
  by (auto simp: short_digest_def Let_def)

lemma extension_plain:
  assumes "list_all plain_name ds" and "plain_name n" and "extension (plain_dir (ds @ [n])) = Some e"
  shows "CHR ''/'' \<notin> set e"
proof -
  obtain stem where "rsplit_once (CHR ''.'') n = Some (stem, e)"
    using assms(3) plain_file(2) [OF assms(1,2)] by (auto simp: extension_def split: option.splits if_splits)
  then have "n = stem @ CHR ''.'' # e"
    unfolding rsplit_once_def by (auto simp: split_once_eq_Some rev_eq_append_conv split: option.splits)
  then show ?thesis using assms(2) by (auto simp: plain_name_def)
qed

lemma kept_path_plain:
  assumes "list_all plain_name ds" and "plain_name n" and "list_all plain_name es"
  obtains k where "plain_name k" and "hd k \<noteq> CHR ''.''"
    and "kept_path sha256 now (plain_dir (ds @ [n])) (plain_dir es) d = plain_dir (es @ [k])"
proof -
  define k where "k = show_nat now @ ''-'' @ short_digest (digest sha256 d) @ ''.''
    @ unwrap_or (extension (plain_dir (ds @ [n]))) ''txt''"
  obtain c cs where s: "show_nat now = c # cs" by (cases "show_nat now") simp_all
  have digit: "is_digit x" if "x \<in> set (show_nat now)" for x using show_radix_chars [OF that] by simp
  have "CHR ''/'' \<notin> set (unwrap_or (extension (plain_dir (ds @ [n]))) ''txt'')"
    using extension_plain [OF assms(1,2)] by (cases "extension (plain_dir (ds @ [n]))") auto
  moreover have "CHR ''/'' \<notin> set (show_nat now)" using digit [of "CHR ''/''"] by (auto simp: is_digit_def)
  ultimately have "plain_name k" "hd k \<noteq> CHR ''.''"
    using digit [of c] short_digest_plain [of sha256 d] s
    by (auto simp: k_def plain_name_def is_digit_def)
  moreover have "kept_path sha256 now (plain_dir (ds @ [n])) (plain_dir es) d = plain_dir (es @ [k])"
    using plain_join [OF assms(3) \<open>plain_name k\<close>] by (simp add: kept_path_def k_def)
  ultimately show ?thesis by (rule that)
qed

lemma kept_place:
  assumes "list_all plain_name ds" and "plain_name n"
  defines "path \<equiv> plain_dir (ds @ [n])" and "dir \<equiv> plain_dir (ds @ [CHR ''.'' # n @ ''.history''])"
  shows "history_path path = Some dir" and "visible (kept_path sha256 now path dir d)"
    and "path_parent (kept_path sha256 now path dir d) = Some dir"
proof -
  show "history_path path = Some dir"
    unfolding history_path_def path_def dir_def by (rule beside_hidden [OF assms(1,2)]) simp
  have es: "list_all plain_name (ds @ [CHR ''.'' # n @ ''.history''])"
    using assms(1) hidden_plain [OF assms(2), of "''.history''"] by simp
  obtain k where k: "plain_name k" "hd k \<noteq> CHR ''.''"
    "kept_path sha256 now path dir d = plain_dir ((ds @ [CHR ''.'' # n @ ''.history'']) @ [k])"
    using kept_path_plain [OF assms(1,2) es] unfolding path_def dir_def by metis
  show "visible (kept_path sha256 now path dir d)" unfolding visible_def using es k by metis
  show "path_parent (kept_path sha256 now path dir d) = Some dir"
    using plain_file(1) [OF es k(1)] k(3) unfolding dir_def by metis
qed

lemma write_atomically_inside:
  assumes "list_all plain_name es" and "plain_name k" and "p = plain_dir (es @ [k])"
    and "write_atomically p c m = Some ops" and "fs_apply_all ops v = Some u"
    and "path_parent q \<noteq> Some (plain_dir es)"
  shows "map_of u q = map_of v q"
proof -
  have hidden: "plain_name (CHR ''.'' # k @ ''.tmp'')" using hidden_plain [OF assms(2), of "''.tmp''"] by simp
  let ?scratch = "plain_dir (es @ [CHR ''.'' # k @ ''.tmp''])"
  have ops: "ops = WriteFile ?scratch c # (case m of None \<Rightarrow> [] | Some n \<Rightarrow> [SetMode ?scratch n])
      @ [RenameFile ?scratch p]"
    using assms(4) scratch_hidden [OF assms(1,2)] unfolding assms(3) by (auto simp: write_atomically_def)
  have "q \<noteq> ?scratch" "q \<noteq> p"
    using assms(3,6) plain_file(1) [OF assms(1) hidden] plain_file(1) [OF assms(1,2)] by auto
  then show ?thesis
    using assms(5) unfolding ops by (cases m) (auto simp: map_of_written split: if_splits option.splits)
qed

lemma write_atomically_domain:
  assumes "visible p" and "write_atomically p c m = Some ops" and "fs_apply_all ops v = Some u"
    and "map_of u q \<noteq> None"
  shows "q = p \<or> map_of v q \<noteq> None"
proof -
  obtain scratch where ops: "scratch \<noteq> p"
    "ops = WriteFile scratch c # (case m of None \<Rightarrow> [] | Some k \<Rightarrow> [SetMode scratch k]) @ [RenameFile scratch p]"
    using assms(1,2) write_atomically_visible [OF assms(1), of c m] by (metis option.inject)
  then show ?thesis
    using assms(3,4) by (cases m) (auto simp: map_of_written split: if_splits)
qed

lemma keep_previous_steps:
  assumes "history_path path = Some dir" and "visible (kept_path sha256 now path dir (file_text f))"
    and "map_of v path = Some f" and "0 < keep" and "keep_previous sha256 stuck now path keep v = Inr w"
  defines "kept \<equiv> kept_path sha256 now path dir (file_text f)"
  shows "\<exists>u g. w = prune stuck dir keep u \<and> map_of u kept = Some g \<and> file_text g = file_text f \<and>
    file_mode g = file_mode f AND 511 \<and> (\<forall>q. visible q \<longrightarrow> q \<noteq> kept \<longrightarrow> map_of u q = map_of v q) \<and>
    (volume_ok v \<longrightarrow> volume_ok u) \<and> (\<forall>q. map_of u q \<noteq> None \<longrightarrow> q = kept \<or> map_of v q \<noteq> None)"
proof -
  obtain ops u where ops: "write_atomically kept (file_text f) (Some (file_mode f AND 511)) = Some ops"
    "fs_apply_all ops v = Some u" "w = prune stuck dir keep u"
    using assms(1,3-5)
    by (auto simp: kept_def keep_previous_def read_file_def mode_of_file_def Let_def res_simps)
  have "visible kept" using assms(2) unfolding kept_def .
  then obtain u' g where g: "fs_apply_all ops v = Some u'" "map_of u' kept = Some g" "file_text g = file_text f"
    "Some (file_mode f AND 511) = None \<or> Some (file_mode f AND 511) = Some (file_mode g)"
    "\<And>q. visible q \<Longrightarrow> q \<noteq> kept \<Longrightarrow> map_of u' q = map_of v q"
    using write_atomically_done [OF _ ops(1), of v] by blast
  have "u' = u" using g(1) ops(2) by simp
  moreover have "file_mode g = file_mode f AND 511" using g(4) by simp
  moreover have "\<forall>q. map_of u q \<noteq> None \<longrightarrow> q = kept \<or> map_of v q \<noteq> None"
    using write_atomically_domain [OF \<open>visible kept\<close> ops(1,2)] by blast
  ultimately show ?thesis
    using ops(3) g(2,3,5) volume_ok_apply_all [OF ops(2)] by blast
qed

text \<open>C40: keeping the generation a write replaces leaves no more files in the history than the limit and
  those the volume would not remove, and no file of any other directory is touched: not the render itself, not what
  is beside it, hidden or not.\<close>

theorem history_is_bounded:
  assumes "list_all plain_name ds" and "plain_name n"
    and "path = plain_dir (ds @ [n])" and "dir = plain_dir (ds @ [CHR ''.'' # n @ ''.history''])"
    and "volume_ok v" and "keep_previous sha256 stuck now path keep v = Inr w"
  shows "(0 < keep \<and> map_of v path \<noteq> None \<longrightarrow>
      length (files_in dir w) \<le> keep + length (filter stuck (files_in dir w))) \<and>
    (\<forall>q. path_parent q \<noteq> Some dir \<longrightarrow> map_of w q = map_of v q)"
proof (cases "0 < keep \<and> map_of v path \<noteq> None")
  case True
  then obtain f where f: "map_of v path = Some f" by blast
  let ?kept = "kept_path sha256 now path dir (file_text f)"
  note place = kept_place [OF assms(1,2), folded assms(3,4)]
  obtain ops u where ops: "write_atomically ?kept (file_text f) (Some (file_mode f AND 511)) = Some ops"
    "fs_apply_all ops v = Some u" "w = prune stuck dir keep u"
    using place(1) f True assms(6)
    by (auto simp: keep_previous_def read_file_def mode_of_file_def Let_def res_simps)
  have es: "list_all plain_name (ds @ [CHR ''.'' # n @ ''.history''])"
    using assms(1) hidden_plain [OF assms(2), of "''.history''"] by simp
  obtain k where k: "plain_name k" "?kept = plain_dir ((ds @ [CHR ''.'' # n @ ''.history'']) @ [k])"
    using kept_path_plain [OF assms(1,2) es] unfolding assms(3,4) by metis
  have "map_of w q = map_of v q" if "path_parent q \<noteq> Some dir" for q
    using write_atomically_inside [OF es k ops(1,2)] map_of_prune_outside [OF that] that
    unfolding ops(3) assms(4) by metis
  moreover have "volume_ok u" by (rule volume_ok_apply_all [OF ops(2) assms(5)])
  ultimately show ?thesis using prune_length [OF _ ops(3)] by blast
next
  case False
  then have "w = v" using assms(6) by (auto simp: keep_previous_def read_file_def split: if_splits)
  then show ?thesis using False by auto
qed

definition kept_volume :: volume where
  "kept_volume =
     [(''/c/.a.json.history/1-.json'', \<lparr> file_text = ''oldest'', file_mode = 384 \<rparr>),
      (''/c/.a.json.history/2-.json'', \<lparr> file_text = ''older'', file_mode = 384 \<rparr>),
      (''/c/a.json'', \<lparr> file_text = ''old'', file_mode = 384 \<rparr>)]"

lemma example_places:
  "list_all plain_name [''c'']" "plain_name ''a.json''"
  "''/c/a.json'' = plain_dir ([''c''] @ [''a.json''])"
  "''/c/.a.json.history'' = plain_dir ([''c''] @ [CHR ''.'' # ''a.json'' @ ''.history''])"
  by (simp_all add: plain_name_def plain_dir_def)

lemma kept_volume_ok: "volume_ok kept_volume"
  unfolding kept_volume_def volume_ok_def by code_simp

lemma kept_example:
  "\<exists>w. keep_previous (\<lambda>_. []) (\<lambda>_. False) 3 ''/c/a.json'' 2 kept_volume = Inr w"
proof -
  have paths: "history_path ''/c/a.json'' = Some ''/c/.a.json.history''" by code_simp
  have kept: "visible (kept_path (\<lambda>_. []) 3 ''/c/a.json'' ''/c/.a.json.history'' ''old'')"
    using kept_place(2) [OF example_places(1,2), of "\<lambda>_. []" 3 "''old''"] example_places(3,4) by simp
  obtain ops where ops: "write_atomically (kept_path (\<lambda>_. []) 3 ''/c/a.json'' ''/c/.a.json.history'' ''old'')
      ''old'' (Some 384) = Some ops"
    using write_atomically_visible [OF kept] by metis
  obtain u where u: "fs_apply_all ops kept_volume = Some u"
    using write_atomically_done [OF kept ops] by metis
  have "read_file kept_volume ''/c/a.json'' = Some ''old''"
    "mode_of_file kept_volume ''/c/a.json'' = Some 384"
    by (simp_all add: kept_volume_def read_file_def mode_of_file_def)
  then show ?thesis using paths ops u by (simp add: keep_previous_def Let_def)
qed

theorem history_is_bounded_witness:
  "\<exists>w. keep_previous (\<lambda>_. []) (\<lambda>_. False) 3 ''/c/a.json'' 2 kept_volume = Inr w \<and>
     length (files_in ''/c/.a.json.history'' w) \<le> 2"
proof -
  obtain w where w: "keep_previous (\<lambda>_. []) (\<lambda>_. False) 3 ''/c/a.json'' 2 kept_volume = Inr w" using kept_example by blast
  have "map_of kept_volume ''/c/a.json'' \<noteq> None" by (simp add: kept_volume_def)
  then show ?thesis
    using history_is_bounded [OF example_places kept_volume_ok w] w by simp
qed

text \<open>The generation that was just replaced is kept whole, in the mode it had, as long as its name
  is the latest of its directory.\<close>

theorem history_keeps_what_was_replaced:
  assumes "list_all plain_name ds" and "plain_name n" and "path = plain_dir (ds @ [n])"
    and "dir = plain_dir (ds @ [CHR ''.'' # n @ ''.history''])"
    and "volume_ok v" and "0 < keep" and "map_of v path = Some f"
    and "keep_previous sha256 stuck now path keep v = Inr w"
    and "kept = kept_path sha256 now path dir (file_text f)"
    and "\<forall>q g. map_of v q = Some g \<and> path_parent q = Some dir \<longrightarrow> visible q \<and> q \<le> kept"
  shows "map_of w kept = Some \<lparr> file_text = file_text f, file_mode = file_mode f AND 511 \<rparr>"
proof -
  note place = kept_place [OF assms(1,2), folded assms(3,4)]
  from keep_previous_steps [OF place(1) place(2) assms(7,6,8), folded assms(9)] obtain u g where u:
    "w = prune stuck dir keep u" "map_of u kept = Some g" "file_text g = file_text f"
    "file_mode g = file_mode f AND 511"
    "\<forall>q. visible q \<longrightarrow> q \<noteq> kept \<longrightarrow> map_of u q = map_of v q" "volume_ok u"
    "\<forall>q. map_of u q \<noteq> None \<longrightarrow> q = kept \<or> map_of v q \<noteq> None"
    using assms(5) by blast
  have "q \<le> kept" if "q \<in> set (files_in dir u)" for q
  proof -
    have q: "path_parent q = Some dir" "map_of u q \<noteq> None"
      using that by (auto simp: files_in_def map_of_eq_None_iff)
    then show ?thesis using u(7) assms(10) by (metis option.exhaust order_refl)
  qed
  moreover have "distinct (files_in dir u)" using u(6) by (simp add: volume_ok_def files_in_def)
  ultimately have "kept \<notin> set (over_limit keep (files_in dir u))" using assms(6) newest_stays by blast
  then have "map_of w kept = Some g" using u(1,2) by (simp add: prune_def map_of_fold_drop)
  then show ?thesis using u(3,4) by (cases g) simp
qed

theorem history_keeps_what_was_replaced_witness:
  "\<exists>w. keep_previous (\<lambda>_. []) (\<lambda>_. False) 3 ''/c/a.json'' 2 kept_volume = Inr w \<and>
     map_of w ''/c/.a.json.history/3-.json'' = Some \<lparr> file_text = ''old'', file_mode = 384 \<rparr>"
proof -
  obtain w where w: "keep_previous (\<lambda>_. []) (\<lambda>_. False) 3 ''/c/a.json'' 2 kept_volume = Inr w" using kept_example by blast
  have f: "map_of kept_volume ''/c/a.json'' = Some \<lparr> file_text = ''old'', file_mode = 384 \<rparr>"
    by (simp add: kept_volume_def)
  have digest: "short_digest (digest (\<lambda>_. []) ''old'') = []"
    by (simp add: short_digest_def digest_def trim_start_matches.simps starts_with_def)
  have "extension ''/c/a.json'' = Some ''json''" by code_simp
  then have kept: "kept_path (\<lambda>_. []) 3 ''/c/a.json'' ''/c/.a.json.history'' ''old'' = ''/c/.a.json.history/3-.json''"
    using digest by (simp add: kept_path_def path_join_def starts_with_def ends_with_def
        show_radix.simps digit_char_def) code_simp
  have "visible q \<and> q \<le> ''/c/.a.json.history/3-.json''"
    if "map_of kept_volume q = Some g" "path_parent q = Some ''/c/.a.json.history''" for q g
  proof -
    have "path_parent ''/c/a.json'' = Some ''/c''" by code_simp
    then have "q \<in> {''/c/.a.json.history/1-.json'', ''/c/.a.json.history/2-.json''}"
      using that by (auto simp: kept_volume_def split: if_splits)
    moreover have "visible (plain_dir [''c'', ''.a.json.history'', k])"
      if k: "plain_name k" "hd k \<noteq> CHR ''.''" for k
      unfolding visible_def
      by (rule exI [of _ "[''c'', ''.a.json.history'']"], rule exI [of _ k]) (simp add: k plain_name_def [of "''c''"]
          plain_name_def [of "''.a.json.history''"])
    from this [of "''1-.json''"] this [of "''2-.json''"] have
      "visible ''/c/.a.json.history/1-.json''" "visible ''/c/.a.json.history/2-.json''"
      by (simp_all add: plain_name_def plain_dir_def)
    ultimately show ?thesis by auto
  qed
  moreover have "''/c/.a.json.history/3-.json''
      = kept_path (\<lambda>_. []) 3 ''/c/a.json'' ''/c/.a.json.history''
          (file_text \<lparr> file_text = ''old'', file_mode = 384 \<rparr>)" using kept by simp
  ultimately have "map_of w ''/c/.a.json.history/3-.json''
      = Some \<lparr> file_text = file_text \<lparr> file_text = ''old'', file_mode = 384 \<rparr>,
          file_mode = file_mode \<lparr> file_text = ''old'', file_mode = 384 \<rparr> AND 511 \<rparr>"
    using history_keeps_what_was_replaced [OF example_places(1-4) kept_volume_ok _ f w] by simp
  then show ?thesis using w by simp
qed

end
