(* ===== verification/Render.thy ===== *)
theory Render
  imports AgentSpec Files
begin

text \<open>
  From a fetched document to the texts of its files (\<open>render.rs\<close>): the flat dialects, the environment
  entries, and \<open>render_all\<close>, which renders every file of a pod or none. The configuration engine, the
  JSON, TOML and YAML emitters, the template engine and the schema validator are other crates: they
  are fields of \<open>engine\<close>. A failed \<open>expect\<close> is the value \<open>RenderPanic\<close>.
\<close>

text \<open>
  Of the engine's \<open>Fetched\<close>, \<open>Revision\<close> and \<open>Lease\<close> the fields and the text the agent reads: a revision
  is its display and, when the store counts, its number; a lease's life is in nanoseconds.
\<close>

record Revision =
  rv_text :: string
  rv_counter :: "64 word option"

record Lease =
  ls_ttl :: nat
  ls_renewable :: bool

record Fetched =
  ft_text :: string
  ft_format :: string
  ft_revision :: "Revision option"
  ft_lease :: "Lease option"

record engine =
  en_load :: "string \<Rightarrow> string \<Rightarrow> string option \<Rightarrow> string + json"
  en_json :: "json \<Rightarrow> string + string"
  en_toml :: "json \<Rightarrow> string + string"
  en_yaml :: "json \<Rightarrow> string + string"
  en_show :: "json \<Rightarrow> string"
  en_template :: "string \<Rightarrow> json \<Rightarrow> string + string"
  en_read :: "string \<Rightarrow> string option"
  en_schema :: "string + (json \<Rightarrow> (string \<times> string) list)"
  en_max_bytes :: nat

datatype render_error =
    DocumentTooLarge nat nat
  | NotResolved string
  | SchemaBroken string
  | NotValid "(string \<times> string) list"
  | TemplateUnreadable string
  | TemplateError string
  | EmitError string
  | ArrayAt "string list"
  | NotATable
  | InFile string render_error
  | RenderPanic

section \<open>Scalars\<close>

definition strip_sign :: "string \<Rightarrow> string" where
  "strip_sign s = (case s of [] \<Rightarrow> [] | c # cs \<Rightarrow> if c = CHR ''+'' \<or> c = CHR ''-'' then cs else s)"

definition digits :: "string \<Rightarrow> bool" where
  "digits s \<longleftrightarrow> s \<noteq> [] \<and> list_all is_digit s"

definition parses_bool :: "string \<Rightarrow> bool" where
  "parses_bool s \<longleftrightarrow> s = ''true'' \<or> s = ''false''"

definition parses_i64 :: "string \<Rightarrow> bool" where
  "parses_i64 s \<longleftrightarrow>
     (case s of
        CHR ''-'' # t \<Rightarrow> digits t \<and> (case digits_value 10 0 t of Some n \<Rightarrow> n \<le> 2 ^ 63 | None \<Rightarrow> False)
      | _ \<Rightarrow> parse_uint 10 63 s \<noteq> None)"

definition exponent :: "string \<Rightarrow> bool" where
  "exponent s \<longleftrightarrow> (case s of [] \<Rightarrow> True | e # t \<Rightarrow> (e = CHR ''e'' \<or> e = CHR ''E'') \<and> digits (strip_sign t))"

definition float_number :: "string \<Rightarrow> bool" where
  "float_number s =
     (let whole = takeWhile is_digit s; rest = dropWhile is_digit s in
      case rest of
        CHR ''.'' # t \<Rightarrow>
          (whole \<noteq> [] \<or> takeWhile is_digit t \<noteq> []) \<and> exponent (dropWhile is_digit t)
      | _ \<Rightarrow> whole \<noteq> [] \<and> exponent rest)"

definition parses_f64 :: "string \<Rightarrow> bool" where
  "parses_f64 s \<longleftrightarrow>
     (let t = strip_sign s in
      map to_upper t \<in> {''INF'', ''INFINITY'', ''NAN''} \<or> float_number t)"

definition properties_scalar :: "(json \<Rightarrow> string) \<Rightarrow> json \<Rightarrow> string" where
  "properties_scalar show_json v =
     (case v of
        JString text \<Rightarrow>
          replace_char (CHR 0x0A) [CHR 0x5C, CHR ''n'']
            (replace_char (CHR '':'') [CHR 0x5C, CHR '':'']
              (replace_char (CHR ''='') [CHR 0x5C, CHR ''='']
                (replace_char (CHR 0x5C) [CHR 0x5C, CHR 0x5C] text)))
      | _ \<Rightarrow> show_json v)"

definition ini_scalar :: "(json \<Rightarrow> string) \<Rightarrow> json \<Rightarrow> string" where
  "ini_scalar show_json v =
     (case v of
        JString text \<Rightarrow>
          if parses_bool text \<or> parses_i64 text \<or> parses_f64 text \<or> CHR 0x0A \<in> set text
          then [CHR 0x22] @ replace_char (CHR 0x22) [CHR 0x27] text @ [CHR 0x22]
          else text
      | _ \<Rightarrow> show_json v)"

section \<open>Walking a document\<close>

lemma size_field: "kv \<in> set m \<Longrightarrow> size (snd kv :: json) < size (JObject m)"
  by (induction m) (auto simp: less_Suc_eq_le trans_le_add1 trans_le_add2 split: prod.splits)

function walk_env :: "string list \<Rightarrow> json \<Rightarrow> (string list \<times> json) list" where
  "walk_env path (JObject m) = concat (map (\<lambda>kv. walk_env (path @ [fst kv]) (snd kv)) m)"
| "walk_env path JNull = [(path, JNull)]"
| "walk_env path (JBool b) = [(path, JBool b)]"
| "walk_env path (JNum i) = [(path, JNum i)]"
| "walk_env path (JFloat s) = [(path, JFloat s)]"
| "walk_env path (JString s) = [(path, JString s)]"
| "walk_env path (JArray xs) = [(path, JArray xs)]"
  by pat_completeness auto

termination
  by (relation "measure (\<lambda>(path, j). size j)") (auto simp del: json.size dest: size_field)

definition walk_leaf :: "string list \<times> json \<Rightarrow> render_error + (string list \<times> json)" where
  "walk_leaf e = (case snd e of JArray _ \<Rightarrow> Inl (ArrayAt (fst e)) | _ \<Rightarrow> Inr e)"

definition walk :: "string list \<Rightarrow> json \<Rightarrow> render_error + (string list \<times> json) list" where
  "walk path j = rmap walk_leaf (walk_env path j)"

section \<open>The flat dialects\<close>

definition line_of :: "(json \<Rightarrow> string) \<Rightarrow> string list \<times> json \<Rightarrow> string" where
  "line_of scalar e = join ''.'' (fst e) @ '' = '' @ scalar (snd e)"

definition end_lines :: "string list \<Rightarrow> string" where
  "end_lines ls = join newline ls @ newline"

definition flat_properties :: "(json \<Rightarrow> string) \<Rightarrow> json \<Rightarrow> render_error + string" where
  "flat_properties show_json j =
     rbind (walk [] j) (\<lambda>es. Inr (end_lines (map (line_of (properties_scalar show_json)) es)))"

definition ini_section :: "(json \<Rightarrow> string) \<Rightarrow> string \<times> json \<Rightarrow> render_error + string list" where
  "ini_section show_json kv =
     rbind (walk [] (snd kv)) (\<lambda>es.
     Inr ((newline @ ''['' @ fst kv @ '']'') # map (line_of (ini_scalar show_json)) es))"

definition flat_ini :: "(json \<Rightarrow> string) \<Rightarrow> json \<Rightarrow> render_error + string" where
  "flat_ini show_json j =
     (case as_object j of
        None \<Rightarrow> Inl NotATable
      | Some m \<Rightarrow>
          rbind (rmap (ini_section show_json) (filter (\<lambda>kv. is_object (snd kv)) m)) (\<lambda>sections.
          Inr (end_lines
            (map (\<lambda>kv. fst kv @ '' = '' @ ini_scalar show_json (snd kv))
               (filter (\<lambda>kv. \<not> is_object (snd kv)) m)
             @ concat sections))))"

section \<open>Environment entries\<close>

definition entry_value :: "(json \<Rightarrow> string) \<Rightarrow> json \<Rightarrow> string" where
  "entry_value show_json v =
     (case v of JString text \<Rightarrow> text | JNull \<Rightarrow> [] | _ \<Rightarrow> show_json v)"

definition env_char :: "char \<Rightarrow> char" where
  "env_char c = (if is_alnum c then to_upper c else CHR ''_'')"

text \<open>Over characters: a UTF-8 sequence is one character, so one underscore.\<close>

definition continuation :: "char \<Rightarrow> bool" where
  "continuation c \<longleftrightarrow> (let n = (of_char c :: nat) in 128 \<le> n \<and> n < 192)"

definition env_name :: "string list \<Rightarrow> string" where
  "env_name path = map env_char (filter (\<lambda>c. \<not> continuation c) (join ''_'' path))"

definition document_env :: "(json \<Rightarrow> string) \<Rightarrow> json \<Rightarrow> (string \<times> string) list" where
  "document_env show_json j =
     map (\<lambda>e. (env_name (fst e), entry_value show_json (snd e))) (walk_env [] j)"

definition verbatim_entries :: "(json \<Rightarrow> string) \<Rightarrow> json \<Rightarrow> (string \<times> string) list" where
  "verbatim_entries show_json j =
     map (\<lambda>e. (join ''.'' (fst e), entry_value show_json (snd e))) (walk_env [] j)"

section \<open>One file\<close>

definition resolve_document :: "engine \<Rightarrow> Fetched \<Rightarrow> string option \<Rightarrow> render_error + json" where
  "resolve_document en f sec = map_err NotResolved (en_load en (ft_text f) (ft_format f) sec)"

definition emit :: "engine \<Rightarrow> json \<Rightarrow> OutputFormat \<Rightarrow> render_error + string" where
  "emit en j fmt =
     (case fmt of
        FJson \<Rightarrow> rbind (map_err EmitError (en_json en j)) (\<lambda>t. Inr (t @ newline))
      | FToml \<Rightarrow> map_err EmitError (en_toml en j)
      | FYaml \<Rightarrow> map_err EmitError (en_yaml en j)
      | FIni \<Rightarrow> flat_ini (en_show en) j
      | FProperties \<Rightarrow> flat_properties (en_show en) j)"

definition FIRST_FEW :: nat where
  "FIRST_FEW = 5"

definition validate :: "engine \<Rightarrow> json \<Rightarrow> render_error + unit" where
  "validate en j =
     (case en_schema en of
        Inl e \<Rightarrow> Inl (SchemaBroken e)
      | Inr refusals \<Rightarrow>
          if refusals j = [] then Inr ()
          else Inl (NotValid (map (\<lambda>(at, rule). (if at = [] then ''the document'' else at, rule))
                               (take FIRST_FEW (refusals j)))))"

definition check_schema :: "engine \<Rightarrow> 'a settings_scheme \<Rightarrow> json \<Rightarrow> render_error + unit" where
  "check_schema en s j = (if sp_schema s = None then Inr () else validate en j)"

definition emit_as :: "engine \<Rightarrow> json \<Rightarrow> string \<Rightarrow> render_error + string" where
  "emit_as en j out = rbind (ok_or (format_of out) RenderPanic) (emit en j)"

definition render_fetched :: "engine \<Rightarrow> Fetched \<Rightarrow> Spec \<Rightarrow> render_error + string" where
  "render_fetched en f s =
     rbind (resolve_document en f (sp_section s)) (\<lambda>document.
     rbind (check_schema en s document) (\<lambda>_.
     case (sp_template s, sp_template_inline s) of
       (Some path, _) \<Rightarrow>
         rbind (ok_or (en_read en path) (TemplateUnreadable path)) (\<lambda>text.
         map_err TemplateError (en_template en text document))
     | (None, Some text) \<Rightarrow> map_err TemplateError (en_template en text document)
     | (None, None) \<Rightarrow> emit_as en document (sp_out s)))"

section \<open>All the files of a pod\<close>

record Published =
  pb_out :: string
  pb_document :: string
  pb_mode :: "nat option"

definition render_also :: "engine \<Rightarrow> Fetched \<Rightarrow> Spec \<Rightarrow> Rendering \<Rightarrow> render_error + Published" where
  "render_also en f s r =
     rbind (map_err (InFile (rd_out r))
       (rbind (resolve_document en f (rd_section r)) (\<lambda>document.
        rbind (check_schema en s document) (\<lambda>_. Inr document)))) (\<lambda>document.
     rbind (ok_or (format_of (rd_out r)) RenderPanic) (\<lambda>fmt.
     rbind (map_err (InFile (rd_out r)) (emit en document fmt)) (\<lambda>text.
     Inr \<lparr> pb_out = rd_out r, pb_document = text, pb_mode = rd_mode r \<rparr>)))"

definition ceiling :: "engine \<Rightarrow> Spec \<Rightarrow> nat" where
  "ceiling en s = unwrap_or (sp_max_document_bytes s) (en_max_bytes en)"

definition render_all :: "engine \<Rightarrow> Fetched \<Rightarrow> Spec \<Rightarrow> render_error + Published list" where
  "render_all en f s =
     (if length (ft_text f) > ceiling en s
      then Inl (DocumentTooLarge (length (ft_text f)) (ceiling en s))
      else rbind (render_fetched en f s) (\<lambda>text.
           rbind (rmap (render_also en f s) (sp_also s)) (\<lambda>rest.
           Inr (\<lparr> pb_out = sp_out s, pb_document = text, pb_mode = sp_file_mode s \<rparr> # rest))))"


section \<open>Facts about the flat dialects\<close>

lemma walk_env_no_object: "e \<in> set (walk_env path j) \<Longrightarrow> \<not> is_object (snd e)"
  by (induction path j rule: walk_env.induct) (auto simp: is_object_def as_object_def)

lemma walk_iff: "walk path j = Inr es \<longleftrightarrow> es = walk_env path j \<and> (\<forall>e \<in> set es. as_array (snd e) = None)"
proof -
  have leaf: "walk_leaf e = (if as_array (snd e) = None then Inr e else Inl (ArrayAt (fst e)))" for e
    by (auto simp: walk_leaf_def as_array_def split: json.splits)
  have "walk_leaf = (\<lambda>e. if as_array (snd e) = None then Inr e else Inl (ArrayAt (fst e)))"
    using leaf by (rule ext)
  from this show ?thesis unfolding walk_def \<open>walk_leaf = _\<close> rmap_check by blast
qed

lemma flat_properties_no_array:
  "flat_properties show_json j = Inr t \<Longrightarrow> e \<in> set (walk_env [] j) \<Longrightarrow> as_array (snd e) = None"
  by (auto simp: flat_properties_def res_simps walk_iff)

text \<open>The characters of a text that no backslash stands before.\<close>

fun unescaped :: "string \<Rightarrow> char set" where
  "unescaped [] = {}"
| "unescaped [c] = {c}"
| "unescaped (c # d # cs) = (if c = CHR 0x5C then unescaped cs else insert c (unescaped (d # cs)))"

lemma unescaped_plain: "c \<noteq> CHR 0x5C \<Longrightarrow> unescaped (c # cs) = insert c (unescaped cs)"
  by (cases cs) auto

definition escaped :: "char \<Rightarrow> string" where
  "escaped c =
     (if c = CHR 0x5C then [CHR 0x5C, CHR 0x5C]
      else if c = CHR ''='' then [CHR 0x5C, CHR ''='']
      else if c = CHR '':'' then [CHR 0x5C, CHR '':'']
      else if c = CHR 0x0A then [CHR 0x5C, CHR ''n'']
      else [c])"

lemma replace_char_Cons: "replace_char c r (x # s) = (if x = c then r else [x]) @ replace_char c r s"
  by (simp add: replace_char_def)

lemma replace_char_append: "replace_char c r (s @ t) = replace_char c r s @ replace_char c r t"
  by (simp add: replace_char_def)

lemma replace_char_Nil [simp]: "replace_char c r [] = []"
  by (simp add: replace_char_def)

lemma properties_scalar_escaped:
  "properties_scalar show_json (JString s) = concat (map escaped s)"
  by (induction s)
    (auto simp: properties_scalar_def escaped_def replace_char_Cons replace_char_append)

lemma escaped_separators:
  "c \<in> unescaped (concat (map escaped s)) \<Longrightarrow> c \<notin> {CHR ''='', CHR '':'', CHR 0x0A, CHR 0x5C}"
proof (induction s)
  case (Cons x s)
  then show ?case
    by (cases "x = CHR 0x5C \<or> x = CHR ''='' \<or> x = CHR '':'' \<or> x = CHR 0x0A")
      (auto simp: escaped_def unescaped_plain)
qed simp

lemma escaped_first: "escaped x @ a = escaped y @ b \<Longrightarrow> x = y \<and> a = b"
  by (auto simp: escaped_def split: if_splits)

lemma escaped_inj: "concat (map escaped s) = concat (map escaped t) \<Longrightarrow> s = t"
proof (induction s arbitrary: t)
  case Nil
  then show ?case by (cases t) (auto simp: escaped_def split: if_splits)
next
  case (Cons x s)
  from Cons.prems obtain y u where t: "t = y # u" by (cases t) (auto simp: escaped_def split: if_splits)
  have "x = y \<and> concat (map escaped s) = concat (map escaped u)"
    using Cons.prems unfolding t by (intro escaped_first) simp
  then show ?case using Cons.IH t by blast
qed

lemma properties_scalar_inj:
  "properties_scalar show_json (JString s) = properties_scalar show_json (JString t) \<Longrightarrow> s = t"
  using escaped_inj by (metis properties_scalar_escaped)

lemma newline_eq: "newline = [CHR 0x0A]"
  by code_simp

lemma split_joined_lines:
  "ls \<noteq> [] \<Longrightarrow> list_all (\<lambda>l. CHR 0x0A \<notin> set l) ls \<Longrightarrow> split_on (CHR 0x0A) (end_lines ls) = ls @ [[]]"
proof (induction ls)
  case (Cons l ls)
  show ?case
  proof (cases ls)
    case Nil
    then show ?thesis using Cons.prems split_on_append [of "CHR 0x0A" l "[]"] by (simp add: end_lines_def newline_eq)
  next
    case (Cons m ms)
    then have "end_lines (l # ls) = l @ CHR 0x0A # end_lines ls" by (simp add: end_lines_def newline_eq)
    then show ?thesis using Cons.IH Cons.prems split_on_append [of "CHR 0x0A" l "end_lines ls"] Cons by simp
  qed
qed simp

lemma join_plain: "c \<notin> set sep \<Longrightarrow> list_all (\<lambda>k. c \<notin> set k) ks \<Longrightarrow> c \<notin> set (join sep ks)"
  by (induction sep ks rule: join.induct) auto



text \<open>
  White space at the front of a value and a carriage return are written as they are, where a reader of the format
  drops the one and ends the line at the other; and no key is escaped, so one with a separator ends at it.
\<close>

lemma properties_left_unescaped:
  "flat_properties show_json (JObject [(''a=b'', JString ('' x'' @ [CHR 0x0D] @ ''y''))])
     = Inr (''a=b =  x'' @ [CHR 0x0D] @ ''y'' @ newline)"
  by (simp add: flat_properties_def walk_def walk_leaf_def end_lines_def line_of_def properties_scalar_escaped escaped_def)

text \<open>An array at the root of an INI document is not refused, though the same array deeper is.\<close>

lemma ini_root_array_emitted:
  "flat_ini show_json (JObject [(''hosts'', JArray [JString ''a''])])
     = Inr (end_lines [''hosts = '' @ show_json (JArray [JString ''a''])])"
  "flat_ini show_json (JObject [(''db'', JObject [(''hosts'', JArray [JString ''a''])])])
     = Inl (ArrayAt [''hosts''])"
  by (simp_all add: flat_ini_def is_object_def as_object_def ini_scalar_def ini_section_def walk_def
      walk_leaf_def)

section \<open>Environment entries\<close>

lemma env_char_shape: "is_upper (env_char c) \<or> is_digit (env_char c) \<or> env_char c = CHR ''_''"
proof (cases "is_lower c")
  case True
  then have "97 \<le> (of_char c :: nat)" "(of_char c :: nat) \<le> 122" by (auto simp: is_lower_def Let_def)
  then have "65 \<le> (of_char c :: nat) - 32" "(of_char c :: nat) - 32 \<le> 90" by linarith+
  then have "is_upper (to_upper c)"
    using True by (simp add: is_upper_def to_upper_def Let_def take_bit_eq_mod)
  then show ?thesis by (simp add: env_char_def)
next
  case False
  then show ?thesis by (auto simp: env_char_def is_alnum_def to_upper_def)
qed

text \<open>The names a document gives an environment are variable names, one for each leaf, and a string
  keeps its text.\<close>

theorem environment_names_are_variables:
  "(\<forall>e \<in> set (document_env show_json j). list_all upper_snake (fst e)) \<and>
   length (document_env show_json j) = length (walk_env [] j) \<and>
   (\<forall>path s. (path, JString s) \<in> set (walk_env [] j) \<longrightarrow> (env_name path, s) \<in> set (document_env show_json j))"
proof -
  have "list_all upper_snake (env_name path)" for path
    using env_char_shape by (auto simp: env_name_def list_all_iff upper_snake_def)
  moreover have "(env_name path, s) \<in> set (document_env show_json j)"
    if "(path, JString s) \<in> set (walk_env [] j)" for path s
    using image_eqI [OF _ that, of "(env_name path, s)"
        "\<lambda>e. (env_name (fst e), entry_value show_json (snd e))"]
    by (simp add: document_env_def entry_value_def)
  ultimately show ?thesis by (auto simp: document_env_def)
qed

definition nested_and_flat :: json where
  "nested_and_flat = JObject [(''a'', JObject [(''b'', JString ''x'')]), (''a_b'', JString ''y'')]"

theorem environment_names_are_variables_witness:
  "(''A_B'', ''x'') \<in> set (document_env (\<lambda>_. []) nested_and_flat)"
proof -
  have "(([''a'', ''b'']), JString ''x'') \<in> set (walk_env [] nested_and_flat)"
    by (simp add: nested_and_flat_def)
  moreover have "env_name [''a'', ''b''] = ''A_B''" by code_simp
  ultimately show ?thesis
    using environment_names_are_variables [of "\<lambda>_. []" nested_and_flat] by metis
qed

text \<open>Distinct leaves can share a name; whoever collects the entries by name keeps one of them.\<close>

lemma environment_names_collide:
  "document_env show_json nested_and_flat = [(''A_B'', ''x''), (''A_B'', ''y'')]"
proof -
  have "env_name [''a'', ''b''] = ''A_B''" "env_name [''a_b''] = ''A_B''" by code_simp+
  then show ?thesis by (simp add: document_env_def nested_and_flat_def entry_value_def)
qed

section \<open>A concrete engine\<close>

definition quiet_engine :: engine where
  "quiet_engine = \<lparr> en_load = (\<lambda>t fmt sec. Inr (JObject [(''k'', JString t)])),
     en_json = (\<lambda>j. Inr ''{}''), en_toml = (\<lambda>j. Inl ''no''), en_yaml = (\<lambda>j. Inr ''k: v''),
     en_show = (\<lambda>j. ''null''), en_template = (\<lambda>t j. Inr t), en_read = (\<lambda>p. None),
     en_schema = Inr (\<lambda>j. []), en_max_bytes = 1024 \<rparr>"

definition quiet_spec :: Spec where
  "quiet_spec = settings.extend (settings.truncate ((initial_draft (\<lambda>_. None)) \<lparr> sp_schema := Some ''/s.json'' \<rparr>))
     (Spec.fields ''consul'' ''http://c'' ''k'' ''/c/a.json''
       [\<lparr> rd_out = ''/c/b.yml'', rd_section = Some ''x'', rd_mode = Some 384 \<rparr>])"

definition quiet_fetched :: Fetched where
  "quiet_fetched = \<lparr> ft_text = ''v'', ft_format = ''json'', ft_revision = None, ft_lease = None \<rparr>"

lemma quiet_rendered:
  "\<exists>ps. render_all quiet_engine quiet_fetched quiet_spec = Inr ps"
  "sp_schema quiet_spec = Some ''/s.json''" "sp_section quiet_spec = None"
  "map rd_section (sp_also quiet_spec) = [Some ''x'']" "map rd_mode (sp_also quiet_spec) = [Some 384]"
proof -
  have fmts: "format_of ''/c/a.json'' = Some FJson" "format_of ''/c/b.yml'' = Some FYaml" by code_simp+
  show "\<exists>ps. render_all quiet_engine quiet_fetched quiet_spec = Inr ps"
    by (simp add: render_all_def quiet_engine_def quiet_fetched_def quiet_spec_def ceiling_def
        render_fetched_def render_also_def resolve_document_def check_schema_def validate_def emit_as_def
        emit_def fmts settings.defs Spec.defs initial_draft_def)
qed (simp_all add: quiet_spec_def settings.defs Spec.defs initial_draft_def)

section \<open>All or none\<close>

lemma render_also_eq_Inr:
  assumes "render_also en f s r = Inr p"
  shows "pb_out p = rd_out r" and "pb_mode p = rd_mode r"
    and "\<exists>document. resolve_document en f (rd_section r) = Inr document \<and> check_schema en s document = Inr ()"
  using assms by (auto simp: render_also_def res_simps)

lemma render_alsos:
  "rmap (render_also en f s) rs = Inr ps \<Longrightarrow> map pb_out ps = map rd_out rs \<and> map pb_mode ps = map rd_mode rs"
  by (induction rs arbitrary: ps) (auto simp: res_simps render_also_eq_Inr)

lemma render_all_eq_Inr:
  assumes "render_all en f s = Inr ps"
  obtains main rest where "ps = \<lparr> pb_out = sp_out s, pb_document = main, pb_mode = sp_file_mode s \<rparr> # rest"
    and "render_fetched en f s = Inr main" and "rmap (render_also en f s) (sp_also s) = Inr rest"
    and "length (ft_text f) \<le> ceiling en s"
  using assms by (auto simp: render_all_def res_simps split: if_splits)

text \<open>A document is rendered to all its files or to none: what is published is the main file and
  every further one, in order, each with its permissions, from a document within the ceiling.\<close>

theorem renders_all_files_or_none:
  assumes "render_all en f s = Inr ps"
  shows "map pb_out ps = sp_out s # map rd_out (sp_also s) \<and>
    map pb_mode ps = sp_file_mode s # map rd_mode (sp_also s) \<and>
    length (ft_text f) \<le> unwrap_or (sp_max_document_bytes s) (en_max_bytes en)"
  using assms by (auto elim!: render_all_eq_Inr dest!: render_alsos simp: ceiling_def)

theorem renders_all_files_or_none_witness:
  "\<exists>ps. render_all quiet_engine quiet_fetched quiet_spec = Inr ps \<and> map pb_mode ps = [None, Some 384]"
proof -
  obtain ps where "render_all quiet_engine quiet_fetched quiet_spec = Inr ps" using quiet_rendered(1) by blast
  moreover from this have "map pb_mode ps = sp_file_mode quiet_spec # map rd_mode (sp_also quiet_spec)"
    by (simp only: renders_all_files_or_none)
  ultimately show ?thesis
    using quiet_rendered(5) by (auto simp: quiet_spec_def settings.defs Spec.defs initial_draft_def)
qed



section \<open>No panic\<close>

lemma rmap_Inl: "rmap f xs = Inl e \<Longrightarrow> \<exists>x \<in> set xs. f x = Inl e"
  by (induction xs) (auto simp: res_simps)

lemma map_err_eq_Inl: "map_err f m = Inl e \<longleftrightarrow> (\<exists>d. m = Inl d \<and> e = f d)"
  by (cases m) auto

lemma walk_error: "walk path j = Inl e \<Longrightarrow> \<exists>p. e = ArrayAt p"
  unfolding walk_def by (auto simp: walk_leaf_def split: json.splits dest!: rmap_Inl)

lemma emit_no_panic: "emit en j fmt \<noteq> Inl RenderPanic"
  by (cases fmt)
    (auto simp: emit_def flat_ini_def ini_section_def flat_properties_def res_simps map_err_eq_Inl
      split: option.splits dest!: rmap_Inl walk_error)

lemma render_also_no_panic: "format_of (rd_out r) \<noteq> None \<Longrightarrow> render_also en f s r \<noteq> Inl RenderPanic"
  by (auto simp: render_also_def res_simps map_err_eq_Inl)

lemma check_schema_no_panic: "check_schema en s j \<noteq> Inl RenderPanic"
  by (auto simp: check_schema_def validate_def split: sum.splits)

lemma render_fetched_no_panic:
  assumes "templated s \<or> format_of (sp_out s) \<noteq> None"
  shows "render_fetched en f s \<noteq> Inl RenderPanic"
  using assms check_schema_no_panic emit_no_panic
  by (auto simp: render_fetched_def resolve_document_def templated_def emit_as_def res_simps
      map_err_eq_Inl split: option.splits)

text \<open>C35: an agent started from its command line never panics while rendering: the formats it
  expects were checked when it started.\<close>

theorem started_agent_never_panics:
  assumes "from_args env arguments = Inr s"
  shows "render_all en f s \<noteq> Inl RenderPanic"
proof -
  have ok: "spec_ok s" using assms by (rule from_args_sound)
  then have "render_fetched en f s \<noteq> Inl RenderPanic"
    by (intro render_fetched_no_panic) (simp add: spec_ok_def)
  moreover have "rmap (render_also en f s) (sp_also s) \<noteq> Inl RenderPanic"
    using ok render_also_no_panic by (fastforce simp: spec_ok_def list_all_iff dest: rmap_Inl)
  ultimately show ?thesis
    by (cases "render_fetched en f s"; cases "rmap (render_also en f s) (sp_also s)") (simp_all add: render_all_def)
qed

theorem started_agent_never_panics_witness:
  "\<exists>s. from_args (\<lambda>_. None) example_line = Inr s \<and>
     render_all quiet_engine quiet_fetched s \<noteq> Inl RenderPanic"
  using example_line_read started_agent_never_panics by blast

end
