(* ===== verification/Metrics.thy ===== *)
theory Metrics
  imports Files
begin

text \<open>
  The agent's counters, its readiness and the endpoint that serves them (\<open>metrics.rs\<close>). The atomics are
  64-bit words and wrap; each operation is one step on the whole record, and the clock, in seconds
  since the epoch, is an argument. The locks of the two fingerprints are never poisoned: no code
  panics while it holds one.
\<close>

unbundle bit_operations_syntax

type_synonym u64 = "64 word"

record metrics =
  mt_renders :: u64
  mt_render_failures :: u64
  mt_last_render :: u64
  mt_deliveries :: u64
  mt_resyncs :: u64
  mt_watch_connected :: u64
  mt_watch_reconnects :: u64
  mt_last_success :: u64
  mt_lease_renewals :: u64
  mt_lease_renewal_failures :: u64
  mt_lease_revocations :: u64
  mt_lease_ttl :: u64
  mt_absent_total :: u64
  mt_notifications :: u64
  mt_notification_failures :: u64
  mt_drift :: u64
  mt_drift_total :: u64
  mt_rendered_fingerprint :: string
  mt_applied_fingerprint :: string
  mt_applied_timestamp :: u64
  mt_acks :: u64
  mt_ack_mismatches :: u64
  mt_canary_holding :: u64
  mt_canary_percent :: u64
  mt_tls_reloads :: u64
  mt_tls_verification_skipped :: u64
  mt_absent :: u64
  mt_generation :: u64
  mt_max_staleness :: u64
  mt_reconciles :: u64
  mt_reconcile_failures :: u64
  mt_reconcile_millis :: u64
  mt_buckets :: "u64 list"

definition no_metrics :: metrics where
  "no_metrics =
     \<lparr> mt_renders = 0, mt_render_failures = 0, mt_last_render = 0, mt_deliveries = 0, mt_resyncs = 0,
       mt_watch_connected = 0, mt_watch_reconnects = 0, mt_last_success = 0, mt_lease_renewals = 0,
       mt_lease_renewal_failures = 0, mt_lease_revocations = 0, mt_lease_ttl = 0, mt_absent_total = 0,
       mt_notifications = 0, mt_notification_failures = 0, mt_drift = 0, mt_drift_total = 0,
       mt_rendered_fingerprint = [], mt_applied_fingerprint = [], mt_applied_timestamp = 0,
       mt_acks = 0, mt_ack_mismatches = 0, mt_canary_holding = 0, mt_canary_percent = 100,
       mt_tls_reloads = 0, mt_tls_verification_skipped = 0, mt_absent = 0, mt_generation = 0,
       mt_max_staleness = 0, mt_reconciles = 0, mt_reconcile_failures = 0, mt_reconcile_millis = 0,
       mt_buckets = replicate 8 0 \<rparr>"

section \<open>What moves them\<close>

definition delivered :: "u64 \<Rightarrow> metrics \<Rightarrow> metrics" where
  "delivered now m = m \<lparr> mt_deliveries := mt_deliveries m + 1, mt_last_success := now \<rparr>"

definition resynced :: "u64 \<Rightarrow> metrics \<Rightarrow> metrics" where
  "resynced now m = m \<lparr> mt_resyncs := mt_resyncs m + 1, mt_last_success := now \<rparr>"

definition watch_up :: "metrics \<Rightarrow> metrics" where
  "watch_up m = m \<lparr> mt_watch_connected := 1 \<rparr>"

definition watch_down :: "metrics \<Rightarrow> metrics" where
  "watch_down m = m \<lparr> mt_watch_connected := 0, mt_watch_reconnects := mt_watch_reconnects m + 1 \<rparr>"

definition lease_renewed :: "u64 \<Rightarrow> metrics \<Rightarrow> metrics" where
  "lease_renewed seconds m =
     m \<lparr> mt_lease_renewals := mt_lease_renewals m + 1, mt_lease_ttl := seconds \<rparr>"

definition lease_renewal_failed :: "metrics \<Rightarrow> metrics" where
  "lease_renewal_failed m = m \<lparr> mt_lease_renewal_failures := mt_lease_renewal_failures m + 1 \<rparr>"

definition lease_revoked :: "metrics \<Rightarrow> metrics" where
  "lease_revoked m = m \<lparr> mt_lease_revocations := mt_lease_revocations m + 1 \<rparr>"

definition lease_held :: "u64 \<Rightarrow> metrics \<Rightarrow> metrics" where
  "lease_held seconds m = m \<lparr> mt_lease_ttl := seconds \<rparr>"

definition rendered :: "u64 \<Rightarrow> metrics \<Rightarrow> metrics" where
  "rendered now m = m \<lparr> mt_absent := 0, mt_renders := mt_renders m + 1, mt_last_render := now \<rparr>"

definition failed :: "metrics \<Rightarrow> metrics" where
  "failed m = m \<lparr> mt_render_failures := mt_render_failures m + 1 \<rparr>"

definition absent :: "metrics \<Rightarrow> metrics" where
  "absent m = m \<lparr> mt_absent_total := mt_absent_total m + 1, mt_absent := 1 \<rparr>"

definition generation :: "u64 option \<Rightarrow> metrics \<Rightarrow> metrics" where
  "generation counter m = (case counter of None \<Rightarrow> m | Some n \<Rightarrow> m \<lparr> mt_generation := n \<rparr>)"

definition notified :: "metrics \<Rightarrow> metrics" where
  "notified m = m \<lparr> mt_notifications := mt_notifications m + 1 \<rparr>"

definition notification_failed :: "metrics \<Rightarrow> metrics" where
  "notification_failed m = m \<lparr> mt_notification_failures := mt_notification_failures m + 1 \<rparr>"

definition published :: "string \<Rightarrow> metrics \<Rightarrow> metrics" where
  "published fingerprint m = m \<lparr> mt_rendered_fingerprint := fingerprint \<rparr>"

definition canary_holding :: "nat option \<Rightarrow> metrics \<Rightarrow> metrics" where
  "canary_holding percent m =
     m \<lparr> mt_canary_holding := 1, mt_canary_percent := of_nat (unwrap_or percent 100) \<rparr>"

definition canary_admitted :: "nat option \<Rightarrow> metrics \<Rightarrow> metrics" where
  "canary_admitted percent m =
     m \<lparr> mt_canary_holding := 0, mt_canary_percent := of_nat (unwrap_or percent 100) \<rparr>"

definition tls_reloaded :: "metrics \<Rightarrow> metrics" where
  "tls_reloaded m = m \<lparr> mt_tls_reloads := mt_tls_reloads m + 1 \<rparr>"

definition mt_drifted :: "metrics \<Rightarrow> metrics" where
  "mt_drifted m = m \<lparr> mt_drift_total := mt_drift_total m + 1, mt_drift := 1 \<rparr>"

definition undrifted :: "metrics \<Rightarrow> metrics" where
  "undrifted m = m \<lparr> mt_drift := 0 \<rparr>"

definition set_max_staleness :: "u64 \<Rightarrow> metrics \<Rightarrow> metrics" where
  "set_max_staleness seconds m = m \<lparr> mt_max_staleness := seconds \<rparr>"

section \<open>Reconciles\<close>

definition bucket_millis :: "u64 list" where
  "bucket_millis = [10, 50, 100, 500, 1000, 5000, 15000, 60000]"

text \<open>The elapsed time is a count of whole milliseconds, of up to 128 bits.\<close>

definition clamp_millis :: "nat \<Rightarrow> u64" where
  "clamp_millis elapsed = (if elapsed < 2 ^ 64 then of_nat elapsed else - 1)"

definition count_bucket :: "u64 \<Rightarrow> u64 \<Rightarrow> u64 \<Rightarrow> u64" where
  "count_bucket millis bucket most = (if millis \<le> most then bucket + 1 else bucket)"

definition reconciled :: "nat \<Rightarrow> metrics \<Rightarrow> metrics" where
  "reconciled elapsed m =
     (let millis = clamp_millis elapsed in
      m \<lparr> mt_reconciles := mt_reconciles m + 1,
          mt_reconcile_millis := mt_reconcile_millis m + millis,
          mt_buckets := map2 (count_bucket millis) (mt_buckets m) bucket_millis \<rparr>)"

definition reconcile_failed :: "metrics \<Rightarrow> metrics" where
  "reconcile_failed m = m \<lparr> mt_reconcile_failures := mt_reconcile_failures m + 1 \<rparr>"

section \<open>A wait, spread\<close>

text \<open>
  A duration is its nanoseconds, at most \<open>DURATION_MAX\<close>; \<open>entropy\<close> is the static the draws leave
  behind, zero before the first.
\<close>

definition DURATION_MAX :: nat where
  "DURATION_MAX = 2 ^ 64 * 1000000000 - 1"

definition next_entropy :: "u64 \<Rightarrow> u64 \<Rightarrow> u64" where
  "next_entropy now previous =
     (if previous = 0 then now else previous) * 6364136223846793005 + 1442695040888963407"

definition spread_offset :: "nat \<Rightarrow> u64 \<Rightarrow> nat" where
  "spread_offset base draw =
     (let quarter = base div 4;
          product = quarter * unat (drop_bit 33 draw AND 0xFF) in
      (if product \<le> DURATION_MAX then product else quarter) div 255)"

definition spread :: "u64 \<Rightarrow> nat \<Rightarrow> u64 \<Rightarrow> nat \<times> u64" where
  "spread now base previous =
     (let draw = next_entropy now previous; offset = spread_offset base draw in
      (if draw AND 1 = 0 then min (base + offset) DURATION_MAX else base - offset, draw))"

section \<open>Readiness\<close>

definition staleness :: "u64 \<Rightarrow> metrics \<Rightarrow> u64" where
  "staleness now m =
     (if mt_last_success m = 0 \<or> now \<le> mt_last_success m then 0 else now - mt_last_success m)"

definition rendered_at_least_once :: "u64 \<Rightarrow> metrics \<Rightarrow> bool" where
  "rendered_at_least_once now m \<longleftrightarrow>
     mt_renders m \<noteq> 0 \<and> (mt_max_staleness m = 0 \<or> staleness now m \<le> mt_max_staleness m)"

definition acknowledged :: "u64 \<Rightarrow> string \<Rightarrow> metrics \<Rightarrow> bool \<times> metrics" where
  "acknowledged now fingerprint m =
     (let matches = mt_rendered_fingerprint m = fingerprint;
          m1 = m \<lparr> mt_acks := mt_acks m + 1, mt_applied_timestamp := now,
                   mt_applied_fingerprint := fingerprint \<rparr> in
      (matches,
       if matches then m1 else m1 \<lparr> mt_ack_mismatches := mt_ack_mismatches m1 + 1 \<rparr>))"

definition applied :: "metrics \<Rightarrow> bool" where
  "applied m \<longleftrightarrow>
     mt_rendered_fingerprint m \<noteq> [] \<and> mt_rendered_fingerprint m = mt_applied_fingerprint m"

definition unapplied_seconds :: "u64 \<Rightarrow> metrics \<Rightarrow> u64" where
  "unapplied_seconds now m =
     (if applied m \<or> mt_last_render m = 0 \<or> now \<le> mt_last_render m then 0
      else now - mt_last_render m)"

definition rendered_and_applied :: "u64 \<Rightarrow> metrics \<Rightarrow> bool" where
  "rendered_and_applied now m \<longleftrightarrow> rendered_at_least_once now m \<and> applied m"

definition always :: "u64 \<Rightarrow> metrics \<Rightarrow> bool" where
  "always now m \<longleftrightarrow> True"

section \<open>The exposition\<close>

definition show_u64 :: "u64 \<Rightarrow> string" where
  "show_u64 w = show_nat (unat w)"

text \<open>
  The display of \<open>n as f64 / 1000.0\<close>, exact while \<open>n\<close> has at most fifteen digits: the decimals of the
  quotient without the zeros at its end.
\<close>

definition thousandths :: "nat \<Rightarrow> string" where
  "thousandths r = rev (dropWhile (\<lambda>c. c = CHR ''0'')
     (rev [digit_char (r div 100), digit_char (r div 10 mod 10), digit_char (r mod 10)]))"

definition show_seconds :: "u64 \<Rightarrow> string" where
  "show_seconds millis =
     (let n = unat millis in
      show_nat (n div 1000) @ (if n mod 1000 = 0 then [] else ''.'' @ thousandths (n mod 1000)))"

definition sample_lines :: "string \<Rightarrow> string \<times> string \<times> u64 \<Rightarrow> string" where
  "sample_lines prefix s =
     (case s of (name, kind, v) \<Rightarrow>
        ''# TYPE '' @ prefix @ name @ '' '' @ kind @ newline @ prefix @ name @ '' '' @ show_u64 v @ newline)"

definition bucket_line :: "string \<Rightarrow> u64 \<Rightarrow> u64 \<Rightarrow> string" where
  "bucket_line prefix most cumulative =
     prefix @ ''_reconcile_duration_seconds_bucket{le='' @ [CHR 0x22] @ show_seconds most @ [CHR 0x22]
       @ ''} '' @ show_u64 cumulative @ newline"

fun bucket_lines :: "string \<Rightarrow> u64 \<Rightarrow> (u64 \<times> u64) list \<Rightarrow> string" where
  "bucket_lines prefix cumulative [] = []"
| "bucket_lines prefix cumulative ((bucket, most) # rest) =
     (let c = max cumulative bucket in bucket_line prefix most c @ bucket_lines prefix c rest)"

definition histogram :: "string \<Rightarrow> metrics \<Rightarrow> string" where
  "histogram prefix m =
     (let count = show_u64 (mt_reconciles m) in
      ''# TYPE '' @ prefix @ ''_reconcile_duration_seconds histogram'' @ newline
      @ bucket_lines prefix 0 (zip (mt_buckets m) bucket_millis)
      @ prefix @ ''_reconcile_duration_seconds_bucket{le='' @ [CHR 0x22] @ ''+Inf'' @ [CHR 0x22] @ ''} ''
      @ count @ newline
      @ prefix @ ''_reconcile_duration_seconds_sum '' @ show_seconds (mt_reconcile_millis m) @ newline
      @ prefix @ ''_reconcile_duration_seconds_count '' @ count @ newline
      @ sample_lines prefix (''_reconcile_failures_total'', ''counter'', mt_reconcile_failures m))"

definition samples :: "u64 \<Rightarrow> metrics \<Rightarrow> (string \<times> string \<times> u64) list" where
  "samples now m =
     [(''_renders_total'', ''counter'', mt_renders m),
      (''_render_failures_total'', ''counter'', mt_render_failures m),
      (''_last_render_timestamp_seconds'', ''gauge'', mt_last_render m),
      (''_deliveries_total'', ''counter'', mt_deliveries m),
      (''_resyncs_total'', ''counter'', mt_resyncs m),
      (''_watch_connected'', ''gauge'', mt_watch_connected m),
      (''_watch_reconnects_total'', ''counter'', mt_watch_reconnects m),
      (''_staleness_seconds'', ''gauge'', staleness now m),
      (''_lease_renewals_total'', ''counter'', mt_lease_renewals m),
      (''_lease_renewal_failures_total'', ''counter'', mt_lease_renewal_failures m),
      (''_lease_revocations_total'', ''counter'', mt_lease_revocations m),
      (''_lease_ttl_seconds'', ''gauge'', mt_lease_ttl m),
      (''_generation'', ''gauge'', mt_generation m),
      (''_notifications_total'', ''counter'', mt_notifications m),
      (''_notification_failures_total'', ''counter'', mt_notification_failures m),
      (''_drift'', ''gauge'', mt_drift m),
      (''_drift_total'', ''counter'', mt_drift_total m),
      (''_canary_holding'', ''gauge'', mt_canary_holding m),
      (''_canary_percent'', ''gauge'', mt_canary_percent m),
      (''_acks_total'', ''counter'', mt_acks m),
      (''_ack_mismatches_total'', ''counter'', mt_ack_mismatches m),
      (''_applied'', ''gauge'', if applied m then 1 else 0),
      (''_unapplied_seconds'', ''gauge'', unapplied_seconds now m),
      (''_tls_reloads_total'', ''counter'', mt_tls_reloads m),
      (''_tls_verification_skipped'', ''gauge'', mt_tls_verification_skipped m),
      (''_absent'', ''gauge'', mt_absent m),
      (''_absent_total'', ''counter'', mt_absent_total m)]"

definition exposition :: "string \<Rightarrow> u64 \<Rightarrow> metrics \<Rightarrow> string" where
  "exposition prefix now m = concat (map (sample_lines prefix) (samples now m)) @ histogram prefix m"

section \<open>The endpoint\<close>

definition crlf :: string where
  "crlf = [CHR 0x0D, CHR 0x0A]"

definition request_body :: "string \<Rightarrow> string" where
  "request_body request =
     (case find_sub (crlf @ crlf) request of
        None \<Rightarrow> []
      | Some n \<Rightarrow> trim (drop (n + 4) request))"

text \<open>The status, the body, and the counters after: what one connection's request is answered.\<close>

definition answer :: "string \<Rightarrow> (u64 \<Rightarrow> metrics \<Rightarrow> bool) \<Rightarrow> u64 \<Rightarrow> string \<Rightarrow> metrics
    \<Rightarrow> (string \<times> string) \<times> metrics" where
  "answer prefix ready now request m =
     (if starts_with ''POST /applied'' request then
        (let fingerprint = request_body request in
         if fingerprint = [] then
           ((''400 Bad Request'', ''the body is the fingerprint this application is running'' @ newline), m)
         else
           (case acknowledged now fingerprint m of
              (True, m1) \<Rightarrow> ((''200 OK'', ''current'' @ newline), m1)
            | (False, m1) \<Rightarrow>
                ((''409 Conflict'', ''a different document is published: '' @ mt_rendered_fingerprint m1 @ newline), m1)))
      else if starts_with ''GET /healthz'' request then ((''200 OK'', ''ok'' @ newline), m)
      else if starts_with ''GET /readyz'' request then
        (if ready now m then ((''200 OK'', ''ok'' @ newline), m)
         else ((''503 Service Unavailable'', ''no configuration rendered'' @ newline), m))
      else ((''200 OK'', exposition prefix now m), m))"

definition respond :: "string \<Rightarrow> (u64 \<Rightarrow> metrics \<Rightarrow> bool) \<Rightarrow> u64 \<Rightarrow> string \<Rightarrow> metrics
    \<Rightarrow> string \<times> metrics" where
  "respond prefix ready now request m =
     (case answer prefix ready now (take 1024 request) m of
        ((status, body), m1) \<Rightarrow>
          (''HTTP/1.1 '' @ status @ crlf @ ''content-type: text/plain; version=0.0.4'' @ crlf
           @ ''content-length: '' @ show_nat (length body) @ crlf @ ''connection: close'' @ crlf @ crlf
           @ body, m1))"

section \<open>Facts\<close>

lemma unat_and_255: "unat (w AND 0xFF :: u64) \<le> 255"
proof -
  have "w AND 0xFF \<le> 0xFF" by (rule word_and_le1)
  then show ?thesis by (simp add: word_le_nat_alt)
qed

lemma spread_offset_le: "spread_offset base draw \<le> base div 4"
proof -
  define k where "k = unat (drop_bit 33 draw AND 0xFF)"
  have "k \<le> 255" unfolding k_def by (rule unat_and_255)
  then have "base div 4 * k \<le> base div 4 * 255" by (rule mult_le_mono2)
  then have "base div 4 * k div 255 \<le> base div 4" by linarith
  then show ?thesis by (auto simp: spread_offset_def Let_def k_def [symmetric])
qed

text \<open>A spread wait stays within a quarter of the wait that was asked for, on either side, and
  never overflows, whatever the clock and the draws before it.\<close>

theorem spread_stays_within_a_quarter:
  assumes "base \<le> DURATION_MAX"
  shows "base - base div 4 \<le> fst (spread now base previous) \<and>
    fst (spread now base previous) \<le> base + base div 4 \<and> fst (spread now base previous) \<le> DURATION_MAX"
  using assms spread_offset_le [of base "next_entropy now previous"]
  by (auto simp: spread_def Let_def)

theorem spread_stays_within_a_quarter_witness:
  "fst (spread 0 DURATION_MAX 7) \<le> DURATION_MAX"
  using spread_stays_within_a_quarter [of DURATION_MAX 0 7] by simp

text \<open>The histogram after a run of reconciles.\<close>

lemma buckets_after:
  "mt_buckets m = map (\<lambda>c. of_nat (f c)) bucket_millis \<Longrightarrow>
   mt_buckets (reconciled d m)
     = map (\<lambda>c. of_nat (f c + (if clamp_millis d \<le> c then 1 else 0))) bucket_millis"
  by (auto simp: reconciled_def Let_def count_bucket_def bucket_millis_def)

lemma histogram_counts:
  "mt_buckets (fold reconciled ds no_metrics)
     = map (\<lambda>c. of_nat (length (filter (\<lambda>d. clamp_millis d \<le> c) ds))) bucket_millis"
  "mt_reconciles (fold reconciled ds no_metrics) = of_nat (length ds)"
proof (induction ds rule: rev_induct)
  case Nil
  {
    case 1 show ?case by (simp add: no_metrics_def bucket_millis_def numeral_eq_Suc)
  next
    case 2 show ?case by (simp add: no_metrics_def)
  }
next
  case (snoc d ds)
  {
    case 1 show ?case
      using buckets_after [OF snoc(1), of d] by (auto cong: if_cong)
  next
    case 2 show ?case using snoc(2) by (simp add: reconciled_def Let_def)
  }
qed

lemma filter_length_mono:
  "(\<And>x. P x \<Longrightarrow> Q x) \<Longrightarrow> length (filter P xs) \<le> length (filter Q xs)"
  by (induction xs) auto

text \<open>The reconcile histogram counts: while no counter has wrapped, each bucket holds the number of
  reconciles at or under its ceiling, the buckets never decrease along the ceilings, and none
  exceeds the count.\<close>

theorem histogram_is_cumulative:
  assumes "length ds < 2 ^ 64" and "m = fold reconciled ds no_metrics"
  shows "unat (mt_reconciles m) = length ds \<and>
    map unat (mt_buckets m)
      = map (\<lambda>c. length (filter (\<lambda>d. clamp_millis d \<le> c) ds)) bucket_millis \<and>
    sorted (map unat (mt_buckets m)) \<and> (\<forall>b \<in> set (mt_buckets m). b \<le> mt_reconciles m)"
proof -
  let ?n = "\<lambda>c. length (filter (\<lambda>d. clamp_millis d \<le> c) ds)"
  have bounds: "?n c < 2 ^ 64" for c using assms(1) length_filter_le [of _ ds] by (meson le_less_trans)
  have count: "unat (mt_reconciles m) = length ds"
    using assms by (simp add: histogram_counts unsigned_of_nat take_bit_nat_eq_self_iff)
  moreover have buckets: "map unat (mt_buckets m) = map ?n bucket_millis"
    using bounds by (simp add: assms(2) histogram_counts unsigned_of_nat take_bit_nat_eq_self_iff)
  moreover have "sorted (map ?n bucket_millis)"
    unfolding bucket_millis_def
    by (simp, intro conjI; rule filter_length_mono; erule order_trans; simp)
  moreover have "b \<le> mt_reconciles m" if "b \<in> set (mt_buckets m)" for b
  proof -
    have "unat b \<in> set (map ?n bucket_millis)" using that unfolding buckets [symmetric] by simp
    then show ?thesis using count by (auto simp: word_le_nat_alt)
  qed
  ultimately show ?thesis by simp
qed

theorem histogram_is_cumulative_witness:
  "map unat (mt_buckets (fold reconciled [7, 700] no_metrics)) = [1, 1, 1, 1, 2, 2, 2, 2]"
proof -
  have "length [7 :: nat, 700] < 2 ^ 64" by simp
  from histogram_is_cumulative [OF this refl]
  have "map unat (mt_buckets (fold reconciled [7, 700] no_metrics))
      = map (\<lambda>c. length (filter (\<lambda>d. clamp_millis d \<le> c) [7, 700])) bucket_millis" by blast
  also have "\<dots> = [1, 1, 1, 1, 2, 2, 2, 2]" by (simp add: clamp_millis_def bucket_millis_def)
  finally show ?thesis .
qed

lemma staleness_le_iff:
  "staleness now m \<le> c \<longleftrightarrow> mt_last_success m = 0 \<or> unat now \<le> unat (mt_last_success m) + unat c"
proof (cases "mt_last_success m = 0 \<or> now \<le> mt_last_success m")
  case True
  then show ?thesis by (auto simp: staleness_def word_le_nat_alt)
next
  case False
  then have "unat (now - mt_last_success m) = unat now - unat (mt_last_success m)"
    using unat_sub [of "mt_last_success m" now] by (simp add: less_imp_le linorder_not_le)
  then show ?thesis using False by (auto simp: staleness_def word_le_nat_alt)
qed

text \<open>The agent reports ready exactly when a document was rendered and, under a ceiling, the last
  successful read of the store is no older than it; before the first such read there is no age.\<close>

theorem ready_means_rendered_and_fresh:
  "rendered_at_least_once now m \<longleftrightarrow>
     mt_renders m \<noteq> 0 \<and>
     (mt_max_staleness m = 0 \<or> mt_last_success m = 0 \<or>
      unat now \<le> unat (mt_last_success m) + unat (mt_max_staleness m))"
  by (simp add: rendered_at_least_once_def staleness_le_iff)

text \<open>A pod whose store is lost after the first render has no age: its ceiling never makes it unready.\<close>

lemma first_render_is_ageless:
  "mt_last_success m = 0 \<Longrightarrow> mt_renders m + 1 \<noteq> 0 \<Longrightarrow>
   rendered_at_least_once later (published d (rendered now m))"
  by (simp add: rendered_at_least_once_def staleness_def rendered_def published_def)

text \<open>An acknowledgement is answered by whether it names the document last published, and readiness
  under \<open>--require-ack\<close> follows that answer; an empty one is refused and changes nothing.\<close>

theorem acknowledgement_settles_readiness:
  assumes "starts_with ''POST /applied'' request"
    and "answer prefix ready now request m = ((status, body), m')"
  shows "(request_body request = [] \<longrightarrow> status = ''400 Bad Request'' \<and> m' = m) \<and>
    (request_body request \<noteq> [] \<longrightarrow>
       (status = ''200 OK'' \<longleftrightarrow> request_body request = mt_rendered_fingerprint m) \<and>
       (status = ''409 Conflict'' \<longleftrightarrow> request_body request \<noteq> mt_rendered_fingerprint m) \<and>
       (rendered_and_applied now m' \<longleftrightarrow> rendered_at_least_once now m \<and> status = ''200 OK''))"
proof (cases "request_body request = []")
  case True
  then show ?thesis using assms by (simp add: answer_def)
next
  case False
  let ?b = "request_body request"
  define m1 where "m1 = snd (acknowledged now ?b m)"
  have ack: "acknowledged now ?b m = (?b = mt_rendered_fingerprint m, m1)"
    by (auto simp: m1_def acknowledged_def Let_def)
  have "rendered_at_least_once now m1 = rendered_at_least_once now m" "applied m1 \<longleftrightarrow> ?b = mt_rendered_fingerprint m"
    using False by (auto simp: m1_def acknowledged_def Let_def rendered_at_least_once_def staleness_def applied_def)
  moreover have "m' = m1 \<and> status = (if ?b = mt_rendered_fingerprint m then ''200 OK'' else ''409 Conflict'')"
    using assms False unfolding answer_def Let_def ack by (cases "?b = mt_rendered_fingerprint m") simp_all
  ultimately show ?thesis using False by (simp add: rendered_and_applied_def)
qed

theorem acknowledgement_settles_readiness_witness:
  "\<exists>status body m'. answer ''p'' rendered_and_applied 9 (''POST /applied'' @ crlf @ crlf @ ''sha256:ab'')
       (published ''sha256:ab'' (rendered 8 no_metrics)) = ((status, body), m') \<and>
     rendered_and_applied 9 m'"
proof -
  let ?r = "''POST /applied'' @ crlf @ crlf @ ''sha256:ab''"
  let ?m = "published ''sha256:ab'' (rendered 8 no_metrics)"
  have post: "starts_with ''POST /applied'' ?r" by (rule starts_with_append)
  have body: "request_body ?r = ''sha256:ab''"
    by (simp add: request_body_def crlf_def starts_with_def trim_def trim_start_def trim_end_def is_space_def)
  obtain status b m' where a: "answer ''p'' rendered_and_applied 9 ?r ?m = ((status, b), m')"
    by (metis prod.exhaust)
  have "rendered_at_least_once 9 ?m"
    by (simp add: rendered_at_least_once_def published_def rendered_def no_metrics_def)
  then have "rendered_and_applied 9 m'"
    using acknowledgement_settles_readiness [OF post a] body by (simp add: published_def)
  then show ?thesis using a by blast
qed

end
