(* ===== verification/Canary.thy ===== *)
theory Canary
  imports Files
begin

text \<open>
  Rolling a document to some pods before all (\<open>canary.rs\<close>): the cohort of a pod's name, the percentage
  in a file, and who is admitted. The hash (crate \<open>sha2\<close>) is a parameter, which answers 32 bytes.
\<close>

unbundle bit_operations_syntax

definition bucket :: "(string \<Rightarrow> 8 word list) \<Rightarrow> string \<Rightarrow> nat" where
  "bucket sha256 pod =
     (let d = sha256 pod;
          v = push_bit 8 (ucast (d ! 0)) OR (ucast (d ! 1) :: 16 word);
          r = unat (v mod 100) in
      if r < 256 then r else 0)"

definition percent :: "string option \<Rightarrow> nat option" where
  "percent content =
     (case content of
        None \<Rightarrow> None
      | Some text \<Rightarrow> map_option (\<lambda>v. min v 100) (parse_uint 10 16 (trim text)))"

definition admitted :: "nat \<Rightarrow> nat option \<Rightarrow> bool" where
  "admitted b p = (case p of None \<Rightarrow> True | Some n \<Rightarrow> b < n)"

lemma bucket_less: "bucket sha256 pod < 100"
proof -
  have "v mod 100 < (100 :: 16 word)" for v by (rule word_mod_less_divisor) simp
  then have "unat (v mod 100 :: 16 word) < 100" for v :: "16 word"
    by (simp add: word_less_nat_alt)
  then show ?thesis by (simp add: bucket_def Let_def)
qed

lemma percent_le: "percent content = Some n \<Longrightarrow> n \<le> 100"
  by (auto simp: percent_def split: option.splits)

text \<open>Widening the percentage keeps every pod of the cohort in it; zero holds every pod, a hundred
  or more holds none, and a file that says nothing usable holds none either.\<close>

theorem cohorts_only_grow:
  "(admitted (bucket sha256 pod) (Some n) \<and> n \<le> k \<longrightarrow> admitted (bucket sha256 pod) (Some k)) \<and>
   \<not> admitted (bucket sha256 pod) (Some 0) \<and>
   admitted (bucket sha256 pod) (Some 100) \<and>
   (parse_uint 10 16 (trim text) = None \<longrightarrow> admitted (bucket sha256 pod) (percent (Some text))) \<and>
   (parse_uint 10 16 (trim text) = Some k \<and> 100 \<le> k \<longrightarrow> admitted (bucket sha256 pod) (percent (Some text)))"
  using bucket_less [of sha256 pod] by (auto simp: admitted_def percent_def min_def)

theorem cohorts_only_grow_witness:
  "admitted (bucket (\<lambda>_. [0, 4]) ''billing-0'') (Some 5) \<and>
   admitted (bucket (\<lambda>_. [0, 4]) ''billing-0'') (Some 50)"
proof -
  have "admitted (bucket (\<lambda>_. [0, 4]) ''billing-0'') (Some 5)"
    by (simp add: admitted_def bucket_def Let_def)
  then show ?thesis using cohorts_only_grow [of "\<lambda>_. [0, 4]" "''billing-0''" 5 50 "[]"] by simp
qed

end
