(* ===== verification/Trust.thy ===== *)
theory Trust
  imports AgentSpec Files
begin

text \<open>
  Noticing that the store's trust material moved (\<open>trust.rs\<close>). The files are read from a function of
  the moment; the hash (crate \<open>sha2\<close>) is a parameter over the bytes fed to it.
\<close>

type_synonym disk = "string \<Rightarrow> string option"

record Material =
  ma_files :: "string list"
  ma_digest :: string

definition fed :: "disk \<Rightarrow> string \<Rightarrow> string" where
  "fed d p = p @ (case d p of Some bytes \<Rightarrow> ''present'' @ bytes | None \<Rightarrow> ''absent'')"

definition digest_of :: "(string \<Rightarrow> 8 word list) \<Rightarrow> disk \<Rightarrow> string list \<Rightarrow> string" where
  "digest_of sha256 d ps = concat (map hex_byte (sha256 (concat (map (fed d) ps))))"

definition material_files :: "Spec \<Rightarrow> string list" where
  "material_files s =
     List.map_filter id [sp_ca s, sp_tls_cert s, sp_tls_key s, sp_ssh_key s]"

definition material_of :: "(string \<Rightarrow> 8 word list) \<Rightarrow> disk \<Rightarrow> Spec \<Rightarrow> Material option" where
  "material_of sha256 d s =
     (let ps = material_files s in
      if ps = [] then None else Some \<lparr> ma_files = ps, ma_digest = digest_of sha256 d ps \<rparr>)"

definition moved :: "(string \<Rightarrow> 8 word list) \<Rightarrow> disk \<Rightarrow> Material \<Rightarrow> bool" where
  "moved sha256 d m \<longleftrightarrow> digest_of sha256 d (ma_files m) \<noteq> ma_digest m"

text \<open>Three readings: whether it moved, what it moved to, and the same a beat later.\<close>

definition settled_change :: "(string \<Rightarrow> 8 word list) \<Rightarrow> disk \<Rightarrow> disk \<Rightarrow> disk \<Rightarrow> Material \<Rightarrow> bool" where
  "settled_change sha256 d1 d2 d3 m \<longleftrightarrow>
     moved sha256 d1 m \<and> digest_of sha256 d3 (ma_files m) = digest_of sha256 d2 (ma_files m)"

section \<open>Facts\<close>

lemma hex_digit_inj: "n < 16 \<Longrightarrow> k < 16 \<Longrightarrow> hex_digit n = hex_digit k \<Longrightarrow> n = k"
  by (auto simp: hex_digit_def char_of_eq_iff take_bit_eq_mod split: if_splits)

lemma hex_byte_inj: "hex_byte a = hex_byte b \<Longrightarrow> a = b"
proof -
  assume eq: "hex_byte a = hex_byte b"
  have less: "unat c div 16 < 16" "unat c mod 16 < 16" for c :: "8 word"
    using unsigned_less [of c] by (simp_all add: div_less_iff_less_mult less_mult_imp_div_less)
  have "unat a div 16 = unat b div 16" "unat a mod 16 = unat b mod 16"
    using eq less hex_digit_inj by (simp_all add: hex_byte_def)
  then have "unat a = unat b" by (metis div_mult_mod_eq)
  then show "a = b" by (simp add: word_unat_eq_iff)
qed

lemma hex_bytes_inj: "concat (map hex_byte xs) = concat (map hex_byte ys) \<Longrightarrow> xs = ys"
proof (induction xs arbitrary: ys)
  case Nil
  then show ?case by (cases ys) (auto simp: hex_byte_def)
next
  case (Cons x xs)
  then obtain y zs where ys: "ys = y # zs" by (cases ys) (auto simp: hex_byte_def)
  have "hex_byte x @ concat (map hex_byte xs) = hex_byte y @ concat (map hex_byte zs)"
    using Cons.prems ys by simp
  then have "hex_byte x = hex_byte y" "concat (map hex_byte xs) = concat (map hex_byte zs)"
    by (simp_all add: hex_byte_def)
  then show ?case using hex_byte_inj Cons.IH ys by auto
qed

lemma fed_cong: "(\<And>p. p \<in> set ps \<Longrightarrow> d p = e p) \<Longrightarrow> map (fed d) ps = map (fed e) ps"
  by (simp add: fed_def)

text \<open>An agent rebuilds its client only for material that moved and finished moving: unchanged
  files never cause it, and when one file of the material was replaced by other bytes, or removed,
  and holds still, it is noticed, unless the digests of the two readings collide.\<close>

theorem rotation_is_noticed_once_settled:
  assumes "material_of sha256 d0 s = Some m" and "p \<in> set (material_files s)"
    and "sha256 (concat (map (fed d1) (material_files s))) = sha256 (concat (map (fed d0) (material_files s))) \<longrightarrow>
      concat (map (fed d1) (material_files s)) = concat (map (fed d0) (material_files s))"
    and "\<And>q. q \<in> set (material_files s) \<Longrightarrow> q \<noteq> p \<Longrightarrow> d1 q = d0 q"
    and "\<And>q. q \<in> set (material_files s) \<Longrightarrow> d2 q = d1 q \<and> d3 q = d1 q"
    and "distinct (material_files s)"
  shows "settled_change sha256 d1 d2 d3 m \<longleftrightarrow> d1 p \<noteq> d0 p"
proof -
  let ?ps = "material_files s"
  have m: "ma_files m = ?ps" "ma_digest m = digest_of sha256 d0 ?ps"
    using assms(1) by (auto simp: material_of_def Let_def split: if_splits)
  have still: "digest_of sha256 d3 ?ps = digest_of sha256 d2 ?ps"
    using fed_cong [of ?ps d3 d2] assms(5) unfolding digest_of_def by presburger
  obtain as bs where split: "?ps = as @ p # bs" "p \<notin> set as" "p \<notin> set bs"
    using assms(2,6) by (metis split_list distinct.simps(2) distinct_append not_distinct_decomp
        disjoint_iff_not_equal list.set_intros(1))
  have outer: "map (fed d1) as = map (fed d0) as" "map (fed d1) bs = map (fed d0) bs"
    using assms(4) split by (intro fed_cong; force)+
  have "digest_of sha256 d1 ?ps = digest_of sha256 d0 ?ps
      \<longleftrightarrow> concat (map (fed d1) ?ps) = concat (map (fed d0) ?ps)"
    using assms(3) hex_bytes_inj unfolding digest_of_def by metis
  also have "\<dots> \<longleftrightarrow> fed d1 p = fed d0 p" unfolding split(1) by (simp add: outer)
  also have "\<dots> \<longleftrightarrow> d1 p = d0 p" by (auto simp: fed_def split: option.splits)
  finally show ?thesis using still m by (simp add: settled_change_def moved_def)
qed

definition example_trust :: Spec where
  "example_trust = settings.extend (settings.truncate ((initial_draft (\<lambda>_. None)) \<lparr> sp_ca := Some ''/ca.pem'' \<rparr>))
     (Spec.fields ''consul'' ''https://c'' ''k'' ''/c/a.json'' [])"

lemma example_trust_files: "material_files example_trust = [''/ca.pem'']"
  by (simp add: material_files_def example_trust_def settings.defs Spec.defs initial_draft_def map_filter_simps)

definition byte_sum :: "string \<Rightarrow> 8 word list" where
  "byte_sum s = [of_nat (sum_list (map of_char s))]"

theorem rotation_is_noticed_once_settled_witness:
  "\<exists>m. material_of byte_sum (\<lambda>_. Some ''a'') example_trust = Some m \<and>
     settled_change byte_sum (\<lambda>_. Some ''b'') (\<lambda>_. Some ''b'') (\<lambda>_. Some ''b'') m"
proof -
  obtain m where m: "material_of byte_sum (\<lambda>_. Some ''a'') example_trust = Some m"
    by (simp add: material_of_def example_trust_files Let_def)
  have "byte_sum (concat (map (fed (\<lambda>_. Some ''b'')) [''/ca.pem'']))
      \<noteq> byte_sum (concat (map (fed (\<lambda>_. Some ''a'')) [''/ca.pem'']))"
    by code_simp
  then have "settled_change byte_sum (\<lambda>_. Some ''b'') (\<lambda>_. Some ''b'') (\<lambda>_. Some ''b'') m
      \<longleftrightarrow> Some ''b'' \<noteq> Some ''a''"
    by (intro rotation_is_noticed_once_settled [OF m, of "''/ca.pem''"]) (simp_all add: example_trust_files)
  then show ?thesis using m by blast
qed

end
