(* ===== verification/Publish.thy ===== *)
theory Publish
  imports History Render Metrics
begin

text \<open>
  Writing a rendered set to the pod's volume (\<open>sidecar.rs\<close>: \<open>publish\<close>, \<open>on_disk\<close>, \<open>drifted\<close>,
  \<open>unchanged\<close>). Any operation on the volume may be refused, and a refused write may leave a prefix of
  its text: \<open>wd_fault\<close> says which. The clock of the moment is \<open>wd_now\<close>.
\<close>

unbundle bit_operations_syntax

section \<open>A volume that refuses\<close>

datatype fault = Goes | Refused | Torn nat

record world =
  wd_now :: u64
  wd_fault :: "fs_op \<Rightarrow> fault"

record agent =
  ag_spec :: Spec
  ag_engine :: engine
  ag_sha :: "string \<Rightarrow> 8 word list"

fun torn :: "fs_op \<Rightarrow> nat \<Rightarrow> volume \<Rightarrow> volume" where
  "torn (WriteFile p c) n v = written p (take n c) v"
| "torn op n v = v"

fun perform :: "(fs_op \<Rightarrow> fault) \<Rightarrow> fs_op list \<Rightarrow> volume \<Rightarrow> volume \<times> bool" where
  "perform faults [] v = (v, True)"
| "perform faults (op # ops) v =
     (case faults op of
        Goes \<Rightarrow> (case fs_apply op v of None \<Rightarrow> (v, False) | Some w \<Rightarrow> perform faults ops w)
      | Refused \<Rightarrow> (v, False)
      | Torn n \<Rightarrow> (torn op n v, False))"

definition write_file :: "world \<Rightarrow> string \<Rightarrow> string \<Rightarrow> nat option \<Rightarrow> volume \<Rightarrow> volume \<times> bool" where
  "write_file w path content mode v =
     (case write_atomically path content mode of
        None \<Rightarrow> (v, False)
      | Some ops \<Rightarrow> perform (wd_fault w) ops v)"

text \<open>\<open>keep_previous\<close> on such a volume. Its answer is only logged.\<close>

definition try_remove :: "world \<Rightarrow> string \<Rightarrow> volume \<Rightarrow> volume" where
  "try_remove w p v = fst (perform (wd_fault w) [RemoveFile p] v)"

definition prune_with :: "world \<Rightarrow> string \<Rightarrow> nat \<Rightarrow> volume \<Rightarrow> volume" where
  "prune_with w dir keep v =
     fold (try_remove w) (over_limit keep (files_in dir v)) v"

definition keep_generation :: "agent \<Rightarrow> world \<Rightarrow> string \<Rightarrow> nat \<Rightarrow> volume \<Rightarrow> volume" where
  "keep_generation ag w path keep v =
     (if keep = 0 then v
      else (case (read_file v path, history_path path) of
              (Some previous, Some dir) \<Rightarrow>
                let kept = kept_path (ag_sha ag) (unat (wd_now w)) path dir previous;
                    (u, ok) = write_file w kept previous (mode_of_file v path) v in
                if ok then prune_with w dir keep u else u
            | _ \<Rightarrow> v))"

section \<open>Publishing\<close>

record stage =
  sg_volume :: volume
  sg_metrics :: metrics
  sg_calls :: nat

definition publish_one :: "agent \<Rightarrow> world \<Rightarrow> Published \<Rightarrow> volume \<Rightarrow> volume \<times> bool" where
  "publish_one ag w p v =
     write_file w (pb_out p) (pb_document p) (pb_mode p)
       (keep_generation ag w (pb_out p) (sp_history (ag_spec ag)) v)"

fun publish_files :: "agent \<Rightarrow> world \<Rightarrow> Published list \<Rightarrow> volume \<Rightarrow> volume \<times> bool" where
  "publish_files ag w [] v = (v, True)"
| "publish_files ag w (p # ps) v =
     (case publish_one ag w p v of
        (u, True) \<Rightarrow> publish_files ag w ps u
      | (u, False) \<Rightarrow> (u, False))"

definition publish_meta :: "agent \<Rightarrow> world \<Rightarrow> Revision option \<Rightarrow> Published \<Rightarrow> volume \<Rightarrow> volume" where
  "publish_meta ag w revision p v =
     (case write_meta (pb_out p) (map_option rv_text revision) (digest (ag_sha ag) (pb_document p))
             (unat (wd_now w)) (pb_mode p) of
        None \<Rightarrow> v
      | Some ops \<Rightarrow> fst (perform (wd_fault w) ops v))"

definition count_publish :: "agent \<Rightarrow> world \<Rightarrow> Published list \<Rightarrow> Revision option \<Rightarrow> metrics \<Rightarrow> metrics" where
  "count_publish ag w ps revision m =
     (let m1 = generation (Option.bind revision rv_counter) (rendered (wd_now w) m) in
      case ps of [] \<Rightarrow> m1 | p # _ \<Rightarrow> published (digest (ag_sha ag) (pb_document p)) m1)"

definition publish :: "agent \<Rightarrow> world \<Rightarrow> Published list \<Rightarrow> Revision option \<Rightarrow> 'a stage_scheme
    \<Rightarrow> 'a stage_scheme \<times> bool" where
  "publish ag w ps revision s =
     (case publish_files ag w ps (sg_volume s) of
        (v, False) \<Rightarrow> (s \<lparr> sg_volume := v \<rparr>, False)
      | (v, True) \<Rightarrow>
          (s \<lparr> sg_volume :=
                 (if sp_meta (ag_spec ag) then fold (publish_meta ag w revision) ps v else v),
               sg_metrics := count_publish ag w ps revision (sg_metrics s),
               sg_calls := sg_calls s + (if sp_notify_http (ag_spec ag) = None then 0 else 1) \<rparr>,
           True))"

section \<open>What is there already\<close>

definition on_disk :: "Spec \<Rightarrow> string \<Rightarrow> volume \<Rightarrow> Published list" where
  "on_disk s main v =
     \<lparr> pb_out = sp_out s, pb_document = main, pb_mode = sp_file_mode s \<rparr>
     # map (\<lambda>r. \<lparr> pb_out = rd_out r, pb_document = unwrap_or (read_file v (rd_out r)) [],
                  pb_mode = rd_mode r \<rparr>) (sp_also s)"

fun drifted :: "Published list \<Rightarrow> volume \<Rightarrow> string option" where
  "drifted [] v = None"
| "drifted (p # ps) v =
     (if read_file v (pb_out p) = Some (pb_document p) then drifted ps v else Some (pb_out p))"

definition unchanged :: "Published list option \<Rightarrow> Published list \<Rightarrow> bool" where
  "unchanged held fresh =
     (case held of
        None \<Rightarrow> False
      | Some hs \<Rightarrow> length hs = length fresh \<and>
          list_all (\<lambda>(h, f). pb_out h = pb_out f \<and> pb_document h = pb_document f) (zip hs fresh))"

section \<open>Open paths\<close>

text \<open>
  Where an application reads: no directory of the path and not the file is hidden. Everything the
  agent writes besides the renders is hidden or in a hidden directory.
\<close>

definition shown_name :: "string \<Rightarrow> bool" where
  "shown_name n \<longleftrightarrow> plain_name n \<and> hd n \<noteq> CHR ''.''"

definition open_path :: "string \<Rightarrow> bool" where
  "open_path p \<longleftrightarrow> (\<exists>ds n. list_all shown_name (ds @ [n]) \<and> p = plain_dir (ds @ [n]))"

lemma shown_plain: "list_all shown_name ns \<Longrightarrow> list_all plain_name ns"
  by (auto simp: list_all_iff shown_name_def)

lemma open_pathE:
  assumes "open_path p"
  obtains ds n where "list_all shown_name ds" and "list_all plain_name ds" and "plain_name n"
    and "hd n \<noteq> CHR ''.''" and "p = plain_dir (ds @ [n])"
  using assms unfolding open_path_def by (auto simp: shown_name_def intro: shown_plain)

lemma open_visible: "open_path p \<Longrightarrow> visible p"
  unfolding visible_def by (elim open_pathE) blast

lemma in_hidden_dir_not_open:
  assumes "list_all plain_name ds" and "plain_name (CHR ''.'' # h)" and "plain_name k"
  shows "\<not> open_path (plain_dir (ds @ [CHR ''.'' # h, k]))"
proof
  assume "open_path (plain_dir (ds @ [CHR ''.'' # h, k]))"
  then obtain es n where e: "list_all shown_name es" "list_all plain_name es" "plain_name n"
    "plain_dir (ds @ [CHR ''.'' # h, k]) = plain_dir (es @ [n])" by (rule open_pathE)
  then have "ds @ [CHR ''.'' # h, k] = es @ [n]"
    using plain_dir_inj [of "ds @ [CHR ''.'' # h, k]" "es @ [n]"] assms by simp
  then have "es = ds @ [CHR ''.'' # h]" by (metis append_Cons append_Nil append_assoc butlast_snoc)
  then show False using e(1) by (simp add: shown_name_def)
qed

lemma open_parent_not_hidden:
  assumes "open_path q" and "list_all plain_name ds" and "plain_name (CHR ''.'' # h)"
  shows "path_parent q \<noteq> Some (plain_dir (ds @ [CHR ''.'' # h]))"
proof
  assume parent: "path_parent q = Some (plain_dir (ds @ [CHR ''.'' # h]))"
  obtain es n where e: "list_all shown_name es" "list_all plain_name es" "plain_name n"
    "q = plain_dir (es @ [n])" using assms(1) by (rule open_pathE)
  then have "plain_dir es = plain_dir (ds @ [CHR ''.'' # h])"
    using parent plain_file(1) [OF e(2,3)] by simp
  then have "es = ds @ [CHR ''.'' # h]"
    using plain_dir_inj [of es "ds @ [CHR ''.'' # h]"] e(2) assms(2,3) by simp
  then show False using e(1) by (simp add: shown_name_def)
qed

section \<open>Performing\<close>

lemma perform_seen: "seen ops v (fst (perform faults ops v))"
proof (induction ops arbitrary: v)
  case (Cons op ops)
  show ?case
  proof (cases "faults op")
    case Goes
    then show ?thesis using Cons.IH by (auto simp: seen_Cons split: option.splits)
  next
    case Refused
    then show ?thesis by (simp add: seen_here)
  next
    case (Torn n)
    then show ?thesis
      by (cases op) (auto simp: seen_Cons intro: exI [of _ "take n c" for c] append_take_drop_id [symmetric])
  qed
qed (simp add: seen_here)

lemma perform_ok: "perform faults ops v = (u, True) \<Longrightarrow> fs_apply_all ops v = Some u"
  by (induction ops arbitrary: v) (auto split: fault.splits option.splits)

lemma perform_goes: "fs_apply_all ops v = Some u \<Longrightarrow> perform (\<lambda>_. Goes) ops v = (u, True)"
  by (induction ops arbitrary: v) (auto split: option.splits)

lemma write_file_seen:
  assumes "visible p"
  shows "file_during p (c, m) v (fst (write_file w p c m v))"
proof -
  obtain ops where "write_atomically p c m = Some ops" using write_atomically_visible [OF assms] by metis
  then show ?thesis by (auto simp: file_during_def write_file_def perform_seen)
qed

lemma write_file_ok:
  "write_file w p c m v = (u, True) \<Longrightarrow> file_after p (c, m) v = Some u"
  by (auto simp: write_file_def file_after_def perform_ok split: option.splits)

lemmas write_file_self = volumes.during_self [unfolded mem_Collect_eq, OF _ write_file_seen]
lemmas write_file_other = volumes.during_other [unfolded mem_Collect_eq, OF _ _ _ write_file_seen]

lemma write_file_goes:
  assumes "visible p" and "wd_fault w = (\<lambda>_. Goes)"
  obtains u where "write_file w p c m v = (u, True)"
proof -
  obtain ops where ops: "write_atomically p c m = Some ops" using write_atomically_visible [OF assms(1)] by metis
  then obtain u where "fs_apply_all ops v = Some u" using write_atomically_done [OF assms(1)] by metis
  then show ?thesis using that ops assms(2) perform_goes by (simp add: write_file_def)
qed

section \<open>Keeping a generation touches no open file\<close>

lemma try_remove_cases: "try_remove w p v \<in> {v, drop_file p v}"
  unfolding try_remove_def by (auto split: fault.splits option.splits)

lemma removals_outside:
  assumes "q \<notin> set ps"
  shows "read_file (fold (try_remove w) ps v) q = read_file v q"
  using assms
proof (induction ps arbitrary: v)
  case (Cons p ps)
  have "map_of (try_remove w p v) q = map_of v q"
    using try_remove_cases [of w p v] Cons.prems by auto
  then show ?case using Cons by (simp add: read_file_def)
qed simp

lemma not_over_limit: "path_parent q \<noteq> Some dir \<Longrightarrow> q \<notin> set (over_limit keep (files_in dir v))"
  using over_limit_subset [of keep "files_in dir v"] by (auto simp: files_in_def)

lemma prune_with_outside:
  "path_parent q \<noteq> Some dir \<Longrightarrow> read_file (prune_with w dir keep v) q = read_file v q"
  unfolding prune_with_def by (intro removals_outside not_over_limit)

lemma kept_place_open:
  assumes "open_path path"
  obtains dir where "history_path path = Some dir"
    and "\<And>d. visible (kept_path sha256 now path dir d)"
    and "\<And>d. \<not> open_path (kept_path sha256 now path dir d)"
    and "\<And>q. open_path q \<Longrightarrow> path_parent q \<noteq> Some dir"
proof -
  obtain ds n where p: "list_all plain_name ds" "plain_name n" "path = plain_dir (ds @ [n])"
    using assms by (rule open_pathE)
  let ?h = "n @ ''.history''" let ?dir = "plain_dir (ds @ [CHR ''.'' # ?h])"
  have h: "plain_name (CHR ''.'' # ?h)" using hidden_plain [OF p(2), of "''.history''"] by simp
  have place: "history_path path = Some ?dir" "visible (kept_path sha256 now path ?dir d)" for d
    using kept_place [OF p(1,2)] p(3) by metis+
  have es: "list_all plain_name (ds @ [CHR ''.'' # ?h])" using p(1) h by simp
  have "\<not> open_path (kept_path sha256 now path ?dir d)" for d
  proof -
    obtain k where k: "plain_name k" "kept_path sha256 now path ?dir d = plain_dir ((ds @ [CHR ''.'' # ?h]) @ [k])"
      using kept_path_plain [OF p(1,2) es] p(3) by metis
    then show ?thesis using in_hidden_dir_not_open [OF p(1) h k(1)] by simp
  qed
  moreover have "path_parent q \<noteq> Some ?dir" if "open_path q" for q
    using open_parent_not_hidden [OF that p(1) h] .
  ultimately show ?thesis using place that by metis
qed

lemma keep_generation_open:
  assumes "open_path path" and "open_path q"
  shows "read_file (keep_generation ag w path keep v) q = read_file v q"
proof -
  obtain dir where dir: "history_path path = Some dir"
    "\<And>d. visible (kept_path (ag_sha ag) (unat (wd_now w)) path dir d)"
    "\<And>d. \<not> open_path (kept_path (ag_sha ag) (unat (wd_now w)) path dir d)"
    "\<And>q. open_path q \<Longrightarrow> path_parent q \<noteq> Some dir"
    using kept_place_open [OF assms(1)] by metis
  have other: "read_file (fst (write_file w (kept_path (ag_sha ag) (unat (wd_now w)) path dir d) c m u)) q
      = read_file u q" for d c m u
    using write_file_other [OF dir(2) open_visible [OF assms(2)] _ dir(2)] dir(3) assms(2) by metis
  show ?thesis
    using dir(1) other prune_with_outside [OF dir(4) [OF assms(2)], of w keep]
    by (auto simp: keep_generation_def Let_def split: option.splits prod.splits)
      (metis fst_conv)+
qed

text \<open>Without refusals it is \<open>keep_previous\<close>.\<close>

lemma prune_with_goes: "wd_fault w = (\<lambda>_. Goes) \<Longrightarrow> map_of (prune_with w dir keep v) = map_of (prune (\<lambda>_. False) dir keep v)"
proof -
  assume goes: "wd_fault w = (\<lambda>_. Goes)"
  have "try_remove w p u = drop_file p u" for p u
  proof (cases "map_of u p")
    case None
    then have "\<forall>x \<in> set u. fst x \<noteq> p" by (auto simp: map_of_eq_None_iff)
    then have "drop_file p u = u" unfolding drop_file_def by (intro filter_True) auto
    then show ?thesis using None goes by (simp add: try_remove_def)
  qed (simp add: goes try_remove_def)
  then have "try_remove w = drop_file" by (intro ext)
  then show ?thesis unfolding prune_with_def prune_def by simp
qed

lemma keep_generation_agrees:
  assumes "open_path path" and "wd_fault w = (\<lambda>_. Goes)"
    and "keep_previous (ag_sha ag) (\<lambda>_. False) (unat (wd_now w)) path keep v = Inr u"
  shows "map_of (keep_generation ag w path keep v) = map_of u"
  using assms prune_with_goes [OF assms(2)]
  by (auto simp: keep_previous_def keep_generation_def write_file_def perform_goes Let_def res_simps
      split: if_splits option.splits)

lemma written:
  "visible p \<Longrightarrow> write_file w p c m v = (u, b) \<Longrightarrow> file_during p (c, m) v u"
  using write_file_seen by (metis fst_conv)

section \<open>A set, at any instant\<close>

text \<open>What is on the volume when the agent is killed while it keeps a generation, or publishes a set.\<close>

definition history_during :: "agent \<Rightarrow> world \<Rightarrow> string \<Rightarrow> volume \<Rightarrow> volume \<Rightarrow> bool" where
  "history_during ag w path v u \<longleftrightarrow> u = v \<or>
     (\<exists>previous dir kept. read_file v path = Some previous \<and> history_path path = Some dir \<and>
        kept = kept_path (ag_sha ag) (unat (wd_now w)) path dir previous \<and>
        (file_during kept (previous, mode_of_file v path) v u \<or>
         (\<exists>x n. write_file w kept previous (mode_of_file v path) v = (x, True) \<and>
            u = fold (try_remove w)
              (take n (over_limit (sp_history (ag_spec ag)) (files_in dir x))) x)))"

definition publish_during :: "agent \<Rightarrow> world \<Rightarrow> string \<Rightarrow> string \<times> nat option \<Rightarrow> volume \<Rightarrow> volume \<Rightarrow> bool" where
  "publish_during ag w p cm v u \<longleftrightarrow>
     history_during ag w p v u \<or>
     file_during p cm (keep_generation ag w p (sp_history (ag_spec ag)) v) u"

definition publish_after :: "agent \<Rightarrow> world \<Rightarrow> string \<Rightarrow> string \<times> nat option \<Rightarrow> volume \<Rightarrow> volume option" where
  "publish_after ag w p cm v =
     (case publish_one ag w \<lparr> pb_out = p, pb_document = fst cm, pb_mode = snd cm \<rparr> v of
        (u, True) \<Rightarrow> Some u
      | (u, False) \<Rightarrow> None)"

fun publishing :: "agent \<Rightarrow> world \<Rightarrow> Published list \<Rightarrow> volume \<Rightarrow> volume \<Rightarrow> bool" where
  "publishing ag w [] v u \<longleftrightarrow> u = v"
| "publishing ag w (p # ps) v u \<longleftrightarrow>
     publish_during ag w (pb_out p) (pb_document p, pb_mode p) v u \<or>
     (\<exists>x. publish_one ag w p v = (x, True) \<and> publishing ag w ps x u)"

lemma history_during_open:
  assumes "open_path path" and "open_path q" and "history_during ag w path v u"
  shows "read_file u q = read_file v q"
proof -
  obtain dir where dir: "history_path path = Some dir"
    "\<And>d. visible (kept_path (ag_sha ag) (unat (wd_now w)) path dir d)"
    "\<And>d. \<not> open_path (kept_path (ag_sha ag) (unat (wd_now w)) path dir d)"
    "\<And>q. open_path q \<Longrightarrow> path_parent q \<noteq> Some dir"
    using kept_place_open [OF assms(1)] by metis
  have ne: "q \<noteq> kept_path (ag_sha ag) (unat (wd_now w)) path dir d" for d using dir(3) assms(2) by metis
  note other = volumes.during_other [unfolded mem_Collect_eq, OF dir(2) open_visible [OF assms(2)] ne]
  have removed: "read_file (fold (try_remove w)
      (take n (over_limit k (files_in dir x))) x) q = read_file x q" for n k x
    using removals_outside not_over_limit [OF dir(4) [OF assms(2)]] by (metis in_set_takeD)
  show ?thesis
    using assms(3) dir(1) unfolding history_during_def
    by (auto simp: removed dest: other other [OF written [OF dir(2)]])
qed

lemma publish_one_split:
  "publish_one ag w p v = (u, b) \<longleftrightarrow>
     write_file w (pb_out p) (pb_document p) (pb_mode p)
       (keep_generation ag w (pb_out p) (sp_history (ag_spec ag)) v) = (u, b)"
  by (simp add: publish_one_def)

text \<open>A whole set is a store of open files that changes by one whole file at a time.\<close>

interpretation renders: atomic_store "publish_during ag w" "publish_after ag w" read_file fst "Collect open_path"
  for ag w
proof (unfold_locales, unfold mem_Collect_eq)
  fix k :: string and cm s t assume k: "open_path k" and during: "publish_during ag w k cm s t"
  note keep = keep_generation_open [OF k, of _ ag w "sp_history (ag_spec ag)" s]
  show "read_file t k = read_file s k \<or> read_file t k = Some (fst cm)"
    using during history_during_open [OF k k] volumes.during_self [unfolded mem_Collect_eq, OF open_visible [OF k]]
      keep [OF k] unfolding publish_during_def by metis
  show "open_path j \<Longrightarrow> j \<noteq> k \<Longrightarrow> read_file t j = read_file s j" for j
    using during history_during_open [OF k]
      volumes.during_other [unfolded mem_Collect_eq, OF open_visible [OF k] open_visible] keep
    unfolding publish_during_def by metis
next
  fix k :: string and cm s t assume k: "open_path k" and "publish_after ag w k cm s = Some t"
  then have after: "file_after k (fst cm, snd cm) (keep_generation ag w k (sp_history (ag_spec ag)) s) = Some t"
    using write_file_ok [of w k "fst cm" "snd cm"]
    by (auto simp: publish_after_def publish_one_split split: prod.splits bool.splits if_splits)
  note keep = keep_generation_open [OF k, of _ ag w "sp_history (ag_spec ag)" s]
  show "read_file t k = Some (fst cm)"
    using volumes.after_self [unfolded mem_Collect_eq, OF open_visible [OF k] after] by simp
  show "open_path j \<Longrightarrow> j \<noteq> k \<Longrightarrow> read_file t j = read_file s j" for j
    using volumes.after_other [unfolded mem_Collect_eq, OF open_visible [OF k] open_visible _ after] keep by metis
qed

abbreviation entries :: "Published list \<Rightarrow> (string \<times> string \<times> nat option) list" where
  "entries \<equiv> map (\<lambda>p. (pb_out p, pb_document p, pb_mode p))"

lemma publishing_published: "publishing ag w ps v u \<Longrightarrow> renders.published ag w (entries ps) v u"
proof (induction ps arbitrary: v)
  case (Cons p ps)
  have "publish_one ag w p v = (x, True) \<Longrightarrow> publish_after ag w (pb_out p) (pb_document p, pb_mode p) v = Some x" for x
    by (cases p) (simp add: publish_after_def)
  then show ?case using Cons by auto
qed simp

lemma publish_one_during:
  assumes "open_path (pb_out p)" and "publish_one ag w p v = (u, b)"
  shows "publish_during ag w (pb_out p) (pb_document p, pb_mode p) v u"
  using assms written [OF open_visible [OF assms(1)]] by (simp add: publish_one_split publish_during_def)

lemma publish_files_publishing:
  assumes "publish_files ag w ps v = (u, ok)" and "\<forall>p \<in> set ps. open_path (pb_out p)"
  shows "publishing ag w ps v u"
  using assms
proof (induction ps arbitrary: v)
  case (Cons p ps)
  then show ?case
    by (auto split: prod.splits bool.splits if_splits dest: publish_one_during)
qed simp

definition serves :: "Published list \<Rightarrow> volume \<Rightarrow> string \<Rightarrow> string option" where
  "serves ps v q = or_else (map_of (map (\<lambda>p. (pb_out p, pb_document p)) ps) q) (read_file v q)"

lemma first_shown_serves:
  "renders.first_shown n (entries ps) v q = serves (take n ps) v q"
proof -
  have "map_of (map (\<lambda>p. (pb_out p, pb_document p)) xs) q = map_option fst (map_of (entries xs) q)" for xs
    by (induction xs) auto
  then show ?thesis
    by (simp add: renders.first_shown_def serves_def take_map split: option.splits)
qed

text \<open>C2: a pod's files move one whole file at a time, in order: at any instant of a publication,
  after any refusal and after the agent was killed anywhere in it, the first few open files hold
  their new documents and all others what they held.\<close>

theorem publication_is_a_prefix:
  assumes "\<forall>p \<in> set ps. open_path (pb_out p)" and "distinct (map pb_out ps)"
    and "publishing ag w ps v u"
  shows "\<exists>n \<le> length ps. \<forall>q. open_path q \<longrightarrow> read_file u q = serves (take n ps) v q"
proof -
  have names: "fst ` set (entries ps) \<subseteq> Collect open_path" "distinct (map fst (entries ps))"
    using assms(1,2) by (auto simp: comp_def)
  show ?thesis
    using renders.published_prefix [OF publishing_published [OF assms(3)] names]
    by (simp add: first_shown_serves)
qed

lemma open_example: "open_path ''/c/a.json''" "open_path ''/c/b.yml''"
proof -
  have "''/c/a.json'' = plain_dir ([''c''] @ [''a.json''])" "''/c/b.yml'' = plain_dir ([''c''] @ [''b.yml''])"
    by (simp_all add: plain_dir_def)
  then show "open_path ''/c/a.json''" "open_path ''/c/b.yml''"
    unfolding open_path_def
    by (intro exI [of _ "[''c'']"] exI [of _ "''a.json''"] exI [of _ "''b.yml''"];
        simp add: shown_name_def plain_name_def)+
qed

definition two_files :: "Published list" where
  "two_files =
     [\<lparr> pb_out = ''/c/a.json'', pb_document = ''new'', pb_mode = None \<rparr>,
      \<lparr> pb_out = ''/c/b.yml'', pb_document = ''new'', pb_mode = None \<rparr>]"

lemma two_files_open: "\<forall>p \<in> set two_files. open_path (pb_out p)" "distinct (map pb_out two_files)"
  using open_example by (simp_all add: two_files_def)

definition quiet_agent :: agent where
  "quiet_agent = \<lparr> ag_spec = quiet_spec, ag_engine = quiet_engine, ag_sha = (\<lambda>_. []) \<rparr>"

definition full_disk :: world where
  "full_disk = \<lparr> wd_now = 7,
     wd_fault = (\<lambda>op. case op of WriteFile p c \<Rightarrow> if p = ''/c/.b.yml.tmp'' then Torn 1 else Goes | _ \<Rightarrow> Goes) \<rparr>"

definition calm :: world where
  "calm = \<lparr> wd_now = 7, wd_fault = (\<lambda>_. Goes) \<rparr>"

theorem publication_is_a_prefix_witness:
  "\<exists>u n. publish_files quiet_agent full_disk two_files [] = (u, False) \<and>
     read_file u ''/c/b.yml'' = serves (take n two_files) [] ''/c/b.yml''"
proof -
  have "write_atomically ''/c/a.json'' ''new'' None
      = Some [WriteFile ''/c/.a.json.tmp'' ''new'', RenameFile ''/c/.a.json.tmp'' ''/c/a.json'']"
    "write_atomically ''/c/b.yml'' ''new'' None
      = Some [WriteFile ''/c/.b.yml.tmp'' ''new'', RenameFile ''/c/.b.yml.tmp'' ''/c/b.yml'']"
    by code_simp+
  then have "\<exists>u. publish_files quiet_agent full_disk two_files [] = (u, False)"
    by (simp add: two_files_def publish_one_def keep_generation_def quiet_agent_def quiet_spec_def
        settings.defs Spec.defs initial_draft_def write_file_def full_disk_def map_of_written)
  then obtain u where u: "publish_files quiet_agent full_disk two_files [] = (u, False)" by blast
  have "publishing quiet_agent full_disk two_files [] u"
    using u two_files_open(1) by (rule publish_files_publishing)
  then show ?thesis
    using publication_is_a_prefix [OF two_files_open] open_example(2) u by blast
qed

section \<open>A publication that succeeds\<close>

lemma hidden_write_open:
  assumes "list_all plain_name ds" and "plain_name (CHR ''.'' # h)" and "open_path q"
    and "write_atomically (plain_dir (ds @ [CHR ''.'' # h])) c m = Some ops" and "seen ops v u"
  shows "map_of u q = map_of v q"
proof -
  let ?p = "plain_dir (ds @ [CHR ''.'' # h])" and ?s = "CHR ''.'' # (CHR ''.'' # h) @ ''.tmp''"
  have "plain_name ?s" using hidden_plain [OF assms(2), of "''.tmp''"] by simp
  then have "q \<noteq> ?p" "q \<noteq> plain_dir (ds @ [?s])"
    using open_visible [OF assms(3)] hidden_not_visible [OF assms(1,2)]
      hidden_not_visible [OF assms(1), of "(CHR ''.'' # h) @ ''.tmp''"] by auto
  moreover have "ops = WriteFile (plain_dir (ds @ [?s])) c
      # (case m of None \<Rightarrow> [] | Some k \<Rightarrow> [SetMode (plain_dir (ds @ [?s])) k])
      @ [RenameFile (plain_dir (ds @ [?s])) ?p]"
    using assms(4) scratch_hidden [OF assms(1,2)]
    by (simp add: write_atomically_def split: option.splits)
  ultimately show ?thesis by (intro seen_frame [OF assms(5)]) (auto split: option.splits)
qed

lemma publish_meta_open:
  assumes "open_path (pb_out p)" and "open_path q"
  shows "read_file (publish_meta ag w revision p v) q = read_file v q"
proof -
  obtain ds n where p: "list_all plain_name ds" "plain_name n" "pb_out p = plain_dir (ds @ [n])"
    using assms(1) by (rule open_pathE)
  have h: "plain_name (CHR ''.'' # n @ ''.meta'')" using hidden_plain [OF p(2)] by simp
  have "meta_path (pb_out p) = Some (plain_dir (ds @ [CHR ''.'' # n @ ''.meta'']))"
    unfolding meta_path_def p(3) by (rule beside_hidden [OF p(1,2)]) simp
  moreover have "map_of (fst (perform (wd_fault w) ops v)) q = map_of v q"
    if "write_atomically (plain_dir (ds @ [CHR ''.'' # n @ ''.meta''])) c (pb_mode p) = Some ops" for c ops
    using hidden_write_open [OF p(1) h assms(2) that perform_seen] .
  ultimately show ?thesis
    by (auto simp: publish_meta_def write_meta_def read_file_def split: option.splits)
qed

lemma publish_metas_open:
  "\<forall>p \<in> set ps. open_path (pb_out p) \<Longrightarrow> open_path q \<Longrightarrow>
   read_file (fold (publish_meta ag w revision) ps v) q = read_file v q"
  by (induction ps arbitrary: v) (simp_all add: publish_meta_open)

lemma publish_one_ok:
  assumes "open_path (pb_out p)" and "open_path q" and "publish_one ag w p v = (u, True)"
  shows "read_file u q = (if q = pb_out p then Some (pb_document p) else read_file v q)"
proof -
  have "publish_after ag w (pb_out p) (pb_document p, pb_mode p) v = Some u"
    using assms(3) by (cases p) (simp add: publish_after_def)
  then show ?thesis using renders.after_self renders.after_other assms(1,2) by fastforce
qed

lemma publish_files_ok:
  assumes "publish_files ag w ps v = (u, True)" and "\<forall>p \<in> set ps. open_path (pb_out p)"
    and "distinct (map pb_out ps)" and "open_path q"
  shows "read_file u q = serves ps v q"
  using assms(1-3)
proof (induction ps arbitrary: v)
  case (Cons p ps)
  then obtain x where x: "publish_one ag w p v = (x, True)" "publish_files ag w ps x = (u, True)"
    by (auto split: prod.splits bool.splits if_splits)
  moreover have "pb_out p \<notin> fst ` (\<lambda>p. (pb_out p, pb_document p)) ` set ps"
    using Cons.prems(3) by (auto simp: image_image)
  then have "map_of (map (\<lambda>p. (pb_out p, pb_document p)) ps) (pb_out p) = None"
    by (simp add: map_of_eq_None_iff)
  ultimately show ?case
    using Cons.IH [OF x(2)] Cons.prems(2,3) publish_one_ok [OF _ assms(4) x(1)] by (auto simp: serves_def)
qed (simp add: serves_def)

lemma serves_member:
  "distinct (map pb_out ps) \<Longrightarrow> p \<in> set ps \<Longrightarrow> serves ps v (pb_out p) = Some (pb_document p)"
proof (induction ps)
  case (Cons a ps)
  show ?case
  proof (cases "p = a")
    case False
    then have "p \<in> set ps" using Cons.prems(2) by simp
    moreover from this have "pb_out p \<noteq> pb_out a"
      using Cons.prems(1) by (metis distinct.simps(2) image_eqI list.simps(9) list.set_map)
    ultimately show ?thesis using Cons.IH Cons.prems(1) by (simp add: serves_def)
  qed (simp add: serves_def)
qed simp

lemma serves_other: "q \<notin> pb_out ` set ps \<Longrightarrow> serves ps v q = read_file v q"
  by (induction ps) (auto simp: serves_def)

lemma publish_result:
  assumes "publish ag w ps revision s = (s', ok)"
  shows "\<exists>v. publish_files ag w ps (sg_volume s) = (v, ok) \<and>
    (if ok
     then sg_volume s' = (if sp_meta (ag_spec ag) then fold (publish_meta ag w revision) ps v else v) \<and>
       sg_metrics s' = count_publish ag w ps revision (sg_metrics s) \<and>
       sg_calls s' = sg_calls s + (if sp_notify_http (ag_spec ag) = None then 0 else 1)
     else s' = s \<lparr> sg_volume := v \<rparr>)"
  using assms by (auto simp: publish_def split: prod.splits bool.splits if_splits)

lemma publish_open_files:
  assumes "publish ag w ps revision s = (s', ok)" and "\<forall>p \<in> set ps. open_path (pb_out p)"
    and "distinct (map pb_out ps)"
  shows "ok \<Longrightarrow> open_path q \<Longrightarrow> read_file (sg_volume s') q = serves ps (sg_volume s) q"
    and "open_path q \<Longrightarrow> \<exists>n \<le> length ps. read_file (sg_volume s') q = serves (take n ps) (sg_volume s) q"
proof -
  obtain v where v: "publish_files ag w ps (sg_volume s) = (v, ok)"
    "ok \<Longrightarrow> sg_volume s' = (if sp_meta (ag_spec ag) then fold (publish_meta ag w revision) ps v else v)"
    "\<not> ok \<Longrightarrow> sg_volume s' = v"
    using publish_result [OF assms(1)] by (auto split: if_splits)
  show whole: "ok \<Longrightarrow> open_path q \<Longrightarrow> read_file (sg_volume s') q = serves ps (sg_volume s) q"
    using publish_files_ok [OF _ assms(2,3)] v publish_metas_open [OF assms(2)] by simp
  assume q: "open_path q"
  obtain n where n: "n \<le> length ps" "\<forall>q. open_path q \<longrightarrow> read_file v q = serves (take n ps) (sg_volume s) q"
    using renders.published_prefix [OF publishing_published [OF publish_files_publishing [OF v(1) assms(2)]]]
      assms(2,3) first_shown_serves by (fastforce simp: comp_def image_subset_iff)
  show "\<exists>n \<le> length ps. read_file (sg_volume s') q = serves (take n ps) (sg_volume s) q"
  proof (cases ok)
    case True
    then show ?thesis using whole q by (intro exI [of _ "length ps"]) simp
  next
    case False
    then show ?thesis using v(3) n q by auto
  qed
qed

text \<open>A publication that reports success left every file of the set whole on the volume, and only
  then is it counted, its digest offered for acknowledgement and the application told; one that
  reports a failure tells nobody and counts no render.\<close>

theorem only_whole_publications_are_announced:
  assumes "publish ag w ps revision s = (s', ok)"
    and "\<forall>p \<in> set ps. open_path (pb_out p)" and "distinct (map pb_out ps)" and "ps \<noteq> []"
  shows "(if ok
     then (\<forall>p \<in> set ps. read_file (sg_volume s') (pb_out p) = Some (pb_document p)) \<and>
       mt_renders (sg_metrics s') = mt_renders (sg_metrics s) + 1 \<and>
       mt_rendered_fingerprint (sg_metrics s') = digest (ag_sha ag) (pb_document (hd ps)) \<and>
       sg_calls s' = sg_calls s + (if sp_notify_http (ag_spec ag) = None then 0 else 1)
     else sg_metrics s' = sg_metrics s \<and> sg_calls s' = sg_calls s)"
proof -
  have whole: "read_file (sg_volume s') (pb_out p) = Some (pb_document p)" if "ok" "p \<in> set ps" for p
    using publish_open_files(1) [OF assms(1-3) that(1), of "pb_out p"] assms(2) that(2)
      serves_member [OF assms(3) that(2)] by simp
  obtain p qs where ps: "ps = p # qs" using assms(4) by (cases ps) auto
  have "mt_renders (count_publish ag w ps revision m) = mt_renders m + 1"
    "mt_rendered_fingerprint (count_publish ag w ps revision m) = digest (ag_sha ag) (pb_document (hd ps))" for m
    by (simp_all add: ps count_publish_def published_def rendered_def generation_def Let_def split: option.splits)
  then show ?thesis using publish_result [OF assms(1)] whole by (auto split: if_splits)
qed

lemma publish_files_goes:
  assumes "\<forall>p \<in> set ps. open_path (pb_out p)" and "wd_fault w = (\<lambda>_. Goes)"
  shows "\<exists>u. publish_files ag w ps v = (u, True)"
  using assms(1)
proof (induction ps arbitrary: v)
  case (Cons p ps)
  obtain x where "publish_one ag w p v = (x, True)"
    using write_file_goes [OF open_visible assms(2)] Cons.prems by (metis list.set_intros(1) publish_one_split)
  then show ?case using Cons by simp
qed simp

lemma publish_goes:
  assumes "\<forall>p \<in> set ps. open_path (pb_out p)" and "wd_fault w = (\<lambda>_. Goes)"
  obtains s' where "publish ag w ps revision s = (s', True)"
  using publish_files_goes [OF assms, of ag "sg_volume s"] by (auto simp: publish_def)

theorem only_whole_publications_are_announced_witness:
  "\<exists>s'. publish quiet_agent calm two_files None \<lparr> sg_volume = [], sg_metrics = no_metrics, sg_calls = 0 \<rparr> = (s', True) \<and>
     read_file (sg_volume s') ''/c/b.yml'' = Some ''new''"
proof -
  have calm: "wd_fault calm = (\<lambda>_. Goes)" by (simp add: calm_def)
  obtain s' where s': "publish quiet_agent calm two_files None
      \<lparr> sg_volume = [], sg_metrics = no_metrics, sg_calls = 0 \<rparr> = (s', True)"
    using publish_goes [OF two_files_open(1) calm] by metis
  then show ?thesis
    using only_whole_publications_are_announced [OF s' two_files_open] by (simp add: two_files_def)
qed

section \<open>Drift\<close>

lemma drifted_None: "drifted ps v = None \<longleftrightarrow> (\<forall>p \<in> set ps. read_file v (pb_out p) = Some (pb_document p))"
  by (induction ps) auto

lemma drifted_Some: "drifted ps v = Some q \<Longrightarrow>
    \<exists>p \<in> set ps. pb_out p = q \<and> read_file v q \<noteq> Some (pb_document p)"
  by (induction ps) (auto split: if_splits)

lemma unchanged_iff:
  "unchanged held fresh \<longleftrightarrow> (\<exists>hs. held = Some hs \<and>
     map (\<lambda>p. (pb_out p, pb_document p)) hs = map (\<lambda>p. (pb_out p, pb_document p)) fresh)"
proof -
  have "length hs = length fs \<and> list_all (\<lambda>(h, f). pb_out h = pb_out f \<and> pb_document h = pb_document f) (zip hs fs)
      \<longleftrightarrow> map (\<lambda>p. (pb_out p, pb_document p)) hs = map (\<lambda>p. (pb_out p, pb_document p)) fs" for hs fs
    by (induction hs fs rule: list_induct2') auto
  then show ?thesis by (auto simp: unchanged_def split: option.splits)
qed

end
