(* ===== verification/Sources.thy ===== *)
theory Sources
  imports AgentSpec
begin

text \<open>
  The stores behind the agent (\<open>sources.rs\<close>): the one-document slot a watch delivers into, and
  \<open>build\<close>, which turns a specification into the calls that make a store's client. The clients are
  other crates: a client is the list of the builder calls it came from, and \<open>refuses\<close> says which
  lists their constructors refuse. A failed \<open>expect\<close> or \<open>unreachable!\<close> is \<open>BuildPanic\<close>.
\<close>

section \<open>The slot\<close>

record 'd slot =
  sl_held :: "'d option"
  sl_unseen :: bool
  sl_open :: bool

definition delivery :: "'d slot" where
  "delivery = \<lparr> sl_held = None, sl_unseen = False, sl_open = True \<rparr>"

text \<open>\<open>Deliver::send\<close>: refused when the reading half is gone.\<close>

definition send :: "'d \<Rightarrow> 'd slot \<Rightarrow> 'd slot option" where
  "send d s = (if sl_open s then Some (s \<lparr> sl_held := Some d, sl_unseen := True \<rparr>) else None)"

text \<open>\<open>Delivered::recv\<close>: the document that has not been taken yet, or nothing to wake for.\<close>

definition recv :: "'d slot \<Rightarrow> ('d \<times> 'd slot) option" where
  "recv s = (if sl_unseen s then map_option (\<lambda>d. (d, s \<lparr> sl_unseen := False \<rparr>)) (sl_held s) else None)"

definition hang_up :: "'d slot \<Rightarrow> 'd slot" where
  "hang_up s = s \<lparr> sl_open := False \<rparr>"

text \<open>What the loop relies on: the latest document wins, and is taken once.\<close>

locale one_slot =
  fixes put :: "'d \<Rightarrow> 's \<Rightarrow> 's option" and take_one :: "'s \<Rightarrow> ('d \<times> 's) option" and fresh :: 's
    and listening :: "'s \<Rightarrow> bool"
  assumes fresh_empty: "take_one fresh = None"
    and fresh_listening: "listening fresh"
    and put_iff: "put d s \<noteq> None \<longleftrightarrow> listening s"
    and put_take: "put d s = Some t \<Longrightarrow> \<exists>u. take_one t = Some (d, u) \<and> take_one u = None \<and> listening u"
    and put_listening: "put d s = Some t \<Longrightarrow> listening t"
begin

fun puts :: "'d list \<Rightarrow> 's \<Rightarrow> 's option" where
  "puts [] s = Some s"
| "puts (d # ds) s = (case put d s of None \<Rightarrow> None | Some t \<Rightarrow> puts ds t)"

lemma puts_snoc: "puts (ds @ [d]) s = (case puts ds s of None \<Rightarrow> None | Some t \<Rightarrow> put d t)"
  by (induction ds arbitrary: s) (auto split: option.splits)

lemma puts_listening: "listening s \<Longrightarrow> \<exists>t. puts ds s = Some t \<and> listening t"
proof (induction ds arbitrary: s)
  case (Cons d ds)
  then obtain t where "put d s = Some t" using put_iff by blast
  then show ?case using Cons.IH put_listening by simp
qed simp

lemma burst_latest:
  assumes "listening s" and "ds \<noteq> []"
  shows "\<exists>t u. puts ds s = Some t \<and> take_one t = Some (last ds, u) \<and> take_one u = None"
proof -
  obtain es d where ds: "ds = es @ [d]" using assms(2) by (metis rev_exhaust)
  obtain t where t: "puts es s = Some t" "listening t" using puts_listening [OF assms(1)] by blast
  then obtain x where "put d t = Some x" using put_iff by blast
  then show ?thesis using put_take t ds by (fastforce simp: puts_snoc)
qed

end

interpretation deliveries: one_slot send recv delivery sl_open
  by unfold_locales (auto simp: send_def recv_def delivery_def split: if_splits)

fun sends :: "'d list \<Rightarrow> 'd slot \<Rightarrow> 'd slot option" where
  "sends [] s = Some s"
| "sends (d # ds) s = (case send d s of None \<Rightarrow> None | Some t \<Rightarrow> sends ds t)"

lemma sends_puts: "sends ds s = deliveries.puts ds s"
  by (induction ds arbitrary: s) (auto split: option.splits)

text \<open>Of a burst of documents the loop takes the last one, once, and nothing waits or is refused
  while it listens.\<close>

theorem burst_delivers_the_last:
  assumes "sl_open s" and "ds \<noteq> []"
  shows "\<exists>t u. sends ds s = Some t \<and> recv t = Some (last ds, u) \<and> recv u = None"
  unfolding sends_puts using assms by (rule deliveries.burst_latest)

theorem burst_delivers_the_last_witness:
  "\<exists>t u. sends [''old'', ''new''] delivery = Some t \<and> recv t = Some (''new'', u) \<and> recv u = None"
  using burst_delivers_the_last [of delivery "[''old'', ''new'']"] by (simp add: delivery_def)

section \<open>Clients\<close>

record tls =
  tl_ca :: "string option"
  tl_pair :: "(string \<times> string) option"
  tl_name :: "string option"
  tl_skip :: bool

datatype call =
    Call string "string list"
  | WithTls tls
  | WithTimeout nat

datatype Built =
    Blocking "call list"
  | Renewable "call list"
  | Async "call list"

text \<open>The config-server client whose bearer is the file, read again for each fetch.\<close>

datatype source = Built Built | RotatingBearer "call list" string

datatype build_error = BuildPanic | NoSlash string | BadRef string | ClientRefused string

definition calls_of :: "source \<Rightarrow> call list" where
  "calls_of b =
     (case b of
        Built (Blocking cs) \<Rightarrow> cs | Built (Renewable cs) \<Rightarrow> cs | Built (Async cs) \<Rightarrow> cs
      | RotatingBearer cs _ \<Rightarrow> cs)"

text \<open>\<open>Built::renew\<close> and \<open>Built::revoke\<close>: only a leased store is asked; \<open>reply\<close> is its answer.\<close>

definition issues_leases :: "source \<Rightarrow> bool" where
  "issues_leases b = (case b of Built (Renewable _) \<Rightarrow> True | _ \<Rightarrow> False)"

definition renew :: "source \<Rightarrow> string + 'l \<Rightarrow> (string + 'l) option" where
  "renew b reply = (if issues_leases b then Some reply else None)"

definition revoke :: "source \<Rightarrow> string + unit \<Rightarrow> (string + unit) option" where
  "revoke b reply = (if issues_leases b then Some reply else None)"

definition tls_config :: "Spec \<Rightarrow> tls" where
  "tls_config s =
     \<lparr> tl_ca = sp_ca s,
       tl_pair = (case (sp_tls_cert s, sp_tls_key s) of (Some c, Some k) \<Rightarrow> Some (c, k) | _ \<Rightarrow> None),
       tl_name = sp_tls_server_name s, tl_skip = sp_tls_skip_verify s \<rparr>"

definition wants_tls :: "Spec \<Rightarrow> bool" where
  "wants_tls s \<longleftrightarrow>
     sp_ca s \<noteq> None \<or> sp_tls_cert s \<noteq> None \<or> sp_tls_server_name s \<noteq> None \<or> sp_tls_skip_verify s"

definition secured :: "Spec \<Rightarrow> call list" where
  "secured s = (if wants_tls s then [WithTls (tls_config s)] else [])"

definition timed :: "Spec \<Rightarrow> call list" where
  "timed s = (case sp_timeout s of None \<Rightarrow> [] | Some t \<Rightarrow> [WithTimeout t])"

definition optional :: "string \<Rightarrow> string option \<Rightarrow> call list" where
  "optional name v = (case v of None \<Rightarrow> [] | Some x \<Rightarrow> [Call name [x]])"

definition expect :: "'a option \<Rightarrow> build_error + 'a" where
  "expect v = ok_or v BuildPanic"

definition accepted :: "(call list \<Rightarrow> string option) \<Rightarrow> (call list \<Rightarrow> source) \<Rightarrow> call list
    \<Rightarrow> build_error + source" where
  "accepted refuses b cs = (case refuses cs of None \<Rightarrow> Inr (b cs) | Some e \<Rightarrow> Inl (ClientRefused e))"

section \<open>One store at a time\<close>

definition consul_calls :: "Spec \<Rightarrow> build_error + call list" where
  "consul_calls s =
     rbind (case sp_auth s of
              None \<Rightarrow> Inr (optional ''with_token'' (sp_token s))
            | Some a \<Rightarrow>
                if a = ''token'' then rbind (expect (sp_token s)) (\<lambda>t. Inr [Call ''with_token'' [t]])
                else if a = ''kubernetes'' then
                  rbind (expect (sp_auth_mount s)) (\<lambda>m.
                  Inr (Call ''Auth::kubernetes'' [m] # optional ''with_bearer_file'' (sp_auth_token_path s)))
                else if a = ''jwt'' then
                  rbind (expect (sp_auth_mount s)) (\<lambda>m.
                  rbind (expect (sp_token s)) (\<lambda>t. Inr [Call ''Auth::jwt'' [m, t]]))
                else Inl BuildPanic) (\<lambda>auth.
     Inr (Call ''Consul::new'' [sp_endpoint s, sp_key s] # auth @ secured s @ timed s))"

definition vault_login :: "Spec \<Rightarrow> build_error + call list" where
  "vault_login s =
     (let a = unwrap_or (sp_auth s) ''token'' in
      if a = ''token'' then rbind (expect (sp_token s)) (\<lambda>t. Inr [Call ''Auth::token'' [t]])
      else if a = ''kubernetes'' then
        rbind (expect (sp_auth_role s)) (\<lambda>r.
        Inr (Call ''Auth::kubernetes'' [r] # optional ''with_token_path'' (sp_auth_token_path s)))
      else if a = ''approle'' then
        rbind (expect (sp_auth_role s)) (\<lambda>r.
        rbind (expect (sp_password s)) (\<lambda>p. Inr [Call ''Auth::app_role'' [r, p]]))
      else if a = ''jwt'' then
        rbind (expect (sp_token s)) (\<lambda>t. Inr (Call ''Auth::jwt'' [t] # optional ''with_role'' (sp_auth_role s)))
      else if a = ''userpass'' then
        rbind (expect (sp_auth_username s)) (\<lambda>u.
        rbind (expect (sp_password s)) (\<lambda>p. Inr [Call ''Auth::userpass'' [u, p]]))
      else if a = ''ldap'' then
        rbind (expect (sp_auth_username s)) (\<lambda>u.
        rbind (expect (sp_password s)) (\<lambda>p. Inr [Call ''Auth::ldap'' [u, p]]))
      else if a = ''cert'' then
        Inr (Call ''Auth::certificate'' [] # optional ''with_role'' (sp_auth_role s))
      else Inl BuildPanic)"

definition build_vault :: "Spec \<Rightarrow> build_error + source" where
  "build_vault s =
     rbind (ok_or (split_once (CHR ''/'') (sp_key s)) (NoSlash ''vault'')) (\<lambda>(mount, path).
     rbind (vault_login s) (\<lambda>auth.
     let store = Call ''Vault::new'' [sp_endpoint s, mount, path] # auth
           @ optional ''at_mount'' (sp_auth_mount s) @ optional ''with_namespace'' (sp_namespace s)
           @ secured s @ timed s in
     Inr (if sp_dynamic s then Built (Renewable (store @ [Call ''with_dynamic'' []]))
          else Built (Blocking store))))"

definition default_token_path :: string where
  "default_token_path = ''/var/run/secrets/kubernetes.io/serviceaccount/token''"

definition build_config_server :: "Spec \<Rightarrow> build_error + source" where
  "build_config_server s =
     rbind (ok_or (split_once (CHR ''/'') (sp_key s)) (NoSlash ''config-server'')) (\<lambda>(application, profile).
     let store = [Call ''ConfigServer::new'' [sp_endpoint s, application, profile]] in
     Inr (if sp_auth s = Some ''kubernetes''
          then RotatingBearer (store @ secured s) (unwrap_or (sp_auth_token_path s) default_token_path)
          else Built (Blocking (store @ optional ''with_token'' (sp_token s) @ secured s @ timed s))))"

definition firestore_calls :: "Spec \<Rightarrow> build_error + call list" where
  "firestore_calls s =
     (let (project, database) =
            (case split_once (CHR ''/'') (sp_endpoint s) of
               Some (p, d) \<Rightarrow> (p, Some d) | None \<Rightarrow> (sp_endpoint s, None));
          a = unwrap_or (sp_auth s) ''metadata-server'' in
      rbind (if a = ''metadata-server'' then Inr [Call ''Auth::metadata_server'' []]
             else if a = ''access-token'' then
               rbind (expect (sp_token s)) (\<lambda>t. Inr [Call ''Auth::access_token'' [t]])
             else if a = ''emulator'' then Inr [Call ''Auth::Emulator'' []]
             else Inl BuildPanic) (\<lambda>auth.
      Inr (Call ''Firestore::new'' [project, sp_key s] # optional ''with_database'' database @ auth
           @ optional ''with_endpoint'' (sp_api_url s) @ secured s @ timed s)))"

definition git_reference :: "Spec \<Rightarrow> build_error + call list" where
  "git_reference s =
     (case sp_reference s of
        None \<Rightarrow> Inr []
      | Some r \<Rightarrow>
          (case split_once (CHR '':'') r of
             None \<Rightarrow> Inr [Call ''branch'' [r]]
           | Some (kind, name) \<Rightarrow>
               if kind = ''branch'' then Inr [Call ''branch'' [name]]
               else if kind = ''tag'' then Inr [Call ''tag'' [name]]
               else if kind = ''commit'' then Inr [Call ''commit'' [name]]
               else Inl (BadRef kind)))"

definition git_credential :: "Spec \<Rightarrow> build_error + call list" where
  "git_credential s =
     (case sp_auth s of
        None \<Rightarrow>
          Inr [case sp_token s of Some t \<Rightarrow> Call ''Credential::token'' [t] | None \<Rightarrow> Call ''Credential::anonymous'' []]
      | Some a \<Rightarrow>
          if a = ''anonymous'' then Inr [Call ''Credential::anonymous'' []]
          else if a = ''token'' then
            rbind (expect (sp_token s)) (\<lambda>t.
            Inr [case sp_auth_username s of
                   Some u \<Rightarrow> Call ''Credential::basic'' [u, t] | None \<Rightarrow> Call ''Credential::token'' [t]])
          else if a = ''ssh'' then Inr [Call ''Credential::ssh_agent'' []]
          else if a = ''ssh-key'' then
            rbind (expect (sp_ssh_key s)) (\<lambda>k. Inr [Call ''Credential::ssh_key'' [k]])
          else Inl BuildPanic)"

definition git_calls :: "Spec \<Rightarrow> build_error + call list" where
  "git_calls s =
     rbind (git_reference s) (\<lambda>r.
     rbind (git_credential s) (\<lambda>c.
     Inr (Call ''GitSource::builder'' [sp_endpoint s] # Call ''path'' [sp_key s] # r @ c @ secured s)))"

definition redis_calls :: "Spec \<Rightarrow> call list" where
  "redis_calls s =
     (if wants_tls s then [Call ''Redis::with_tls'' [sp_endpoint s, sp_key s], WithTls (tls_config s)]
      else [Call ''Redis::new'' [sp_endpoint s, sp_key s]])"

definition etcd_calls :: "Spec \<Rightarrow> build_error + call list" where
  "etcd_calls s =
     rbind (case sp_auth_username s of
              None \<Rightarrow> Inr []
            | Some u \<Rightarrow> rbind (expect (sp_password s)) (\<lambda>p. Inr [Call ''with_user'' [u, p]])) (\<lambda>options.
     Inr (Call ''Etcd'' (sp_key s # map trim (split_on (CHR '','') (sp_endpoint s)))
          # options @ secured s))"

definition nats_calls :: "Spec \<Rightarrow> build_error + call list" where
  "nats_calls s =
     rbind (ok_or (split_once (CHR ''/'') (sp_key s)) (NoSlash ''nats'')) (\<lambda>(bucket, key).
     Inr [case (sp_auth_token_path s, sp_token s) of
            (Some path, _) \<Rightarrow> Call ''with_credentials_file'' [path]
          | (None, Some t) \<Rightarrow> Call ''with_token'' [t]
          | (None, None) \<Rightarrow> Call ''ConnectOptions::new'' [],
          Call ''Nats::with_options'' [sp_endpoint s, bucket, key]])"

definition s3_calls :: "Spec \<Rightarrow> call list" where
  "s3_calls s =
     (case sp_api_url s of
        Some url \<Rightarrow> [Call ''endpoint_url'' [url], Call ''S3::with_config'' [sp_endpoint s, sp_key s]]
      | None \<Rightarrow> [Call ''S3::new'' [sp_endpoint s, sp_key s]])"

definition build :: "(call list \<Rightarrow> string option) \<Rightarrow> Spec \<Rightarrow> build_error + source" where
  "build refuses s =
     (let store = sp_source s; blocking = (\<lambda>cs. Built (Blocking cs));
          ready = accepted refuses (\<lambda>cs. Built (Async cs)) in
      if store = ''etcd'' then rbind (etcd_calls s) ready
      else if store = ''nats'' then rbind (nats_calls s) ready
      else if store = ''s3'' then ready (s3_calls s)
      else if store = ''consul'' then rbind (consul_calls s) (\<lambda>cs. Inr (blocking cs))
      else if store = ''vault'' then build_vault s
      else if store = ''config-server'' then build_config_server s
      else if store = ''firestore'' then rbind (firestore_calls s) (\<lambda>cs. Inr (blocking cs))
      else if store = ''git'' then rbind (git_calls s) (accepted refuses blocking)
      else if store = ''redis'' then accepted refuses blocking (redis_calls s)
      else Inl BuildPanic)"

section \<open>Facts\<close>

lemma expect_eq [simp]: "expect (Some x) = Inr x" "expect None = Inl BuildPanic"
  by (simp_all add: expect_def)

lemma expect_eq_Inl [res_simps]: "expect v = Inl e \<longleftrightarrow> v = None \<and> e = BuildPanic"
  by (cases v) auto

lemma expect_eq_Inr [res_simps]: "expect v = Inr x \<longleftrightarrow> v = Some x"
  by (cases v) auto

lemma accepted_no_panic: "accepted refuses b cs \<noteq> Inl BuildPanic"
  by (simp add: accepted_def split: option.splits)

lemma needs_eq_Inr: "needs a what v = Inr u \<longleftrightarrow> v \<noteq> None"
  by (cases v) (auto simp: needs_def)

text \<open>What each store's constructor relies on is what \<open>validated_auth\<close> checked.\<close>

lemma consul_no_panic: "consul_auth s (sp_auth s) = Inr u \<Longrightarrow> consul_calls s \<noteq> Inl BuildPanic"
  by (cases "sp_token s"; cases "sp_auth_mount s"; cases "sp_auth s")
    (simp_all add: consul_auth_def consul_calls_def needs_def split: if_splits)

lemma vault_login_no_panic: "vault_auth s (sp_auth s) = Inr u \<Longrightarrow> vault_login s \<noteq> Inl BuildPanic"
  by (cases "sp_token s"; cases "sp_auth_role s"; cases "sp_auth_username s"; cases "sp_password s")
    (auto simp: vault_auth_def vault_login_def needs_def Let_def split: if_splits)

lemma vault_no_panic: "vault_auth s (sp_auth s) = Inr u \<Longrightarrow> build_vault s \<noteq> Inl BuildPanic"
  using vault_login_no_panic [of s u]
  by (cases "vault_login s") (auto simp: build_vault_def Let_def res_simps)

lemma firestore_no_panic: "firestore_auth s (sp_auth s) = Inr u \<Longrightarrow> firestore_calls s \<noteq> Inl BuildPanic"
  by (cases "sp_token s"; cases "split_once (CHR ''/'') (sp_endpoint s)")
    (auto simp: firestore_auth_def firestore_calls_def needs_def Let_def split: if_splits)

lemma git_no_panic: "git_auth s (sp_auth s) = Inr u \<Longrightarrow> git_calls s \<noteq> Inl BuildPanic"
proof -
  assume "git_auth s (sp_auth s) = Inr u"
  then have "git_credential s \<noteq> Inl BuildPanic"
    by (cases "sp_token s"; cases "sp_ssh_key s"; cases "sp_auth s")
      (auto simp: git_auth_def git_credential_def needs_def Let_def split: if_splits)
  moreover have "git_reference s \<noteq> Inl BuildPanic"
    by (simp add: git_reference_def split: option.splits prod.splits)
  ultimately show ?thesis by (simp add: git_calls_def res_simps)
qed

lemma config_server_no_panic: "build_config_server s \<noteq> Inl BuildPanic"
  by (auto simp: build_config_server_def res_simps Let_def split: prod.splits)

lemma nats_no_panic: "nats_calls s \<noteq> Inl BuildPanic"
  by (auto simp: nats_calls_def res_simps split: prod.splits)

lemma etcd_no_panic: "sp_auth_username s \<noteq> None \<longrightarrow> sp_password s \<noteq> None \<Longrightarrow> etcd_calls s \<noteq> Inl BuildPanic"
  by (auto simp: etcd_calls_def res_simps split: option.splits)

lemma build_no_panic:
  assumes "sp_source s \<in> set SOURCES" and "validated_auth s = Inr ()"
  shows "build refuses s \<noteq> Inl BuildPanic"
  using assms consul_no_panic [of s] vault_no_panic [of s] firestore_no_panic [of s] git_no_panic [of s]
    config_server_no_panic [of s] nats_no_panic [of s] etcd_no_panic [of s]
  by (auto simp: build_def validated_auth_def SOURCES_def needs_eq_Inr Let_def accepted_no_panic res_simps
      split: if_splits)

lemma from_args_validated:
  assumes "from_args env arguments = Inr s"
  shows "sp_source s \<in> set SOURCES" and "validated_auth s = Inr ()"
proof -
  from assms have "validated s = Inr s"
    using validated_eq by (auto simp: from_args_def res_simps)
  then show "sp_source s \<in> set SOURCES" "validated_auth s = Inr ()"
    by (auto simp: validated_def Let_def res_simps)
qed

text \<open>An agent started from its command line never panics while it builds its store's client: every
  credential the constructors unwrap was checked.\<close>

theorem started_agent_builds_without_panic:
  assumes "from_args env arguments = Inr s"
  shows "build refuses s \<noteq> Inl BuildPanic"
  using from_args_validated [OF assms] by (rule build_no_panic)

theorem started_agent_builds_without_panic_witness:
  "\<exists>s. from_args (\<lambda>_. None) example_line = Inr s \<and> build (\<lambda>_. None) s \<noteq> Inl BuildPanic"
  using example_line_read started_agent_builds_without_panic by blast

text \<open>A specification that skipped \<open>validated\<close> has no such protection.\<close>

lemma unchecked_vault_panics:
  "sp_source s = ''vault'' \<Longrightarrow> sp_auth s = None \<Longrightarrow> sp_token s = None \<Longrightarrow> CHR ''/'' \<in> set (sp_key s) \<Longrightarrow>
   build refuses s = Inl BuildPanic"
  using split_once_None_iff [of "CHR ''/''" "sp_key s"]
  by (auto simp: build_def build_vault_def vault_login_def)

section \<open>Transport security\<close>

lemma tls_of_parts:
  "WithTls t \<in> set (secured s) \<longleftrightarrow> wants_tls s \<and> t = tls_config s"
  "WithTls t \<notin> set (timed s)" "WithTls t \<notin> set (optional name v)"
  by (auto simp: secured_def timed_def optional_def split: option.splits)

lemma tls_of_vault_login: "vault_login s = Inr cs \<Longrightarrow> WithTls t \<notin> set cs"
  by (auto simp: vault_login_def Let_def res_simps tls_of_parts split: if_splits)

lemma tls_of_git: "git_reference s = Inr r \<Longrightarrow> WithTls t \<notin> set r"
  "git_credential s = Inr c \<Longrightarrow> WithTls t \<notin> set c"
  by (auto simp: git_reference_def git_credential_def res_simps split: option.splits prod.splits if_splits)

lemma tls_of_calls:
  "consul_calls s = Inr cs \<Longrightarrow> WithTls t \<in> set cs \<longleftrightarrow> wants_tls s \<and> t = tls_config s"
  "firestore_calls s = Inr cs \<Longrightarrow> WithTls t \<in> set cs \<longleftrightarrow> wants_tls s \<and> t = tls_config s"
  "git_calls s = Inr cs \<Longrightarrow> WithTls t \<in> set cs \<longleftrightarrow> wants_tls s \<and> t = tls_config s"
  "etcd_calls s = Inr cs \<Longrightarrow> WithTls t \<in> set cs \<longleftrightarrow> wants_tls s \<and> t = tls_config s"
  "WithTls t \<in> set (redis_calls s) \<longleftrightarrow> wants_tls s \<and> t = tls_config s"
  "build_vault s = Inr b \<Longrightarrow> WithTls t \<in> set (calls_of b) \<longleftrightarrow> wants_tls s \<and> t = tls_config s"
  "build_config_server s = Inr b \<Longrightarrow> WithTls t \<in> set (calls_of b) \<longleftrightarrow> wants_tls s \<and> t = tls_config s"
        apply (auto simp: consul_calls_def res_simps tls_of_parts split: option.splits if_splits)[1]
       apply (auto simp: firestore_calls_def Let_def res_simps tls_of_parts split: option.splits if_splits prod.splits)[1]
      apply (auto simp: git_calls_def res_simps tls_of_parts tls_of_git)[1]
     apply (auto simp: etcd_calls_def res_simps tls_of_parts split: option.splits)[1]
    apply (auto simp: redis_calls_def)[1]
   apply (auto simp: build_vault_def Let_def res_simps tls_of_parts tls_of_vault_login calls_of_def split: prod.splits if_splits)[1]
  apply (auto simp: build_config_server_def Let_def res_simps tls_of_parts calls_of_def split: prod.splits if_splits)[1]
  done

lemma accepted_Inr: "accepted refuses b cs = Inr x \<longleftrightarrow> refuses cs = None \<and> x = b cs"
  by (auto simp: accepted_def split: option.splits)

text \<open>A client takes exactly the transport security the pod was configured with, for every store but
  NATS and S3, which take none: a custom authority, a client certificate and a server name reach it
  whole, and verification is skipped only where the pod says so.\<close>

theorem clients_take_the_configured_tls:
  assumes "build refuses s = Inr b" and "sp_source s \<notin> {''nats'', ''s3''}"
  shows "(WithTls t \<in> set (calls_of b) \<longleftrightarrow> wants_tls s \<and> t = tls_config s) \<and>
    ((\<exists>t. WithTls t \<in> set (calls_of b) \<and> tl_skip t) \<longleftrightarrow> sp_tls_skip_verify s)"
proof -
  have "WithTls t \<in> set (calls_of b) \<longleftrightarrow> wants_tls s \<and> t = tls_config s" for t
    using assms tls_of_calls(6,7) [of s b t]
    by (auto simp: build_def Let_def res_simps accepted_Inr calls_of_def tls_of_calls split: if_splits)
  then show ?thesis by (auto simp: tls_config_def wants_tls_def)
qed

theorem clients_take_the_configured_tls_witness:
  "\<exists>b t. build (\<lambda>_. None) (settings.extend (settings.truncate ((initial_draft (\<lambda>_. None)) \<lparr> sp_ca := Some ''/ca'' \<rparr>))
       (Spec.fields ''redis'' ''rediss://r'' ''k'' ''/c/a.json'' [])) = Inr b \<and>
     WithTls t \<in> set (calls_of b) \<and> tl_ca t = Some ''/ca'' \<and> \<not> tl_skip t"
proof -
  let ?s = "settings.extend (settings.truncate ((initial_draft (\<lambda>_. None)) \<lparr> sp_ca := Some ''/ca'' \<rparr>))
       (Spec.fields ''redis'' ''rediss://r'' ''k'' ''/c/a.json'' [])"
  have fields: "sp_source ?s = ''redis''" "wants_tls ?s" "tl_ca (tls_config ?s) = Some ''/ca''" "\<not> tl_skip (tls_config ?s)"
    by (simp_all add: wants_tls_def tls_config_def settings.defs Spec.defs initial_draft_def)
  obtain b where b: "build (\<lambda>_. None) ?s = Inr b"
    using fields(1) by (simp add: build_def accepted_def)
  then show ?thesis
    using clients_take_the_configured_tls [OF b, of "tls_config ?s"] fields by auto
qed

text \<open>The projected identity drops the deadline a pod asked for.\<close>

lemma projected_identity_has_no_deadline:
  "build_config_server s = Inr (RotatingBearer cs p) \<Longrightarrow> WithTimeout t \<notin> set cs"
  by (auto simp: build_config_server_def Let_def res_simps secured_def split: prod.splits if_splits)

end
