(* ===== verification/Sidecar.thy ===== *)
theory Sidecar
  imports Publish Sources Canary Trust
begin

text \<open>
  The sidecar loop (\<open>sidecar.rs\<close>: \<open>run_from\<close>). One \<open>select!\<close> arm is one step; the watch task, the
  spawned resync, the notification calls and whatever else writes to the volume take steps of their
  own between them, in any order. The answers of the store, of the clock and of the file system come with the
  step. The steps themselves do not overlap. For the files that leaves out one case: the task of a resync that
  empties the files of a deleted document, under \<open>--on-delete remove\<close>, is one step here and runs beside the
  loop's own publications in the process (\<open>Supervisor.overlapping_emptying_tears\<close>); what is claimed of the
  files over whole runs supposes no such emptying. \<open>Pace\<close> (crate \<open>dynamic_config\<close>) and the product of a duration by a
  fraction are parameters.
\<close>

section \<open>The loop's configuration and state\<close>

record 'p loop = agent +
  lp_source :: source
  lp_native :: bool
  lp_interval :: nat
  lp_material :: "Material option"
  lp_cohort :: "nat option"
  lp_reporting :: bool
  lp_hears :: bool
  lp_pace :: "nat \<Rightarrow> 'p"
  lp_succeeded :: "'p \<Rightarrow> 'p"
  lp_failed :: "'p \<Rightarrow> 'p"
  lp_next_wait :: "'p \<Rightarrow> nat \<times> 'p"
  lp_spread :: "'p \<Rightarrow> nat \<Rightarrow> nat \<times> 'p"
  lp_mul :: "nat \<Rightarrow> nat \<Rightarrow> nat"
  lp_show :: "render_error \<Rightarrow> string"

record 'p sidecar = stage +
  sc_rendered :: "Published list option"
  sc_withheld :: "Published list option"
  sc_lease :: "Lease option"
  sc_renew_in :: nat
  sc_pace :: 'p
  sc_reopening :: 'p
  sc_slot :: "Fetched slot"
  sc_resyncing :: "bool option"
  sc_gone :: bool
  sc_heard :: "Fetched list"
  sc_events :: "(string \<times> string) list"
  sc_renewed :: "Lease list"
  sc_revoked :: "Lease list"

text \<open>
  \<open>sc_resyncing\<close>: none in flight, one in flight (\<open>Some True\<close>), or one that ended and was not reaped.
  \<open>sc_heard\<close>, \<open>sc_events\<close>, \<open>sc_renewed\<close> and \<open>sc_revoked\<close> record what the caller, the API server and
  the store were told.
\<close>

datatype loop_error =
    RenderRefused render_error
  | WriteFailed
  | FirstFetchFailed string
  | DocumentGone
  | WrittenByAnother

datatype ended = Stopped | Rebuild | Died loop_error

datatype answer = Got Fetched | Absent string | Unreachable string

definition RENEW_AT :: nat where "RENEW_AT = 65"

definition REFETCH_AT :: nat where "REFETCH_AT = 90"

definition SECOND :: nat where "SECOND = 1000000000"

definition renew_after :: "('p, 'x) loop_scheme \<Rightarrow> Lease option \<Rightarrow> 'p \<Rightarrow> nat \<times> 'p" where
  "renew_after lp lease pace =
     (case lease of
        None \<Rightarrow> (3600 * SECOND, pace)
      | Some l \<Rightarrow>
          lp_spread lp pace
            (max (lp_mul lp (ls_ttl l) (if ls_renewable l then RENEW_AT else REFETCH_AT)) 1000000))"

definition ttl_seconds :: "Lease \<Rightarrow> u64" where
  "ttl_seconds l = of_nat (ls_ttl l div SECOND)"

section \<open>Counting\<close>

definition counted :: "(metrics \<Rightarrow> metrics) \<Rightarrow> 'a stage_scheme \<Rightarrow> 'a stage_scheme" where
  "counted f s = s \<lparr> sg_metrics := f (sg_metrics s) \<rparr>"

definition report :: "('p, 'x) loop_scheme \<Rightarrow> string \<Rightarrow> string \<Rightarrow> ('p, 'y) sidecar_scheme \<Rightarrow> ('p, 'y) sidecar_scheme" where
  "report lp reason message s =
     (if lp_reporting lp then s \<lparr> sc_events := sc_events s @ [(reason, message)] \<rparr> else s)"

definition base :: "('p, 'x) loop_scheme \<Rightarrow> agent" where
  "base lp = agent.truncate lp"

section \<open>Starting\<close>

text \<open>\<open>recovered\<close>: what is served when the first fetch failed.\<close>

fun touch_missing :: "world \<Rightarrow> Rendering list \<Rightarrow> volume \<Rightarrow> volume \<times> bool" where
  "touch_missing w [] v = (v, True)"
| "touch_missing w (r # rs) v =
     (if read_file v (rd_out r) = None
      then (case write_file w (rd_out r) [] (rd_mode r) v of
              (u, True) \<Rightarrow> touch_missing w rs u
            | (u, False) \<Rightarrow> (u, False))
      else touch_missing w rs v)"

definition recovered :: "world \<Rightarrow> Spec \<Rightarrow> string \<Rightarrow> 'a stage_scheme
    \<Rightarrow> 'a stage_scheme \<times> (loop_error + Published list)" where
  "recovered w spec message s =
     (case sp_startup_policy spec of
        RequireFresh \<Rightarrow> (s, Inl (FirstFetchFailed message))
      | AllowCached \<Rightarrow>
          (case read_file (sg_volume s) (sp_out spec) of
             Some cached \<Rightarrow>
               if trim cached \<noteq> [] then (counted failed s, Inr (on_disk spec cached (sg_volume s)))
               else (s, Inl (FirstFetchFailed message))
           | None \<Rightarrow> (s, Inl (FirstFetchFailed message)))
      | BestEffort \<Rightarrow>
          (let s1 = counted failed s;
               existing = unwrap_or (read_file (sg_volume s1) (sp_out spec)) [];
               (v1, ok1) = (if existing = [] then write_file w (sp_out spec) [] (sp_file_mode spec) (sg_volume s1)
                            else (sg_volume s1, True));
               (v2, ok2) = (if ok1 then touch_missing w (sp_also spec) v1 else (v1, False)) in
           (s1 \<lparr> sg_volume := v2 \<rparr>,
            if ok2 then Inr (on_disk spec existing v2) else Inl WriteFailed)))"

definition fresh_sidecar :: "('p, 'x) loop_scheme \<Rightarrow> volume \<Rightarrow> metrics \<Rightarrow> 'p sidecar" where
  "fresh_sidecar lp v m =
     \<lparr> sg_volume = v, sg_metrics = m, sg_calls = 0, sc_rendered = None, sc_withheld = None,
       sc_lease = None, sc_renew_in = 0, sc_pace = lp_pace lp (lp_interval lp),
       sc_reopening = lp_pace lp (lp_interval lp), sc_slot = delivery, sc_resyncing = None,
       sc_gone = False, sc_heard = [], sc_events = [], sc_renewed = [], sc_revoked = [] \<rparr>"

definition hear :: "('p, 'x) loop_scheme \<Rightarrow> Fetched \<Rightarrow> 'p sidecar \<Rightarrow> 'p sidecar" where
  "hear lp d s = (if lp_hears lp then s \<lparr> sc_heard := sc_heard s @ [d] \<rparr> else s)"

definition first_document :: "('p, 'x) loop_scheme \<Rightarrow> world \<Rightarrow> Fetched \<Rightarrow> 'p sidecar
    \<Rightarrow> 'p sidecar \<times> (loop_error + unit)" where
  "first_document lp w d s =
     (case render_all (ag_engine lp) d (ag_spec lp) of
        Inl e \<Rightarrow> (s, Inl (RenderRefused e))
      | Inr fresh \<Rightarrow>
          (case publish (base lp) w fresh (ft_revision d) s of
             (s1, False) \<Rightarrow> (s1, Inl WriteFailed)
           | (s1, True) \<Rightarrow>
               let s2 = (hear lp d s1) \<lparr> sc_lease := ft_lease d, sc_rendered := Some fresh \<rparr> in
               (case ft_lease d of
                  None \<Rightarrow> (s2, Inr ())
                | Some l \<Rightarrow> (counted (lease_held (ttl_seconds l)) s2, Inr ()))))"

definition begin_loop :: "('p, 'x) loop_scheme \<Rightarrow> world \<Rightarrow> answer \<Rightarrow> volume \<Rightarrow> metrics
    \<Rightarrow> 'p sidecar \<times> (loop_error + unit)" where
  "begin_loop lp w first v m =
     (let s = fresh_sidecar lp v m;
          (s1, r) = (case first of
             Got d \<Rightarrow> first_document lp w d s
           | Absent e \<Rightarrow>
               (case recovered w (ag_spec lp) e s of
                  (t, Inl x) \<Rightarrow> (t, Inl x) | (t, Inr held) \<Rightarrow> (t \<lparr> sc_rendered := Some held \<rparr>, Inr ()))
           | Unreachable e \<Rightarrow>
               (case recovered w (ag_spec lp) e s of
                  (t, Inl x) \<Rightarrow> (t, Inl x) | (t, Inr held) \<Rightarrow> (t \<lparr> sc_rendered := Some held \<rparr>, Inr ())));
          s2 = (case r of Inl _ \<Rightarrow> s1 | Inr _ \<Rightarrow>
             let (t, pace) = renew_after lp (sc_lease s1) (sc_pace s1) in
             counted watch_up (s1 \<lparr> sc_renew_in := t, sc_pace := pace \<rparr>)) in
      (s2, r))"

section \<open>A document\<close>

text \<open>What follows an arm that yielded a document; \<open>cohort_file\<close> is the canary's file as it reads now.\<close>

definition held_back :: "('p, 'x) loop_scheme \<Rightarrow> string option \<Rightarrow> bool" where
  "held_back lp cohort_file \<longleftrightarrow>
     (case (lp_cohort lp, sp_canary (ag_spec lp)) of
        (Some b, Some _) \<Rightarrow> \<not> admitted b (percent cohort_file)
      | _ \<Rightarrow> False)"

definition take_document :: "('p, 'x) loop_scheme \<Rightarrow> world \<Rightarrow> string option \<Rightarrow> Fetched \<Rightarrow> 'p sidecar
    \<Rightarrow> 'p sidecar" where
  "take_document lp w cohort_file d s =
     (let s1 = s \<lparr> sc_pace := lp_succeeded lp (sc_pace s) \<rparr> in
      case render_all (ag_engine lp) d (ag_spec lp) of
        Inl e \<Rightarrow> report lp ''RenderFailed'' (lp_show lp e) (counted failed s1)
      | Inr fresh \<Rightarrow>
          if unchanged (sc_rendered s1) fresh then s1
          else if held_back lp cohort_file then
            (counted (canary_holding (percent cohort_file)) s1) \<lparr> sc_withheld := Some fresh \<rparr>
          else
            (case publish (base lp) w fresh (ft_revision d) (hear lp d s1) of
               (s2, True) \<Rightarrow> s2 \<lparr> sc_rendered := Some fresh \<rparr>
             | (s2, False) \<Rightarrow> counted failed s2))"

section \<open>The arms\<close>

definition stop_arm :: "('p, 'x) loop_scheme \<Rightarrow> (string + unit) option \<Rightarrow> 'p sidecar \<Rightarrow> 'p sidecar" where
  "stop_arm lp reply s =
     (case sc_lease s of
        Some l \<Rightarrow>
          if sp_revoke_on_shutdown (ag_spec lp)
          then (let s1 = (if issues_leases (lp_source lp) then s \<lparr> sc_revoked := sc_revoked s @ [l] \<rparr> else s) in
                case map_option (revoke (lp_source lp)) reply of
                  Some (Some (Inr _)) \<Rightarrow> counted lease_revoked s1
                | _ \<Rightarrow> s1)
          else s
      | None \<Rightarrow> s)"

definition arrive_arm :: "('p, 'x) loop_scheme \<Rightarrow> world \<Rightarrow> string option \<Rightarrow> 'p sidecar \<Rightarrow> 'p sidecar option" where
  "arrive_arm lp w cohort_file s =
     map_option (\<lambda>(d, slot).
       take_document lp w cohort_file d
         (counted (delivered (wd_now w)) (s \<lparr> sc_slot := slot, sc_reopening := lp_succeeded lp (sc_reopening s) \<rparr>)))
       (recv (sc_slot s))"

definition schedule :: "('p, 'x) loop_scheme \<Rightarrow> Lease option \<Rightarrow> 'p sidecar \<Rightarrow> 'p sidecar" where
  "schedule lp lease s =
     (let (t, pace) = renew_after lp lease (sc_pace s) in
      s \<lparr> sc_renew_in := t, sc_pace := pace, sc_lease := lease \<rparr>)"

definition reissue :: "('p, 'x) loop_scheme \<Rightarrow> world \<Rightarrow> string option \<Rightarrow> answer \<Rightarrow> 'p sidecar \<Rightarrow> 'p sidecar" where
  "reissue lp w cohort_file fetched s =
     (case fetched of
        Got d \<Rightarrow> take_document lp w cohort_file d (schedule lp (ft_lease d) s)
      | _ \<Rightarrow> counted failed s)"

definition renewal_arm :: "('p, 'x) loop_scheme \<Rightarrow> world \<Rightarrow> string option \<Rightarrow> string + Lease \<Rightarrow> answer \<Rightarrow> 'p sidecar
    \<Rightarrow> 'p sidecar option" where
  "renewal_arm lp w cohort_file reply fetched s =
     map_option (\<lambda>l.
       if ls_renewable l then
         (let s1 = (if issues_leases (lp_source lp) then s \<lparr> sc_renewed := sc_renewed s @ [l] \<rparr> else s) in
          case renew (lp_source lp) reply of
            Some (Inr granted) \<Rightarrow>
              schedule lp (Some granted) (counted (lease_renewed (ttl_seconds granted)) s1)
          | Some (Inl _) \<Rightarrow> reissue lp w cohort_file fetched (counted lease_renewal_failed s1)
          | None \<Rightarrow> s1)
       else reissue lp w cohort_file fetched s) (sc_lease s)"

definition canary_arm :: "('p, 'x) loop_scheme \<Rightarrow> world \<Rightarrow> string option \<Rightarrow> 'p sidecar \<Rightarrow> 'p sidecar option" where
  "canary_arm lp w cohort_file s =
     map_option (\<lambda>fresh.
       let p = (if sp_canary (ag_spec lp) = None then None else percent cohort_file) in
       if admitted (unwrap_or (lp_cohort lp) 0) p
       then (case publish (base lp) w fresh None (counted (canary_admitted p) (s \<lparr> sc_withheld := None \<rparr>)) of
               (s1, True) \<Rightarrow> s1 \<lparr> sc_rendered := Some fresh \<rparr>
             | (s1, False) \<Rightarrow> counted failed s1)
       else s) (sc_withheld s)"

definition drift_arm :: "('p, 'x) loop_scheme \<Rightarrow> world \<Rightarrow> 'p sidecar \<Rightarrow> ('p sidecar \<times> ended option) option" where
  "drift_arm lp w s =
     map_option (\<lambda>ps.
       case drifted ps (sg_volume s) of
         None \<Rightarrow> (counted undrifted s, None)
       | Some _ \<Rightarrow>
           (let s1 = counted mt_drifted s in
            case sp_on_drift (ag_spec lp) of
              Warn \<Rightarrow> (s1, None)
            | Repair \<Rightarrow>
                (case publish (base lp) w ps None s1 of
                   (s2, False) \<Rightarrow> (counted failed s2, None)
                 | (s2, True) \<Rightarrow> (counted undrifted s2, None))
            | DriftFail \<Rightarrow> (s1, Some (Died WrittenByAnother)))) (sc_rendered s)"

text \<open>The spawned resync, when the store has answered it.\<close>

fun empty_files :: "world \<Rightarrow> string list \<Rightarrow> volume \<Rightarrow> volume" where
  "empty_files w [] v = v"
| "empty_files w (p # ps) v = empty_files w ps (fst (write_file w p [] None v))"

definition outputs :: "Spec \<Rightarrow> string list" where
  "outputs s = sp_out s # map rd_out (sp_also s)"

definition resync_task :: "('p, 'x) loop_scheme \<Rightarrow> world \<Rightarrow> answer \<Rightarrow> 'p sidecar \<Rightarrow> 'p sidecar" where
  "resync_task lp w fetched s =
     (case fetched of
        Got d \<Rightarrow>
          (counted (resynced (wd_now w)) s) \<lparr> sc_slot := unwrap_or (send d (sc_slot s)) (sc_slot s) \<rparr>
      | Absent e \<Rightarrow>
          (let s1 = report lp ''DocumentAbsent'' e (counted absent s) in
           case sp_on_delete (ag_spec lp) of
             Retain \<Rightarrow> s1
           | Remove \<Rightarrow> s1 \<lparr> sg_volume := empty_files w (outputs (ag_spec lp)) (sg_volume s1) \<rparr>
           | DeleteFail \<Rightarrow> s1 \<lparr> sc_gone := True \<rparr>)
      | Unreachable e \<Rightarrow> counted failed s)"

datatype watch_end = WatchDone | WatchFailed string | WatchPanicked string

definition reopen_arm :: "('p, 'x) loop_scheme \<Rightarrow> watch_end \<Rightarrow> 'p sidecar \<Rightarrow> 'p sidecar" where
  "reopen_arm lp how s =
     (let s1 = (case how of WatchFailed _ \<Rightarrow> counted failed s | _ \<Rightarrow> s);
          pace = lp_failed lp (sc_reopening s1);
          (wait, pace1) = lp_next_wait lp pace in
      counted watch_up (counted watch_down s1 \<lparr> sc_reopening := pace1 \<rparr>))"

section \<open>Steps and runs\<close>

datatype event =
    Stop "(string + unit) option"
  | Arrive
  | GoneSeen
  | RenewalTick "string + Lease" answer
  | TrustTick disk disk disk
  | CanaryTick
  | DriftTick
  | ResyncTick
  | ResyncReaped
  | WatchEnded watch_end
  | WatchDelivers Fetched
  | ResyncAnswers answer
  | CallAnswered "nat option"
  | Elsewhere fs_op

text \<open>\<open>notify\<close>: what the application answered, or nothing.\<close>

definition call_answered :: "nat option \<Rightarrow> 'a stage_scheme \<Rightarrow> 'a stage_scheme" where
  "call_answered status s =
     counted (case status of
         Some n \<Rightarrow> if 200 \<le> n \<and> n < 400 then notified else notification_failed
       | None \<Rightarrow> notification_failed) (s \<lparr> sg_calls := sg_calls s - 1 \<rparr>)"

definition trust_arm :: "('p, 'x) loop_scheme \<Rightarrow> disk \<Rightarrow> disk \<Rightarrow> disk \<Rightarrow> 'p sidecar
    \<Rightarrow> ('p sidecar \<times> ended option) option" where
  "trust_arm lp d1 d2 d3 s =
     map_option (\<lambda>m.
       if settled_change (ag_sha lp) d1 d2 d3 m then (counted tls_reloaded s, Some Rebuild)
       else (s, None)) (lp_material lp)"

inductive step :: "('p, 'x) loop_scheme \<Rightarrow> world \<Rightarrow> string option \<Rightarrow> 'p sidecar \<Rightarrow> event \<Rightarrow> 'p sidecar
    \<Rightarrow> ended option \<Rightarrow> bool" for lp w c where
  stopped: "step lp w c s (Stop reply) (stop_arm lp reply s) (Some Stopped)"
| arrives: "arrive_arm lp w c s = Some t \<Longrightarrow> step lp w c s Arrive t None"
| gone: "sc_gone s \<Longrightarrow> step lp w c s GoneSeen s (Some (Died DocumentGone))"
| renews: "renewal_arm lp w c reply fetched s = Some t \<Longrightarrow> step lp w c s (RenewalTick reply fetched) t None"
| trusts: "trust_arm lp d1 d2 d3 s = Some (t, e) \<Longrightarrow> step lp w c s (TrustTick d1 d2 d3) t e"
| widens: "canary_arm lp w c s = Some t \<Longrightarrow> step lp w c s CanaryTick t None"
| drifts: "drift_arm lp w s = Some (t, e) \<Longrightarrow> step lp w c s DriftTick t e"
| resyncs: "lp_native lp \<Longrightarrow> sc_resyncing s = None \<Longrightarrow>
    step lp w c s ResyncTick (s \<lparr> sc_resyncing := Some True \<rparr>) None"
| reaps: "sc_resyncing s = Some False \<Longrightarrow> step lp w c s ResyncReaped (s \<lparr> sc_resyncing := None \<rparr>) None"
| reopens: "step lp w c s (WatchEnded how) (reopen_arm lp how s) None"
| watch_delivers: "send d (sc_slot s) = Some slot \<Longrightarrow>
    step lp w c s (WatchDelivers d) (s \<lparr> sc_slot := slot \<rparr>) None"
| resync_answers: "sc_resyncing s = Some True \<Longrightarrow>
    step lp w c s (ResyncAnswers fetched) ((resync_task lp w fetched s) \<lparr> sc_resyncing := Some False \<rparr>) None"
| answered: "0 < sg_calls s \<Longrightarrow> step lp w c s (CallAnswered status) (call_answered status s) None"
| elsewhere: "fs_apply op (sg_volume s) = Some v \<Longrightarrow>
    step lp w c s (Elsewhere op) (s \<lparr> sg_volume := v \<rparr>) None"

inductive_cases stepE: "step lp w c s ev t e"
inductive_simps step_simps:
  "step lp w c s Arrive t e" "step lp w c s CanaryTick t e" "step lp w c s DriftTick t e"
  "step lp w c s (RenewalTick reply fetched) t e" "step lp w c s (ResyncAnswers fetched) t e"
  "step lp w c s (Stop reply) t e"

text \<open>Each step at a moment of its own.\<close>

inductive run :: "('p, 'x) loop_scheme \<Rightarrow> 'p sidecar \<Rightarrow> event list \<Rightarrow> 'p sidecar \<Rightarrow> bool" for lp s where
  run_here: "run lp s [] s"
| run_on: "run lp s evs t \<Longrightarrow> step lp w c t ev u e \<Longrightarrow> run lp s (evs @ [ev]) u"

section \<open>The init mode\<close>

text \<open>\<open>main.rs\<close>: without \<open>--watch\<close>, one fetch and one file.\<close>

definition run_once :: "('p, 'x) loop_scheme \<Rightarrow> world \<Rightarrow> answer \<Rightarrow> 'a stage_scheme
    \<Rightarrow> 'a stage_scheme \<times> (loop_error + unit)" where
  "run_once lp w fetched s =
     (case fetched of
        Got d \<Rightarrow>
          (case render_fetched (ag_engine lp) d (ag_spec lp) of
             Inl e \<Rightarrow> (s, Inl (RenderRefused e))
           | Inr text \<Rightarrow>
               (case write_file w (sp_out (ag_spec lp)) text (sp_file_mode (ag_spec lp)) (sg_volume s) of
                  (v, False) \<Rightarrow> (s \<lparr> sg_volume := v \<rparr>, Inl WriteFailed)
                | (v, True) \<Rightarrow> (counted (rendered (wd_now w)) (s \<lparr> sg_volume := v \<rparr>), Inr ())))
      | Absent e \<Rightarrow> (s, Inl (FirstFetchFailed e))
      | Unreachable e \<Rightarrow> (s, Inl (FirstFetchFailed e)))"

end
