(* ===== verification/Served.thy ===== *)
theory Served
  imports Sidecar
begin

text \<open>
  What an application beside the sidecar finds in its files: the invariant of every run of the loop,
  under every order of the loop's steps, refusal and answer of the store.
\<close>

section \<open>Where a text may come from\<close>

definition rendered_from :: "('p, 'x) loop_scheme \<Rightarrow> Fetched set \<Rightarrow> string \<Rightarrow> string \<Rightarrow> bool" where
  "rendered_from lp D p x \<longleftrightarrow>
     (\<exists>d \<in> D. \<exists>ps. render_all (ag_engine lp) d (ag_spec lp) = Inr ps \<and>
        (\<exists>q \<in> set ps. pb_out q = p \<and> pb_document q = x))"

definition allowed :: "('p, 'x) loop_scheme \<Rightarrow> volume \<Rightarrow> Fetched set \<Rightarrow> string \<Rightarrow> string \<Rightarrow> bool" where
  "allowed lp v0 D p x \<longleftrightarrow> read_file v0 p = Some x \<or> x = [] \<or> rendered_from lp D p x"

definition set_ok :: "('p, 'x) loop_scheme \<Rightarrow> volume \<Rightarrow> Fetched set \<Rightarrow> Published list \<Rightarrow> bool" where
  "set_ok lp v0 D ps \<longleftrightarrow>
     map pb_out ps = outputs (ag_spec lp) \<and> (\<forall>q \<in> set ps. allowed lp v0 D (pb_out q) (pb_document q))"

definition files_ok :: "('p, 'x) loop_scheme \<Rightarrow> volume \<Rightarrow> Fetched set \<Rightarrow> volume \<Rightarrow> bool" where
  "files_ok lp v0 D v \<longleftrightarrow>
     (\<forall>p. open_path p \<longrightarrow>
        read_file v p = read_file v0 p \<or> (\<exists>x. read_file v p = Some x \<and> allowed lp v0 D p x))"

definition serving :: "('p, 'x) loop_scheme \<Rightarrow> volume \<Rightarrow> Fetched set \<Rightarrow> 'p sidecar \<Rightarrow> bool" where
  "serving lp v0 D s \<longleftrightarrow>
     files_ok lp v0 D (sg_volume s) \<and> pred_option (set_ok lp v0 D) (sc_rendered s) \<and>
     pred_option (set_ok lp v0 D) (sc_withheld s) \<and> pred_option (\<lambda>d. d \<in> D) (sl_held (sc_slot s))"

definition outputs_open :: "('p, 'x) loop_scheme \<Rightarrow> bool" where
  "outputs_open lp \<longleftrightarrow>
     (\<forall>p \<in> set (outputs (ag_spec lp)). open_path p) \<and> distinct (outputs (ag_spec lp))"

text \<open>The documents that reach the loop with an event.\<close>

fun answered :: "answer \<Rightarrow> Fetched set" where
  "answered (Got d) = {d}"
| "answered (Absent e) = {}"
| "answered (Unreachable e) = {}"

fun event_documents :: "event \<Rightarrow> Fetched set" where
  "event_documents (RenewalTick reply a) = answered a"
| "event_documents (WatchDelivers d) = {d}"
| "event_documents (ResyncAnswers a) = answered a"
| "event_documents ev = {}"

definition documents :: "answer \<Rightarrow> event list \<Rightarrow> Fetched set" where
  "documents first evs = answered first \<union> \<Union> (event_documents ` set evs)"

fun by_another :: "event \<Rightarrow> bool" where
  "by_another (Elsewhere op) = True"
| "by_another ev = False"

section \<open>Preservation\<close>

lemma base_fields [simp]:
  "ag_spec (base lp) = ag_spec lp" "ag_engine (base lp) = ag_engine lp" "ag_sha (base lp) = ag_sha lp"
  by (simp_all add: base_def agent.defs)

lemma counted_fields [simp]:
  "sg_volume (counted f s) = sg_volume s" "sg_calls (counted f s) = sg_calls s"
  "sg_metrics (counted f s) = f (sg_metrics s)" "sc_rendered (counted f t) = sc_rendered t"
  "sc_withheld (counted f t) = sc_withheld t" "sc_slot (counted f t) = sc_slot t"
  "sc_lease (counted f t) = sc_lease t" "sc_heard (counted f t) = sc_heard t"
  "sc_revoked (counted f t) = sc_revoked t" "sc_renewed (counted f t) = sc_renewed t"
  "sc_gone (counted f t) = sc_gone t" "sc_resyncing (counted f t) = sc_resyncing t"
  by (simp_all add: counted_def)

lemma report_fields [simp]:
  "sg_volume (report lp r m s) = sg_volume s" "sg_metrics (report lp r m s) = sg_metrics s"
  "sg_calls (report lp r m s) = sg_calls s"
  "sc_rendered (report lp r m s) = sc_rendered s" "sc_withheld (report lp r m s) = sc_withheld s"
  "sc_slot (report lp r m s) = sc_slot s" "sc_lease (report lp r m s) = sc_lease s"
  "sc_gone (report lp r m s) = sc_gone s" "sc_heard (report lp r m s) = sc_heard s"
  "sc_revoked (report lp r m s) = sc_revoked s" "sc_renewed (report lp r m s) = sc_renewed s"
  by (simp_all add: report_def)

lemma hear_fields [simp]:
  "sg_volume (hear lp d s) = sg_volume s" "sg_metrics (hear lp d s) = sg_metrics s"
  "sg_calls (hear lp d s) = sg_calls s"
  "sc_rendered (hear lp d s) = sc_rendered s" "sc_withheld (hear lp d s) = sc_withheld s"
  "sc_slot (hear lp d s) = sc_slot s" "sc_lease (hear lp d s) = sc_lease s"
  "sc_revoked (hear lp d s) = sc_revoked s" "sc_renewed (hear lp d s) = sc_renewed s"
  by (simp_all add: hear_def)

lemma publish_keeps:
  assumes "publish ag w ps r s = (s', ok)"
  shows "sc_rendered s' = sc_rendered s" "sc_withheld s' = sc_withheld s" "sc_slot s' = sc_slot s"
    "sc_lease s' = sc_lease s" "sc_heard s' = sc_heard s" "sc_revoked s' = sc_revoked s"
    "sc_renewed s' = sc_renewed s"
  using assms by (auto simp: publish_def split: prod.splits bool.splits)

lemma schedule_fields [simp]:
  "sg_volume (schedule lp l s) = sg_volume s" "sg_metrics (schedule lp l s) = sg_metrics s"
  "sc_rendered (schedule lp l s) = sc_rendered s" "sc_withheld (schedule lp l s) = sc_withheld s"
  "sc_slot (schedule lp l s) = sc_slot s" "sc_lease (schedule lp l s) = l"
  "sc_revoked (schedule lp l s) = sc_revoked s" "sc_renewed (schedule lp l s) = sc_renewed s"
  by (simp_all add: schedule_def split: prod.splits)

lemma set_ok_outs:
  assumes "set_ok lp v0 D ps" and "outputs_open lp"
  shows "\<forall>p \<in> set ps. open_path (pb_out p)" and "distinct (map pb_out ps)"
proof -
  have outs: "map pb_out ps = outputs (ag_spec lp)" using assms(1) by (simp add: set_ok_def)
  then show "distinct (map pb_out ps)" using assms(2) by (simp add: outputs_open_def)
  have "set (outputs (ag_spec lp)) = pb_out ` set ps" using outs by (metis list.set_map)
  then show "\<forall>p \<in> set ps. open_path (pb_out p)" using assms(2) by (simp add: outputs_open_def)
qed

lemma files_ok_serves:
  assumes "files_ok lp v0 D v" and "set_ok lp v0 D ps"
    and "\<And>q. open_path q \<Longrightarrow> \<exists>n \<le> length ps. read_file u q = serves (take n ps) v q"
  shows "files_ok lp v0 D u"
proof -
  have "read_file u q = read_file v0 q \<or> (\<exists>x. read_file u q = Some x \<and> allowed lp v0 D q x)"
    if q: "open_path q" for q
  proof -
    obtain n where n: "read_file u q = serves (take n ps) v q" using assms(3) [OF q] by blast
    show ?thesis
    proof (cases "map_of (map (\<lambda>p. (pb_out p, pb_document p)) (take n ps)) q")
      case None
      then show ?thesis using n assms(1) q by (simp add: serves_def files_ok_def)
    next
      case (Some x)
      then have "(q, x) \<in> set (map (\<lambda>p. (pb_out p, pb_document p)) (take n ps))" by (rule map_of_SomeD)
      then obtain p where "p \<in> set (take n ps)" "q = pb_out p" "x = pb_document p" by auto
      then have "allowed lp v0 D q x" using assms(2) in_set_takeD by (fastforce simp: set_ok_def)
      then show ?thesis using n Some by (simp add: serves_def)
    qed
  qed
  then show ?thesis by (simp add: files_ok_def)
qed

lemma files_ok_publish:
  assumes "publish (base lp) w ps r s = (s', ok)" and "set_ok lp v0 D ps" and "outputs_open lp"
    and "files_ok lp v0 D (sg_volume s)"
  shows "files_ok lp v0 D (sg_volume s')"
  using files_ok_serves [OF assms(4,2)] publish_open_files(2) [OF assms(1) set_ok_outs [OF assms(2,3)]] .

lemma files_ok_empty:
  assumes "open_path p" and "files_ok lp v0 D v"
  shows "files_ok lp v0 D (fst (write_file w p [] m v))"
proof -
  have "read_file (fst (write_file w p [] m v)) q \<in> {read_file v q, Some []}" if "open_path q" for q
    using write_file_self [OF open_visible [OF assms(1)] open_visible [OF assms(1)], of w "[]" m v]
      write_file_other [OF open_visible [OF assms(1)] open_visible [OF that] _ open_visible [OF assms(1)],
        of w "[]" m v]
    by (cases "q = p") auto
  then show ?thesis using assms(2) by (fastforce simp: files_ok_def allowed_def)
qed

lemma rendered_set_ok:
  assumes "render_all (ag_engine lp) d (ag_spec lp) = Inr ps" and "d \<in> D"
  shows "set_ok lp v0 D ps"
proof -
  obtain main rest where parts: "ps = \<lparr> pb_out = sp_out (ag_spec lp), pb_document = main,
      pb_mode = sp_file_mode (ag_spec lp) \<rparr> # rest"
    "rmap (render_also (ag_engine lp) d (ag_spec lp)) (sp_also (ag_spec lp)) = Inr rest"
    using assms(1) by (rule render_all_eq_Inr)
  then have "map pb_out ps = outputs (ag_spec lp)" using render_alsos [OF parts(2)] by (simp add: outputs_def)
  moreover have "allowed lp v0 D (pb_out q) (pb_document q)" if "q \<in> set ps" for q
    unfolding allowed_def rendered_from_def using assms that by blast
  ultimately show ?thesis by (simp add: set_ok_def)
qed

section \<open>The arms preserve it\<close>

lemma serving_same:
  assumes "serving lp v0 D s" and "sg_volume t = sg_volume s" and "sc_rendered t = sc_rendered s"
    and "sc_withheld t = sc_withheld s" and "sc_slot t = sc_slot s"
  shows "serving lp v0 D t"
  using assms by (simp add: serving_def)

lemma serving_publish:
  assumes "publish (base lp) w ps r s = (s', ok)" and "serving lp v0 D s" and "set_ok lp v0 D ps"
    and "outputs_open lp"
  shows "serving lp v0 D s'" and "serving lp v0 D (s' \<lparr> sc_rendered := Some ps \<rparr>)"
  using files_ok_publish [OF assms(1,3,4)] assms(2,3) publish_keeps [OF assms(1)]
  by (auto simp: serving_def)

lemma serving_take_document:
  assumes "serving lp v0 D s" and "d \<in> D" and "outputs_open lp"
  shows "serving lp v0 D (take_document lp w c d s)"
proof (cases "render_all (ag_engine lp) d (ag_spec lp)")
  case (Inl e)
  then show ?thesis using assms(1) by (simp add: take_document_def serving_same [OF assms(1)])
next
  case (Inr fresh)
  let ?s = "s \<lparr> sc_pace := lp_succeeded lp (sc_pace s) \<rparr>"
  have ok: "set_ok lp v0 D fresh" using rendered_set_ok [OF Inr assms(2)] .
  have s: "serving lp v0 D (hear lp d ?s)" by (rule serving_same [OF assms(1)]) simp_all
  obtain t b where t: "publish (base lp) w fresh (ft_revision d) (hear lp d ?s) = (t, b)"
    by (cases "publish (base lp) w fresh (ft_revision d) (hear lp d ?s)")
  note published = serving_publish [OF t s ok assms(3)]
  have "serving lp v0 D ?s" by (rule serving_same [OF assms(1)]) simp_all
  moreover have "serving lp v0 D ((counted (canary_holding (percent c)) ?s) \<lparr> sc_withheld := Some fresh \<rparr>)"
    using assms(1) ok by (simp add: serving_def)
  moreover have "serving lp v0 D (counted failed t)" by (rule serving_same [OF published(1)]) simp_all
  ultimately show ?thesis using published Inr t by (cases b) (simp_all add: take_document_def Let_def)
qed

lemma serving_schedule: "serving lp v0 D s \<Longrightarrow> serving lp v0 D (schedule lp l s)"
  by (erule serving_same) simp_all

lemma serving_reissue:
  assumes "serving lp v0 D s" and "answered a \<subseteq> D" and "outputs_open lp"
  shows "serving lp v0 D (reissue lp w c a s)"
proof (cases a)
  case (Got d)
  then show ?thesis
    using serving_take_document [OF serving_schedule [OF assms(1)] _ assms(3)] assms(2) by (simp add: reissue_def)
qed (simp_all add: reissue_def serving_same [OF assms(1)])

lemma serving_renewal:
  assumes "renewal_arm lp w c reply a s = Some t" and "serving lp v0 D s" and "answered a \<subseteq> D"
    and "outputs_open lp"
  shows "serving lp v0 D t"
proof -
  have asked: "serving lp v0 D (s \<lparr> sc_renewed := r \<rparr>)" for r by (rule serving_same [OF assms(2)]) simp_all
  have counted: "serving lp v0 D u \<Longrightarrow> serving lp v0 D (counted f u)" for f u
    by (erule serving_same) simp_all
  show ?thesis
    using assms(1) asked serving_reissue [OF _ assms(3,4)] assms(2)
    by (auto simp: renewal_arm_def Let_def renew_def counted serving_schedule split: if_splits sum.splits)
qed

lemma serving_canary:
  assumes "canary_arm lp w c s = Some t" and "serving lp v0 D s" and "outputs_open lp"
  shows "serving lp v0 D t"
proof -
  obtain fresh where fresh: "sc_withheld s = Some fresh" using assms(1) by (auto simp: canary_arm_def)
  then have ok: "set_ok lp v0 D fresh" using assms(2) by (simp add: serving_def)
  have base: "serving lp v0 D (counted f (s \<lparr> sc_withheld := None \<rparr>))" for f
    using assms(2) by (simp add: serving_def)
  have "serving lp v0 D (counted failed x)" if "serving lp v0 D x" for x
    by (rule serving_same [OF that]) simp_all
  then show ?thesis
    using assms(1,2) fresh serving_publish [OF _ base ok assms(3)]
    by (auto simp: canary_arm_def Let_def split: if_splits prod.splits bool.splits)
qed

lemma serving_drift:
  assumes "drift_arm lp w s = Some (t, e)" and "serving lp v0 D s" and "outputs_open lp"
  shows "serving lp v0 D t"
proof -
  obtain ps where ps: "sc_rendered s = Some ps" using assms(1) by (auto simp: drift_arm_def)
  then have ok: "set_ok lp v0 D ps" using assms(2) by (simp add: serving_def)
  have counted: "serving lp v0 D (counted f x)" if "serving lp v0 D x" for f x
    by (rule serving_same [OF that]) simp_all
  show ?thesis
    using assms(1) ps serving_publish(1) [OF _ counted [OF assms(2)] ok assms(3)] counted [OF assms(2)] counted
    by (auto simp: drift_arm_def Let_def split: option.splits OnDrift.splits prod.splits bool.splits)
qed

lemma files_ok_empty_files:
  "\<forall>p \<in> set ps. open_path p \<Longrightarrow> files_ok lp v0 D v \<Longrightarrow> files_ok lp v0 D (empty_files w ps v)"
  by (induction ps arbitrary: v) (simp_all add: files_ok_empty)

lemma serving_resync:
  assumes "serving lp v0 D s" and "answered a \<subseteq> D" and "outputs_open lp"
  shows "serving lp v0 D (resync_task lp w a s)"
proof (cases a)
  case (Got d)
  then have "pred_option (\<lambda>d. d \<in> D) (sl_held (unwrap_or (send d (sc_slot s)) (sc_slot s)))"
    using assms(1,2) by (auto simp: send_def serving_def)
  then show ?thesis using Got assms(1) by (simp add: resync_task_def serving_def)
next
  case (Absent e)
  have "files_ok lp v0 D (empty_files w (outputs (ag_spec lp)) (sg_volume s))"
    using assms(1,3) by (intro files_ok_empty_files) (simp_all add: serving_def outputs_open_def)
  then show ?thesis
    using Absent assms(1) by (auto simp: resync_task_def Let_def serving_def split: OnDelete.splits)
qed (simp add: resync_task_def serving_same [OF assms(1)])

lemma serving_slot:
  assumes "serving lp v0 D s" and "recv (sc_slot s) = Some (d, slot)"
  shows "d \<in> D" and "serving lp v0 D (s \<lparr> sc_slot := slot \<rparr>)"
  using assms by (auto simp: recv_def serving_def split: if_splits)

lemma serving_arrive:
  assumes "arrive_arm lp w c s = Some t" and "serving lp v0 D s" and "outputs_open lp"
  shows "serving lp v0 D t"
proof -
  obtain d slot where d: "recv (sc_slot s) = Some (d, slot)"
    "t = take_document lp w c d (counted (delivered (wd_now w))
       (s \<lparr> sc_slot := slot, sc_reopening := lp_succeeded lp (sc_reopening s) \<rparr>))"
    using assms(1) by (auto simp: arrive_arm_def)
  show ?thesis
    unfolding d(2) using serving_slot [OF assms(2) d(1)] assms(3)
    by (intro serving_take_document) (auto elim!: serving_same)
qed

lemma serving_step:
  assumes "step lp w c s ev t e" and "\<not> by_another ev" and "event_documents ev \<subseteq> D"
    and "serving lp v0 D s" and "outputs_open lp"
  shows "serving lp v0 D t"
  using assms(1)
proof (cases rule: step.cases)
  case (stopped reply)
  then show ?thesis
    by (simp add: stop_arm_def Let_def serving_same [OF assms(4)] split: option.splits sum.splits)
next
  case (resync_answers a)
  then have "serving lp v0 D (resync_task lp w a s)" using serving_resync assms(3,4,5) by auto
  then show ?thesis using resync_answers by (simp add: serving_def)
next
  case (watch_delivers d slot)
  then show ?thesis using assms(3,4) by (auto simp: serving_def send_def split: if_splits)
next
  case (reopens how)
  then show ?thesis
    by (simp add: reopen_arm_def Let_def serving_same [OF assms(4)] split: prod.splits watch_end.splits)
next
  case (trusts d1 d2 d3)
  then show ?thesis using serving_same [OF assms(4)] by (auto simp: trust_arm_def split: if_splits)
next
  case (answered status)
  then show ?thesis by (simp add: call_answered_def serving_same [OF assms(4)])
next
  case arrives
  then show ?thesis using serving_arrive assms(4,5) by blast
next
  case (renews reply a)
  then show ?thesis using serving_renewal assms(3,4,5) by auto
next
  case widens
  then show ?thesis using serving_canary assms(4,5) by blast
next
  case drifts
  then show ?thesis using serving_drift assms(4,5) by blast
qed (use assms(2,4) in \<open>auto elim: serving_same\<close>)

section \<open>The start establishes it\<close>

lemma files_ok_refl: "files_ok lp v0 D v0"
  by (simp add: files_ok_def)

lemma on_disk_ok:
  assumes "files_ok lp v0 D u" and "outputs_open lp" and "allowed lp v0 D (sp_out (ag_spec lp)) main"
  shows "set_ok lp v0 D (on_disk (ag_spec lp) main u)"
proof -
  have "allowed lp v0 D p (unwrap_or (read_file u p) [])" if p: "p \<in> set (outputs (ag_spec lp))" for p
  proof -
    have "open_path p" using assms(2) p by (simp add: outputs_open_def)
    then have "read_file u p = read_file v0 p \<or> (\<exists>x. read_file u p = Some x \<and> allowed lp v0 D p x)"
      using assms(1) by (simp add: files_ok_def)
    then show ?thesis by (cases "read_file v0 p") (auto simp: allowed_def)
  qed
  then show ?thesis using assms(3) by (simp add: set_ok_def on_disk_def outputs_def)
qed

lemma touch_missing_ok:
  assumes "files_ok lp v0 D v" and "\<forall>r \<in> set rs. open_path (rd_out r)"
  shows "files_ok lp v0 D (fst (touch_missing w rs v))"
  using assms
proof (induction rs arbitrary: v)
  case (Cons r rs)
  obtain u b where u: "write_file w (rd_out r) [] (rd_mode r) v = (u, b)"
    by (cases "write_file w (rd_out r) [] (rd_mode r) v")
  have "files_ok lp v0 D u"
    using files_ok_empty [of "rd_out r" lp v0 D v w "rd_mode r"] Cons.prems u by simp
  then show ?case using Cons u by (cases b) simp_all
qed simp

lemma recovered_ok:
  assumes "recovered w (ag_spec lp) e s = (t, Inr held)" and "files_ok lp v0 D (sg_volume s)"
    and "sg_volume s = v0" and "outputs_open lp"
  shows "files_ok lp v0 D (sg_volume t)" and "set_ok lp v0 D held"
proof -
  let ?spec = "ag_spec lp"
  have outs: "open_path (sp_out ?spec)" "\<forall>r \<in> set (sp_also ?spec). open_path (rd_out r)"
    using assms(4) by (auto simp: outputs_open_def outputs_def)
  have cached: "read_file v0 (sp_out ?spec) = Some main \<Longrightarrow> set_ok lp v0 D (on_disk ?spec main v0)" for main
    using on_disk_ok [OF files_ok_refl assms(4)] by (simp add: allowed_def)
  have "files_ok lp v0 D (sg_volume t) \<and> set_ok lp v0 D held"
  proof (cases "sp_startup_policy ?spec")
    case AllowCached
    then show ?thesis
      using assms(1,2,3) cached by (auto simp: recovered_def split: option.splits if_splits)
  next
    case RequireFresh
    then show ?thesis using assms(1) by (simp add: recovered_def)
  next
    case BestEffort
    define existing where "existing = unwrap_or (read_file v0 (sp_out ?spec)) []"
    define v1 where "v1 = (if existing = [] then fst (write_file w (sp_out ?spec) [] (sp_file_mode ?spec) v0) else v0)"
    have v1: "files_ok lp v0 D v1"
      using files_ok_empty [OF outs(1) files_ok_refl, of lp v0 D w "sp_file_mode ?spec"]
      by (simp add: v1_def files_ok_refl)
    have t: "sg_volume t = fst (touch_missing w (sp_also ?spec) v1)" "held = on_disk ?spec existing (sg_volume t)"
      using assms(1,3) BestEffort
      by (auto simp: recovered_def Let_def existing_def v1_def split: prod.splits if_splits)
    have "allowed lp v0 D (sp_out ?spec) existing"
      by (cases "read_file v0 (sp_out ?spec)") (simp_all add: existing_def allowed_def)
    then show ?thesis using touch_missing_ok [OF v1 outs(2)] t on_disk_ok assms(4) by metis
  qed
  then show "files_ok lp v0 D (sg_volume t)" "set_ok lp v0 D held" by simp_all
qed

lemma recovered_keeps:
  "recovered w spec e s = (t, r) \<Longrightarrow> sc_rendered t = sc_rendered s \<and> sc_withheld t = sc_withheld s \<and>
     sc_slot t = sc_slot s \<and> sc_lease t = sc_lease s"
  by (auto simp: recovered_def Let_def split: StartupPolicy.splits option.splits if_splits prod.splits)

lemma serving_begin:
  assumes "begin_loop lp w first v m = (s, Inr ())" and "outputs_open lp"
  shows "serving lp v (answered first) s"
proof -
  let ?D = "answered first" and ?s = "fresh_sidecar lp v m"
  have fresh: "serving lp v ?D ?s" by (simp add: serving_def fresh_sidecar_def delivery_def files_ok_refl)
  obtain t where t: "sg_volume s = sg_volume t" "sc_rendered s = sc_rendered t" "sc_withheld s = sc_withheld t"
    "sc_slot s = sc_slot t"
    "(case first of Got d \<Rightarrow> first_document lp w d ?s
      | Absent e \<Rightarrow> (case recovered w (ag_spec lp) e ?s of
          (t, Inl x) \<Rightarrow> (t, Inl x) | (t, Inr held) \<Rightarrow> (t \<lparr> sc_rendered := Some held \<rparr>, Inr ()))
      | Unreachable e \<Rightarrow> (case recovered w (ag_spec lp) e ?s of
          (t, Inl x) \<Rightarrow> (t, Inl x) | (t, Inr held) \<Rightarrow> (t \<lparr> sc_rendered := Some held \<rparr>, Inr ()))) = (t, Inr ())"
    using assms(1) by (auto simp: begin_loop_def Let_def split: prod.splits sum.splits)
  have recover: "serving lp v ?D t"
    if r: "(case recovered w (ag_spec lp) e ?s of
       (t, Inl x) \<Rightarrow> (t, Inl x) | (t, Inr held) \<Rightarrow> (t \<lparr> sc_rendered := Some held \<rparr>, Inr ())) = (t, Inr ())" for e
  proof -
    obtain u held where u: "recovered w (ag_spec lp) e ?s = (u, Inr held)" "t = u \<lparr> sc_rendered := Some held \<rparr>"
      using r by (auto split: prod.splits sum.splits)
    have "sg_volume ?s = v" by (simp add: fresh_sidecar_def)
    then show ?thesis
      using recovered_ok [OF u(1), of v ?D] recovered_keeps [OF u(1)] u(2) fresh assms(2)
      by (simp add: serving_def)
  qed
  have "serving lp v ?D t"
  proof (cases first)
    case (Got d)
    then obtain ps u where u: "render_all (ag_engine lp) d (ag_spec lp) = Inr ps"
      "publish (base lp) w ps (ft_revision d) ?s = (u, True)" "sg_volume t = sg_volume u"
      "sc_rendered t = Some ps" "sc_withheld t = sc_withheld u" "sc_slot t = sc_slot u"
      using t(5) by (auto simp: first_document_def Let_def split: sum.splits prod.splits bool.splits option.splits if_splits)
    have "serving lp v ?D u"
      using serving_publish(1) [OF u(2) fresh rendered_set_ok [OF u(1)] assms(2)] Got by simp
    then show ?thesis using u rendered_set_ok [OF u(1), of ?D v] Got by (simp add: serving_def)
  qed (use t(5) recover in auto)
  then show ?thesis by (rule serving_same) (simp_all add: t(1-4))
qed

lemma rendered_from_mono: "rendered_from lp D p x \<Longrightarrow> D \<subseteq> E \<Longrightarrow> rendered_from lp E p x"
  unfolding rendered_from_def by blast

lemma allowed_mono: "allowed lp v0 D p x \<Longrightarrow> D \<subseteq> E \<Longrightarrow> allowed lp v0 E p x"
  unfolding allowed_def using rendered_from_mono by metis

lemma serving_mono:
  assumes "serving lp v0 D s" and "D \<subseteq> E"
  shows "serving lp v0 E s"
proof -
  note up = allowed_mono [where lp = lp, OF _ assms(2)]
  have "set_ok lp v0 D ps \<Longrightarrow> set_ok lp v0 E ps" for ps using up by (auto simp: set_ok_def)
  moreover have "files_ok lp v0 E (sg_volume s)"
    using assms(1) up unfolding serving_def files_ok_def by metis
  ultimately show ?thesis
    using assms by (auto simp: serving_def pred_option_def)
qed

lemma serving_run:
  assumes "run lp s evs t" and "serving lp v0 D s" and "outputs_open lp"
    and "\<forall>ev \<in> set evs. \<not> by_another ev" and "\<Union> (event_documents ` set evs) \<subseteq> D"
  shows "serving lp v0 D t"
  using assms
proof (induction rule: run.induct)
  case (run_on evs t w c ev u e)
  then show ?case using serving_step [OF run_on.hyps(2), of D v0] by auto
qed

text \<open>Whatever the store answers and refuses, whatever the volume refuses, in every order of
  deliveries, resyncs, renewals, checks and restarts of the watch, none of which overlap: as long as nobody
  else writes to them, an application's files hold what they held before the agent started, or nothing, or the
  whole render, for that very file, of a document the store handed out.\<close>

theorem files_are_renders_of_store_documents:
  assumes "outputs_open lp" and "begin_loop lp w first v m = (s, Inr ())" and "run lp s evs t"
    and "\<forall>ev \<in> set evs. \<not> by_another ev" and "open_path p" and "read_file (sg_volume t) p = Some x"
    and "read_file v p \<noteq> Some x" and "x \<noteq> []"
  shows "\<exists>d \<in> documents first evs. \<exists>ps. render_all (ag_engine lp) d (ag_spec lp) = Inr ps \<and>
    (\<exists>q \<in> set ps. pb_out q = p \<and> pb_document q = x)"
proof -
  have "serving lp v (documents first evs) s"
    using serving_mono [OF serving_begin [OF assms(2,1)]] by (simp add: documents_def)
  then have "serving lp v (documents first evs) t"
    using serving_run [OF assms(3) _ assms(1,4)] by (simp add: documents_def)
  then have "read_file (sg_volume t) p = read_file v p \<or>
      (\<exists>y. read_file (sg_volume t) p = Some y \<and> allowed lp v (documents first evs) p y)"
    using assms(5) by (simp add: serving_def files_ok_def)
  then show ?thesis using assms(6-8) by (auto simp: allowed_def rendered_from_def)
qed

section \<open>A concrete loop\<close>

definition quiet_loop :: "nat loop" where
  "quiet_loop = agent.extend quiet_agent
     (loop.fields (Built (Blocking [])) True 30 None None True True id id id (\<lambda>p. (p, p)) (\<lambda>p d. (d, p))
        (\<lambda>d k. d * k div 100) (\<lambda>e. ''render''))"

lemma quiet_loop_fields [simp]:
  "ag_spec quiet_loop = quiet_spec" "ag_engine quiet_loop = quiet_engine"
  "outputs quiet_spec = [''/c/a.json'', ''/c/b.yml'']"
  by (simp_all add: quiet_loop_def quiet_agent_def agent.defs loop.defs outputs_def quiet_spec_def
      settings.defs Spec.defs)

lemma quiet_outputs_open: "outputs_open quiet_loop"
  using open_example by (simp add: outputs_open_def)

lemma calm_goes: "wd_fault calm = (\<lambda>_. Goes)"
  by (simp add: calm_def)

text \<open>Any loop of the quiet agent, with whatever client and counters.\<close>

lemma quiet_agent_begins:
  assumes "base lp = quiet_agent"
  shows "\<exists>s ps. begin_loop lp calm (Got quiet_fetched) [] m = (s, Inr ()) \<and>
     render_all quiet_engine quiet_fetched quiet_spec = Inr ps \<and> sc_rendered s = Some ps \<and>
     read_file (sg_volume s) ''/c/a.json'' = Some (''{}'' @ newline) \<and> sl_open (sc_slot s)"
proof -
  have lp [simp]: "ag_spec lp = quiet_spec" "ag_engine lp = quiet_engine"
    using assms base_fields(1,2) [of lp] by (simp_all add: quiet_agent_def del: base_fields)
  have open_outs: "outputs_open lp" using quiet_outputs_open by (simp add: outputs_open_def)
  obtain ps where ps: "render_all quiet_engine quiet_fetched quiet_spec = Inr ps" using quiet_rendered(1) by blast
  have fmts: "format_of ''/c/a.json'' = Some FJson" by code_simp
  have main: "\<exists>rest. ps = \<lparr> pb_out = ''/c/a.json'', pb_document = ''{}'' @ newline, pb_mode = None \<rparr> # rest"
    using ps
    by (auto simp: render_all_def quiet_engine_def quiet_fetched_def quiet_spec_def render_fetched_def
        resolve_document_def check_schema_def validate_def emit_as_def emit_def fmts settings.defs Spec.defs
        initial_draft_def res_simps split: if_splits)
  let ?s = "fresh_sidecar lp [] m"
  have ok: "set_ok lp [] {quiet_fetched} ps" using rendered_set_ok [of lp quiet_fetched ps] ps by simp
  obtain t where t: "publish (base lp) calm ps None ?s = (t, True)"
    using publish_goes [OF set_ok_outs(1) [OF ok open_outs] calm_goes] by metis
  have "read_file (sg_volume t) ''/c/a.json'' = serves ps (sg_volume ?s) ''/c/a.json''"
    using publish_open_files(1) [OF t set_ok_outs [OF ok open_outs]] open_example(1) by simp
  also have "\<dots> = Some (''{}'' @ newline)" using main by (auto simp: serves_def)
  finally show ?thesis
    using ps t publish_keeps(3) [OF t]
    by (simp add: begin_loop_def first_document_def quiet_fetched_def Let_def renew_after_def hear_def
        fresh_sidecar_def delivery_def split: prod.splits)
qed

lemma quiet_base: "base quiet_loop = quiet_agent"
  by (simp add: base_def quiet_loop_def quiet_agent_def agent.defs)

lemmas quiet_begins = quiet_agent_begins [OF quiet_base, of no_metrics]

theorem files_are_renders_of_store_documents_witness:
  "\<exists>s t ps. begin_loop quiet_loop calm (Got quiet_fetched) [] no_metrics = (s, Inr ()) \<and>
     run quiet_loop s [WatchDelivers quiet_fetched] t \<and>
     render_all quiet_engine quiet_fetched quiet_spec = Inr ps \<and>
     (\<exists>q \<in> set ps. pb_out q = ''/c/a.json'' \<and> pb_document q = ''{}'' @ newline)"
proof -
  obtain s where s: "begin_loop quiet_loop calm (Got quiet_fetched) [] no_metrics = (s, Inr ())"
    "read_file (sg_volume s) ''/c/a.json'' = Some (''{}'' @ newline)" "sl_open (sc_slot s)"
    using quiet_begins by blast
  then obtain slot where "send quiet_fetched (sc_slot s) = Some slot" by (simp add: send_def)
  then have run: "run quiet_loop s [WatchDelivers quiet_fetched] (s \<lparr> sc_slot := slot \<rparr>)"
    using run_on [OF run_here watch_delivers, of quiet_fetched s slot quiet_loop] by simp
  have "\<exists>d \<in> documents (Got quiet_fetched) [WatchDelivers quiet_fetched]. \<exists>ps.
      render_all (ag_engine quiet_loop) d (ag_spec quiet_loop) = Inr ps \<and>
      (\<exists>q \<in> set ps. pb_out q = ''/c/a.json'' \<and> pb_document q = ''{}'' @ newline)"
    by (rule files_are_renders_of_store_documents [OF quiet_outputs_open s(1) run])
      (use s(2) open_example in \<open>simp_all add: read_file_def\<close>)
  then have "\<exists>ps. render_all quiet_engine quiet_fetched quiet_spec = Inr ps \<and>
      (\<exists>q \<in> set ps. pb_out q = ''/c/a.json'' \<and> pb_document q = ''{}'' @ newline)"
    by (simp add: documents_def)
  then show ?thesis using s(1) run by blast
qed

end
