(* ===== verification/Loop.thy ===== *)
theory Loop
  imports Served
begin

text \<open>
  What each arm of the sidecar loop does: a document published, held or refused; a deleted one; the
  first fetch that fails; drift; a cohort that widens; leases.
\<close>

section \<open>A document\<close>

text \<open>C8: a document that reaches the loop is refused, changes nothing, is held back, or is published:
  one that cannot be rendered and one that renders to what is served leave the files and what is
  served as they are, one outside the cohort is kept for later, and any other is written whole
  before it counts as served.\<close>

theorem document_is_refused_held_or_published:
  assumes "outputs_open lp" and "t = take_document lp w c d s"
  shows "case render_all (ag_engine lp) d (ag_spec lp) of
      Inl e \<Rightarrow> sg_volume t = sg_volume s \<and> sc_rendered t = sc_rendered s \<and> sc_withheld t = sc_withheld s \<and>
        mt_render_failures (sg_metrics t) = mt_render_failures (sg_metrics s) + 1
    | Inr fresh \<Rightarrow>
        if unchanged (sc_rendered s) fresh
        then sg_volume t = sg_volume s \<and> sg_metrics t = sg_metrics s \<and> sc_rendered t = sc_rendered s
        else if held_back lp c
        then sg_volume t = sg_volume s \<and> sc_rendered t = sc_rendered s \<and> sc_withheld t = Some fresh
        else (sc_rendered t = Some fresh \<and>
              (\<forall>p \<in> set fresh. read_file (sg_volume t) (pb_out p) = Some (pb_document p))) \<or>
             (sc_rendered t = sc_rendered s \<and>
              mt_render_failures (sg_metrics t) = mt_render_failures (sg_metrics s) + 1)"
proof (cases "render_all (ag_engine lp) d (ag_spec lp)")
  case (Inl e)
  then show ?thesis using assms(2) by (simp add: take_document_def failed_def)
next
  case (Inr fresh)
  let ?s = "hear lp d (s \<lparr> sc_pace := lp_succeeded lp (sc_pace s) \<rparr>)"
  have ok: "set_ok lp [] {d} fresh" using rendered_set_ok [OF Inr] by simp
  obtain u b where u: "publish (base lp) w fresh (ft_revision d) ?s = (u, b)"
    by (cases "publish (base lp) w fresh (ft_revision d) ?s")
  have whole: "b \<Longrightarrow> p \<in> set fresh \<Longrightarrow> read_file (sg_volume u) (pb_out p) = Some (pb_document p)" for p
    using publish_open_files(1) [OF u set_ok_outs [OF ok assms(1)]] set_ok_outs [OF ok assms(1)]
      serves_member by metis
  have "\<not> b \<Longrightarrow> sg_metrics u = sg_metrics s"
    using publish_result [OF u] by auto
  then show ?thesis
    using assms(2) Inr u whole publish_keeps(1) [OF u]
    by (cases b) (auto simp: take_document_def Let_def failed_def)
qed

theorem document_is_refused_held_or_published_witness:
  "\<exists>s ps. sc_rendered s = Some ps \<and>
     sg_volume (take_document quiet_loop calm None quiet_fetched s) = sg_volume s"
proof -
  obtain s :: "nat sidecar" and ps where s: "render_all quiet_engine quiet_fetched quiet_spec = Inr ps" "sc_rendered s = Some ps"
    using quiet_begins by blast
  then have "unchanged (sc_rendered s) ps" by (simp add: unchanged_iff)
  then have "sg_volume (take_document quiet_loop calm None quiet_fetched s) = sg_volume s"
    using document_is_refused_held_or_published
      [OF quiet_outputs_open, of _ calm None quiet_fetched s, OF refl] s(1) by simp
  then show ?thesis using s(2) by blast
qed

section \<open>A document that is gone\<close>

lemma write_file_calm:
  assumes "visible p" and "wd_fault w = (\<lambda>_. Goes)"
  shows "read_file (fst (write_file w p c m v)) p = Some c"
proof -
  obtain u where u: "write_file w p c m v = (u, True)" using write_file_goes [OF assms] by metis
  then show ?thesis
    using volumes.after_self [unfolded mem_Collect_eq, OF assms(1) write_file_ok [OF u]] by simp
qed

lemma empty_files_all:
  assumes "\<forall>p \<in> set ps. open_path p" and "wd_fault w = (\<lambda>_. Goes)"
  shows "q \<in> set ps \<or> (open_path q \<and> read_file v q = Some []) \<Longrightarrow> read_file (empty_files w ps v) q = Some []"
  using assms(1)
proof (induction ps arbitrary: v)
  case (Cons p ps)
  let ?v = "fst (write_file w p [] None v)"
  have p: "read_file ?v p = Some []" using write_file_calm [OF open_visible assms(2)] Cons.prems(2) by simp
  have "open_path q" using Cons.prems by auto
  then have "q \<noteq> p \<Longrightarrow> read_file ?v q = read_file v q"
    using write_file_other [of p q w "[]" None v] Cons.prems(2) open_visible by simp
  then have "q \<in> set ps \<or> (open_path q \<and> read_file ?v q = Some [])"
    using Cons.prems p \<open>open_path q\<close> by (cases "q = p") auto
  then show ?case using Cons.IH [of ?v] Cons.prems(2) by simp
qed simp



text \<open>
  After \<open>--on-delete remove\<close> emptied the files, what the loop believes it serves is unchanged, so the
  same document coming back is not written.
\<close>

lemma returned_document_stays_unwritten:
  assumes "sc_rendered s = Some ps" and "render_all (ag_engine lp) d (ag_spec lp) = Inr ps"
  shows "sg_volume (take_document lp w c d (resync_task lp w (Absent e) s))
    = sg_volume (resync_task lp w (Absent e) s)"
  using assms
  by (cases "sp_on_delete (ag_spec lp)")
    (simp_all add: take_document_def Let_def resync_task_def unchanged_iff)

section \<open>A first fetch that fails\<close>

lemma touch_missing_calm:
  assumes "\<forall>r \<in> set rs. open_path (rd_out r)" and "wd_fault w = (\<lambda>_. Goes)"
  shows "\<exists>u. touch_missing w rs v = (u, True) \<and>
    (\<forall>r \<in> set rs. read_file u (rd_out r) = Some (unwrap_or (read_file v (rd_out r)) [])) \<and>
    (\<forall>q. open_path q \<and> read_file v q \<noteq> None \<longrightarrow> read_file u q = read_file v q)"
  using assms(1)
proof (induction rs arbitrary: v)
  case (Cons r rs)
  show ?case
  proof (cases "read_file v (rd_out r) = None")
    case True
    have vis: "visible (rd_out r)" using Cons.prems by (simp add: open_visible)
    obtain x where x: "write_file w (rd_out r) [] (rd_mode r) v = (x, True)"
      using write_file_goes [OF vis assms(2)] by metis
    have here: "read_file x (rd_out r) = Some []" using write_file_calm [OF vis assms(2)] x by (metis fst_conv)
    have there: "read_file x q = read_file v q" if "open_path q" "q \<noteq> rd_out r" for q
      using write_file_other [OF vis open_visible [OF that(1)] that(2) vis] x by (metis fst_conv)
    obtain u where u: "touch_missing w rs x = (u, True)"
      "\<forall>r \<in> set rs. read_file u (rd_out r) = Some (unwrap_or (read_file x (rd_out r)) [])"
      "\<forall>q. open_path q \<and> read_file x q \<noteq> None \<longrightarrow> read_file u q = read_file x q"
      using Cons.IH [of x] Cons.prems by auto
    have same: "unwrap_or (read_file x (rd_out q)) [] = unwrap_or (read_file v (rd_out q)) []" if "q \<in> set rs" for q
      using there [of "rd_out q"] here True Cons.prems that by (cases "rd_out q = rd_out r") auto
    have "read_file u (rd_out r) = Some []" using u(3) here Cons.prems by simp
    moreover have "read_file u q = read_file v q" if "open_path q" "read_file v q \<noteq> None" for q
      using u(3) there [OF that(1)] that True by (cases "q = rd_out r") auto
    ultimately show ?thesis using True x u(1,2) same by auto
  next
    case False
    obtain u where u: "touch_missing w rs v = (u, True)"
      "\<forall>r \<in> set rs. read_file u (rd_out r) = Some (unwrap_or (read_file v (rd_out r)) [])"
      "\<forall>q. open_path q \<and> read_file v q \<noteq> None \<longrightarrow> read_file u q = read_file v q"
      using Cons.IH [of v] Cons.prems by auto
    then show ?thesis using False Cons.prems by auto
  qed
qed simp

lemma best_effort_recovery:
  assumes "outputs_open lp" and "wd_fault w = (\<lambda>_. Goes)" and "sp_startup_policy (ag_spec lp) = BestEffort"
    and "recovered w (ag_spec lp) e s = (t, r)"
  shows "\<exists>held. r = Inr held \<and> drifted held (sg_volume t) = None \<and>
    (\<forall>p \<in> set (outputs (ag_spec lp)). read_file (sg_volume t) p = Some (unwrap_or (read_file (sg_volume s) p) []))"
proof -
  let ?spec = "ag_spec lp" and ?v = "sg_volume s"
  define existing where "existing = unwrap_or (read_file ?v (sp_out ?spec)) []"
  have outs: "open_path (sp_out ?spec)" "\<forall>r \<in> set (sp_also ?spec). open_path (rd_out r)"
    "sp_out ?spec \<notin> rd_out ` set (sp_also ?spec)"
    using assms(1) by (auto simp: outputs_open_def outputs_def)
  obtain x where x: "(if existing = [] then write_file w (sp_out ?spec) [] (sp_file_mode ?spec) ?v else (?v, True)) = (x, True)"
    using write_file_goes [OF open_visible [OF outs(1)] assms(2)] by (metis (full_types))
  have main: "read_file x (sp_out ?spec) = Some existing"
  proof (cases "existing = []")
    case True
    then show ?thesis
      using x write_file_calm [OF open_visible [OF outs(1)] assms(2), of "[]" "sp_file_mode ?spec" ?v] by simp
  next
    case False
    then show ?thesis using x by (cases "read_file ?v (sp_out ?spec)") (auto simp: existing_def)
  qed
  have other: "read_file x q = read_file ?v q" if q: "open_path q" "q \<noteq> sp_out ?spec" for q
    using x write_file_other [OF open_visible [OF outs(1)] open_visible [OF q(1)] q(2) open_visible [OF outs(1)],
        of w "[]" "sp_file_mode ?spec" ?v]
    by (auto split: if_splits)
  obtain u where u: "touch_missing w (sp_also ?spec) x = (u, True)"
    "\<forall>r \<in> set (sp_also ?spec). read_file u (rd_out r) = Some (unwrap_or (read_file x (rd_out r)) [])"
    "\<forall>q. open_path q \<and> read_file x q \<noteq> None \<longrightarrow> read_file u q = read_file x q"
    using touch_missing_calm [OF outs(2) assms(2)] by metis
  have t: "sg_volume t = u" "r = Inr (on_disk ?spec existing u)"
    using assms(3,4) x u(1)
    by (auto simp: recovered_def Let_def existing_def [symmetric] cong: if_cong)
  have main': "read_file u (sp_out ?spec) = Some existing" using u(3) main outs(1) by simp
  have "drifted (on_disk ?spec existing u) u = None"
    using main' u(2) by (auto simp: drifted_None on_disk_def)
  moreover have "read_file u (rd_out r) = Some (unwrap_or (read_file ?v (rd_out r)) [])" if "r \<in> set (sp_also ?spec)" for r
    using that u(2) other [of "rd_out r"] outs(2,3) by (metis image_eqI)
  ultimately show ?thesis using t main' by (auto simp: outputs_def existing_def)
qed



section \<open>Drift\<close>

lemma set_outs:
  assumes "map pb_out ps = outputs (ag_spec lp)" and "outputs_open lp"
  shows "\<forall>p \<in> set ps. open_path (pb_out p)" and "distinct (map pb_out ps)"
proof -
  have "set (outputs (ag_spec lp)) = pb_out ` set ps" using assms(1) by (metis list.set_map)
  then show "\<forall>p \<in> set ps. open_path (pb_out p)" "distinct (map pb_out ps)"
    using assms by (simp_all add: outputs_open_def)
qed

lemma publish_calm:
  assumes "map pb_out ps = outputs (ag_spec lp)" and "outputs_open lp" and "wd_fault w = (\<lambda>_. Goes)"
  obtains t where "publish (base lp) w ps r s = (t, True)"
    and "\<forall>p \<in> set ps. read_file (sg_volume t) (pb_out p) = Some (pb_document p)"
proof -
  note outs = set_outs [OF assms(1,2)]
  obtain t where t: "publish (base lp) w ps r s = (t, True)" using publish_goes [OF outs(1) assms(3)] by metis
  have "read_file (sg_volume t) (pb_out p) = Some (pb_document p)" if "p \<in> set ps" for p
    using publish_open_files(1) [OF t outs] serves_member [OF outs(2) that] outs(1) that by simp
  then show ?thesis using t that by blast
qed

lemma repaired:
  assumes "outputs_open lp" and "wd_fault w = (\<lambda>_. Goes)" and "sp_on_drift (ag_spec lp) = Repair"
    and "sc_rendered s = Some ps" and "map pb_out ps = outputs (ag_spec lp)"
    and "step lp w c s DriftTick t e"
  shows "e = None \<and> sc_rendered t = Some ps \<and> mt_drift (sg_metrics t) = 0 \<and>
    (\<forall>p \<in> set ps. read_file (sg_volume t) (pb_out p) = Some (pb_document p))"
proof -
  have arm: "drift_arm lp w s = Some (t, e)" using assms(6) by (simp add: step_simps)
  obtain u where u: "publish (base lp) w ps None (counted mt_drifted s) = (u, True)"
    "\<forall>p \<in> set ps. read_file (sg_volume u) (pb_out p) = Some (pb_document p)"
    using publish_calm [OF assms(5,1,2)] by metis
  show ?thesis
    using arm assms(3,4) u publish_keeps(1) [OF u(1)]
    by (cases "drifted ps (sg_volume s)") (auto simp: drift_arm_def undrifted_def drifted_None)
qed

text \<open>C24: under \<open>--on-drift repair\<close>, with a deletion that does not empty the files, a check of the files ends with
  every one of them as it was served when the volume takes the writes, whatever else in the pod had written over any
  of them.\<close>

theorem repair_restores_what_was_served:
  assumes "outputs_open lp" and "wd_fault w = (\<lambda>_. Goes)" and "sp_on_drift (ag_spec lp) = Repair"
    and "sp_on_delete (ag_spec lp) \<noteq> Remove"
    and "sc_rendered s = Some ps" and "map pb_out ps = outputs (ag_spec lp)"
    and "step lp w c s DriftTick t e"
  shows "e = None \<and> sc_rendered t = Some ps \<and> mt_drift (sg_metrics t) = 0 \<and>
    (\<forall>p \<in> set ps. read_file (sg_volume t) (pb_out p) = Some (pb_document p))"
  by (rule repaired [OF assms(1-3,5-7)])

text \<open>With one that empties them, the next check writes the deleted document back.\<close>

lemma repair_undoes_a_deletion:
  assumes "outputs_open lp" and "wd_fault w = (\<lambda>_. Goes)" and "sp_on_drift (ag_spec lp) = Repair"
    and "sp_on_delete (ag_spec lp) = Remove"
    and "sc_rendered s = Some ps" and "map pb_out ps = outputs (ag_spec lp)"
    and "s' = resync_task lp w (Absent e) s" and "step lp w c s' DriftTick t x" and "p \<in> set ps"
  shows "read_file (sg_volume s') (pb_out p) = Some [] \<and> read_file (sg_volume t) (pb_out p) = Some (pb_document p)"
proof -
  have "pb_out p \<in> set (outputs (ag_spec lp))" using assms(6,9) by (metis image_eqI list.set_map)
  then have "read_file (sg_volume s') (pb_out p) = Some []"
    using empty_files_all [OF _ assms(2), of "outputs (ag_spec lp)" "pb_out p"] assms(1,4,7)
    by (simp add: resync_task_def Let_def outputs_open_def)
  moreover have "sc_rendered s' = Some ps" using assms(4,5,7) by (simp add: resync_task_def Let_def)
  ultimately show ?thesis using repaired [OF assms(1-3) _ assms(6,8)] assms(9) by blast
qed

text \<open>A volume on which something else wrote over the file.\<close>

definition repairing_loop :: "nat loop" where
  "repairing_loop = quiet_loop \<lparr> ag_spec := quiet_spec \<lparr> sp_on_drift := Repair \<rparr> \<rparr>"

lemma repairing_fields [simp]: "ag_spec repairing_loop = quiet_spec \<lparr> sp_on_drift := Repair \<rparr>"
  "outputs (quiet_spec \<lparr> sp_on_drift := Repair \<rparr>) = outputs quiet_spec"
  by (simp_all add: repairing_loop_def outputs_def)

theorem repair_restores_what_was_served_witness:
  "\<exists>t. step repairing_loop calm None
      ((fresh_sidecar repairing_loop [(''/c/a.json'', \<lparr> file_text = ''scribble'', file_mode = 420 \<rparr>)] no_metrics)
         \<lparr> sc_rendered := Some two_files \<rparr>) DriftTick t None \<and>
     read_file (sg_volume t) ''/c/a.json'' = Some ''new''"
proof -
  let ?s = "(fresh_sidecar repairing_loop [(''/c/a.json'', \<lparr> file_text = ''scribble'', file_mode = 420 \<rparr>)] no_metrics)
    \<lparr> sc_rendered := Some two_files \<rparr>"
  have op: "outputs_open repairing_loop"
    using quiet_outputs_open by (simp add: outputs_open_def)
  have outs: "map pb_out two_files = outputs (ag_spec repairing_loop)" by (simp add: two_files_def)
  have "drift_arm repairing_loop calm ?s \<noteq> None" by (simp add: drift_arm_def)
  then obtain t e where "drift_arm repairing_loop calm ?s = Some (t, e)" by (metis not_None_eq prod.exhaust)
  then have step: "step repairing_loop calm None ?s DriftTick t e" by (rule drifts)
  have kept: "sc_rendered ?s = Some two_files" "sp_on_drift (ag_spec repairing_loop) = Repair" by simp_all
  have deletion: "sp_on_delete (ag_spec repairing_loop) \<noteq> Remove"
    by (simp add: quiet_spec_def settings.defs Spec.defs initial_draft_def)
  note restored = repair_restores_what_was_served [OF op calm_goes kept(2) deletion kept(1) outs step]
  have "read_file (sg_volume t) ''/c/a.json'' = Some ''new''" using restored by (simp add: two_files_def)
  then show ?thesis using step restored by blast
qed

section \<open>A cohort that widens\<close>


definition cohort_loop :: "nat loop" where
  "cohort_loop = quiet_loop \<lparr> ag_spec := quiet_spec \<lparr> sp_canary := Some ''/canary/percent'' \<rparr>, lp_cohort := Some 40 \<rparr>"

lemma cohort_fields [simp]: "ag_spec cohort_loop = quiet_spec \<lparr> sp_canary := Some ''/canary/percent'' \<rparr>"
  "outputs (quiet_spec \<lparr> sp_canary := x \<rparr>) = outputs quiet_spec" "lp_cohort cohort_loop = Some 40"
  by (simp_all add: cohort_loop_def outputs_def)


section \<open>Leases\<close>

lemma take_document_keeps:
  "sc_lease (take_document lp w c d s) = sc_lease s"
  "sc_renewed (take_document lp w c d s) = sc_renewed s"
  "sc_revoked (take_document lp w c d s) = sc_revoked s"
  by (auto simp: take_document_def Let_def split: sum.splits prod.splits bool.splits dest: publish_keeps)

lemma reissue_leases:
  "sc_lease (reissue lp w c (Got d) s) = ft_lease d" "sc_renewed (reissue lp w c a s) = sc_renewed s"
  by (simp add: reissue_def take_document_keeps) (cases a; simp add: reissue_def take_document_keeps)

text \<open>C13: a lease the loop holds is extended without touching a file, replaced by the lease of a fresh
  document when it cannot be extended, kept when neither is possible, and handed back when the pod
  stops and asks for that; a lease that is not renewable is never sent for renewal.\<close>

theorem leases_are_extended_reissued_or_handed_back:
  assumes "sc_lease s = Some l" and "issues_leases (lp_source lp)"
  shows "(ls_renewable l \<and> renewal_arm lp w c (Inr granted) a s = Some t \<longrightarrow>
      sc_lease t = Some granted \<and> sg_volume t = sg_volume s \<and> sc_rendered t = sc_rendered s \<and>
      sc_renewed t = sc_renewed s @ [l]) \<and>
    ((ls_renewable l \<longrightarrow> reply = Inl refusal) \<and> renewal_arm lp w c reply (Got d) s = Some t \<longrightarrow>
      sc_lease t = ft_lease d \<and> sc_renewed t = sc_renewed s @ (if ls_renewable l then [l] else [])) \<and>
    ((ls_renewable l \<longrightarrow> reply = Inl refusal) \<and> renewal_arm lp w c reply (Unreachable x) s = Some t \<longrightarrow>
      sc_lease t = Some l \<and> sg_volume t = sg_volume s \<and> sc_rendered t = sc_rendered s) \<and>
    (step lp w c s (Stop outcome) t e \<longrightarrow>
      sc_revoked t = sc_revoked s @ (if sp_revoke_on_shutdown (ag_spec lp) then [l] else []))"
  using assms
  by (intro conjI)
    (auto simp: renewal_arm_def renew_def reissue_def take_document_keeps stop_arm_def step_simps Let_def
      split: option.splits sum.splits)

definition leased_loop :: "nat loop" where
  "leased_loop = quiet_loop \<lparr> lp_source := Built (Renewable []) \<rparr>"

theorem leases_are_extended_reissued_or_handed_back_witness:
  "\<exists>t. renewal_arm leased_loop calm None (Inr \<lparr> ls_ttl = 9, ls_renewable = True \<rparr>) (Unreachable [])
      ((fresh_sidecar leased_loop [] no_metrics) \<lparr> sc_lease := Some \<lparr> ls_ttl = 5, ls_renewable = True \<rparr> \<rparr>) = Some t \<and>
     sc_lease t = Some \<lparr> ls_ttl = 9, ls_renewable = True \<rparr>"
proof -
  let ?s = "(fresh_sidecar leased_loop [] no_metrics) \<lparr> sc_lease := Some \<lparr> ls_ttl = 5, ls_renewable = True \<rparr> \<rparr>"
  have lease: "sc_lease ?s = Some \<lparr> ls_ttl = 5, ls_renewable = True \<rparr>" by simp
  have leased: "issues_leases (lp_source leased_loop)" by (simp add: issues_leases_def leased_loop_def)
  obtain t where "renewal_arm leased_loop calm None (Inr \<lparr> ls_ttl = 9, ls_renewable = True \<rparr>) (Unreachable []) ?s = Some t"
    using lease by (auto simp: renewal_arm_def)
  then show ?thesis using leases_are_extended_reissued_or_handed_back [OF lease leased] by auto
qed

section \<open>What the loop does not do\<close>

text \<open>A document that arrives under a lease of its own leaves the loop with the lease it had.\<close>

lemma delivered_lease_is_not_kept:
  "arrive_arm lp w c s = Some t \<Longrightarrow> sc_lease t = sc_lease s"
  by (auto simp: arrive_arm_def take_document_keeps)

text \<open>Readers joined to the loop do not hear of a document that renders to what the loop itself serves.\<close>

lemma unchanged_document_is_not_heard:
  "render_all (ag_engine lp) d (ag_spec lp) = Inr ps \<Longrightarrow> unchanged (sc_rendered s) ps \<Longrightarrow>
   sc_heard (take_document lp w c d s) = sc_heard s"
  by (simp add: take_document_def)

text \<open>A held document stays held when a newer one is published, and the next check publishes it over it.\<close>

lemma withheld_outlives_a_newer_document:
  assumes "sc_withheld s = Some old" and "\<not> held_back lp c"
  shows "sc_withheld (take_document lp w c d s) = Some old"
  using assms by (auto simp: take_document_def Let_def split: sum.splits prod.splits bool.splits dest: publish_keeps)

text \<open>A held document whose write is refused is dropped, and what was served stays.\<close>

lemma held_document_is_dropped_on_a_refused_write:
  assumes "sc_withheld s = Some ps" and "canary_arm lp w c s = Some t"
    and "\<And>r x. \<not> snd (publish (base lp) w ps r (x :: 'p sidecar))"
    and "admitted (unwrap_or (lp_cohort lp) 0) (if sp_canary (ag_spec lp) = None then None else percent c)"
  shows "sc_withheld t = None" and "sc_rendered t = sc_rendered (s :: 'p sidecar)"
  using assms
  by (auto simp: canary_arm_def Let_def split: prod.splits bool.splits if_splits dest: publish_keeps)
    (metis snd_conv)+

text \<open>The first document is published whatever the cohort.\<close>

lemma first_document_ignores_the_cohort:
  assumes "outputs_open lp" and "wd_fault w = (\<lambda>_. Goes)"
    and "render_all (ag_engine lp) d (ag_spec lp) = Inr ps"
  obtains t where "first_document lp w d s = (t, Inr ())" and "sc_rendered t = Some ps"
proof -
  have "map pb_out ps = outputs (ag_spec lp)" using rendered_set_ok [OF assms(3), of "{d}"] by (simp add: set_ok_def)
  then obtain u where "publish (base lp) w ps (ft_revision d) s = (u, True)"
    using publish_calm [OF _ assms(1,2)] by metis
  then show ?thesis
    using assms(3) that by (cases "ft_lease d") (auto simp: first_document_def Let_def)
qed

text \<open>The init mode writes the main file and no other.\<close>

lemma one_shot_writes_the_main_file_only:
  assumes "open_path (sp_out (ag_spec lp))" and "open_path q" and "q \<noteq> sp_out (ag_spec lp)"
    and "run_once lp w a s = (t, r)"
  shows "read_file (sg_volume t) q = read_file (sg_volume s) q"
proof -
  have "read_file u q = read_file (sg_volume s) q"
    if "write_file w (sp_out (ag_spec lp)) x m (sg_volume s) = (u, b)" for x m u b
    using write_file_other [OF open_visible [OF assms(1)] open_visible [OF assms(2)] assms(3)
        open_visible [OF assms(1)]] that by (metis fst_conv)
  then show ?thesis
    using assms(4) by (auto simp: run_once_def split: answer.splits sum.splits prod.splits bool.splits)
qed

end
