(* ===== verification/Shared.thy ===== *)
theory Shared
  imports AgentSpec
begin

text \<open>
  One watch per document on a node (\<open>shared.rs\<close>): the registry of documents, each with the pod
  volumes that read it, in the derived order of \<open>Document\<close>. The lock makes each operation one step.
  The stop channel of a watch is the answer of the operation that creates or uses it.
\<close>

datatype Document = Document
  (dc_source: string) (dc_endpoint: string) (dc_key: string) (dc_credential: string)

text \<open>The order derived in the source: field by field.\<close>

definition document_fields :: "Document \<Rightarrow> string list" where
  "document_fields d = [dc_source d, dc_endpoint d, dc_key d, dc_credential d]"

lemma document_fields_inj: "document_fields d = document_fields e \<Longrightarrow> d = e"
  by (cases d; cases e) (simp add: document_fields_def)

instantiation Document :: linorder
begin

definition less_eq_Document :: "Document \<Rightarrow> Document \<Rightarrow> bool" where
  "less_eq_Document d e \<longleftrightarrow> document_fields d \<le> document_fields e"

definition less_Document :: "Document \<Rightarrow> Document \<Rightarrow> bool" where
  "less_Document d e \<longleftrightarrow> document_fields d < document_fields e"

instance
  by standard (auto simp: less_eq_Document_def less_Document_def dest: document_fields_inj)

end

record Reader =
  re_path :: string
  re_spec :: Spec

type_synonym registry = "(Document \<times> Reader list) list"

datatype Claim = Started | Joined

definition claim :: "Document \<Rightarrow> string \<Rightarrow> Spec \<Rightarrow> registry \<Rightarrow> registry \<times> Claim" where
  "claim d target s reg =
     (let reader = \<lparr> re_path = target, re_spec = s \<rparr> in
      case map_of reg d of
        Some held \<Rightarrow>
          (if \<exists>r \<in> set held. re_path r = target then reg else map_insert d (held @ [reader]) reg, Joined)
      | None \<Rightarrow> (map_insert d [reader] reg, Started))"

definition readers :: "Document \<Rightarrow> registry \<Rightarrow> Reader list" where
  "readers d reg = unwrap_or (map_of reg d) []"

definition without :: "string \<Rightarrow> Reader list \<Rightarrow> Reader list" where
  "without target held = filter (\<lambda>r. re_path r \<noteq> target) held"

text \<open>The registry that stays, and the documents whose watch was told to stop.\<close>

definition release :: "string \<Rightarrow> registry \<Rightarrow> registry \<times> Document list" where
  "release target reg =
     (filter (\<lambda>(_, held). held \<noteq> []) (map (\<lambda>(d, held). (d, without target held)) reg),
      map fst (filter (\<lambda>(_, held). without target held = []) reg))"

definition counts :: "registry \<Rightarrow> nat \<times> nat" where
  "counts reg = (length reg, sum_list (map (length \<circ> snd) reg))"

definition registry_ok :: "registry \<Rightarrow> bool" where
  "registry_ok reg \<longleftrightarrow>
     sorted (map fst reg) \<and> distinct (map fst reg) \<and>
     (\<forall>(d, held) \<in> set reg. held \<noteq> [] \<and> distinct (map re_path held))"

text \<open>What any sequence of requests may do to it.\<close>

inductive reachable :: "registry \<Rightarrow> bool" where
  no_pods: "reachable []"
| claimed: "reachable reg \<Longrightarrow> reachable (fst (claim d target s reg))"
| released: "reachable reg \<Longrightarrow> reachable (fst (release target reg))"

section \<open>Facts\<close>

lemma set_map_insert: "set (map_insert k v m) \<subseteq> insert (k, v) (set m)"
  by (induction k v m rule: map_insert.induct) auto

lemma registry_ok_insert:
  "registry_ok reg \<Longrightarrow> held \<noteq> [] \<Longrightarrow> distinct (map re_path held) \<Longrightarrow> registry_ok (map_insert d held reg)"
  using sorted_insert [of reg d held] set_map_insert [of d held reg] unfolding registry_ok_def by fastforce

lemma registry_ok_claim: "registry_ok reg \<Longrightarrow> registry_ok (fst (claim d target s reg))"
proof (cases "map_of reg d")
  case (Some held)
  assume ok: "registry_ok reg"
  have "(d, held) \<in> set reg" using Some by (rule map_of_SomeD)
  then have "held \<noteq> []" "distinct (map re_path held)" using ok by (auto simp: registry_ok_def)
  then show ?thesis
    using ok Some by (auto simp: claim_def Let_def intro!: registry_ok_insert)
qed (simp add: claim_def registry_ok_insert)

lemma keys_release:
  "map fst (fst (release target reg)) = map fst (filter (\<lambda>(_, held). without target held \<noteq> []) reg)"
  unfolding release_def by (induction reg) auto

lemma member_release:
  "(d, held) \<in> set (fst (release target reg)) \<Longrightarrow> \<exists>h. (d, h) \<in> set reg \<and> held = without target h \<and> held \<noteq> []"
  by (auto simp: release_def)

lemma registry_ok_release: "registry_ok reg \<Longrightarrow> registry_ok (fst (release target reg))"
proof -
  assume ok: "registry_ok reg"
  then have "sorted (map fst (fst (release target reg)))" "distinct (map fst (fst (release target reg)))"
    unfolding keys_release registry_ok_def by (simp_all add: sorted_filter distinct_map_filter)
  moreover have "held \<noteq> [] \<and> distinct (map re_path held)" if "(d, held) \<in> set (fst (release target reg))" for d held
    using member_release [OF that] ok distinct_map_filter by (fastforce simp: registry_ok_def without_def)
  ultimately show ?thesis by (auto simp: registry_ok_def)
qed

lemma reachable_ok: "reachable reg \<Longrightarrow> registry_ok reg"
  by (induction rule: reachable.induct) (simp_all add: registry_ok_claim registry_ok_release, simp add: registry_ok_def)

lemma length_le_readers: "\<forall>(d, held) \<in> set reg. held \<noteq> [] \<Longrightarrow> length reg \<le> sum_list (map (length \<circ> snd) reg)"
proof (induction reg)
  case (Cons x reg)
  then have "1 \<le> length (snd x)" by (cases "snd x") auto
  then show ?case using Cons by auto
qed simp

text \<open>C26: whatever pods come and go, in any order: every watched document has a reader, no volume reads
  a document twice, and a node never watches more documents than volumes read.\<close>

theorem every_watch_has_a_reader:
  assumes "reachable reg"
  shows "(\<forall>(d, held) \<in> set reg. held \<noteq> [] \<and> distinct (map re_path held)) \<and>
    distinct (map fst reg) \<and> fst (counts reg) \<le> snd (counts reg)"
  using reachable_ok [OF assms] length_le_readers [of reg]
  by (auto simp: registry_ok_def counts_def)

lemma readers_claim:
  "readers d (fst (claim d target s reg)) =
     (if \<exists>r \<in> set (readers d reg). re_path r = target then readers d reg
      else readers d reg @ [\<lparr> re_path = target, re_spec = s \<rparr>])"
  "e \<noteq> d \<Longrightarrow> readers e (fst (claim d target s reg)) = readers e reg"
  by (auto simp: claim_def readers_def Let_def split: option.splits)

lemma readers_release:
  assumes "distinct (map fst reg)"
  shows "readers d (fst (release target reg)) = without target (readers d reg)"
  using assms
proof (induction reg)
  case (Cons x reg)
  obtain e held where x: "x = (e, held)" by (cases x)
  have "map_of (filter (\<lambda>(_, held). held \<noteq> []) (map (\<lambda>(d, held). (d, without target held)) reg)) e = None"
    using Cons.prems x by (force simp: map_of_eq_None_iff)
  then show ?case
    using Cons x by (auto simp: readers_def release_def without_def split: option.splits)
qed (simp add: readers_def release_def without_def)

text \<open>C27: a volume that goes away reads nothing from then on, every other volume keeps reading what it
  read, and a watch is told to stop exactly when its last reader left.\<close>

theorem release_ends_only_its_own_reads:
  assumes "reachable reg" and "release target reg = (reg', stopped)"
  shows "readers d reg' = filter (\<lambda>r. re_path r \<noteq> target) (readers d reg) \<and>
    (d \<in> set stopped \<longleftrightarrow> readers d reg \<noteq> [] \<and> readers d reg' = []) \<and> (readers d reg' \<noteq> [] \<longleftrightarrow> d \<in> fst ` set reg')"
proof -
  have ok: "registry_ok reg" "registry_ok reg'"
    using reachable_ok [OF assms(1)] registry_ok_release [of reg target] assms(2) by simp_all
  have reg': "reg' = fst (release target reg)" "stopped = snd (release target reg)" using assms(2) by simp_all
  have kept: "readers d reg' = without target (readers d reg)"
    using readers_release ok(1) reg'(1) by (simp add: registry_ok_def)
  have some: "readers d r \<noteq> [] \<longleftrightarrow> d \<in> fst ` set r" if "registry_ok r" for r
  proof (cases "map_of r d")
    case None
    then have "d \<notin> fst ` set r" by (simp add: map_of_eq_None_iff)
    then show ?thesis unfolding readers_def None by simp
  next
    case (Some held)
    have member: "(d, held) \<in> set r" using Some by (rule map_of_SomeD)
    then have "held \<noteq> []" using that by (auto simp: registry_ok_def)
    then show ?thesis using Some member by (force simp: readers_def)
  qed
  have "d \<in> set stopped \<longleftrightarrow> d \<in> fst ` set reg \<and> d \<notin> fst ` set reg'"
  proof -
    have keys: "fst ` set reg' = fst ` set (filter (\<lambda>(_, held). without target held \<noteq> []) reg)"
      using keys_release [of target reg] unfolding reg'(1) by (metis list.set_map)
    have unique: "(d, h) \<in> set reg \<Longrightarrow> (d, k) \<in> set reg \<Longrightarrow> h = k" for h k
      using eq_key_imp_eq_value ok(1) unfolding registry_ok_def by metis
    show ?thesis unfolding keys reg'(2) release_def by (auto dest: unique)
  qed
  then show ?thesis using kept some [OF ok(1)] some [OF ok(2)] unfolding without_def by metis
qed

text \<open>A retried publication changes nothing: claiming a document again for the volume that reads it
  joins, leaves the registry as it is and starts no second watch.\<close>

theorem claiming_twice_is_claiming_once:
  assumes "claim d target s reg = (reg', c)"
  shows "claim d target s' reg' = (reg', Joined) \<and> (\<exists>r \<in> set (readers d reg'). re_path r = target) \<and>
    (c = Started \<longleftrightarrow> d \<notin> fst ` set reg)"
proof -
  have "map_of reg d = None \<longleftrightarrow> d \<notin> fst ` set reg" by (rule map_of_eq_None_iff)
  then show ?thesis
    using assms by (auto simp: claim_def readers_def Let_def split: option.splits if_splits)
qed

definition example_document :: Document where
  "example_document = Document ''consul'' ''http://c'' ''k'' ''tenant-a''"

definition plain_spec :: Spec where
  "plain_spec = settings.extend (settings.truncate (initial_draft (\<lambda>_. None)))
     (Spec.fields ''consul'' ''http://c'' ''k'' ''/v/a.json'' [])"

lemma two_volumes:
  "reachable [(example_document, [\<lparr> re_path = ''/a'', re_spec = plain_spec \<rparr>, \<lparr> re_path = ''/b'', re_spec = plain_spec \<rparr>])]"
proof -
  have "fst (claim example_document ''/b'' plain_spec (fst (claim example_document ''/a'' plain_spec [])))
      = [(example_document, [\<lparr> re_path = ''/a'', re_spec = plain_spec \<rparr>, \<lparr> re_path = ''/b'', re_spec = plain_spec \<rparr>])]"
    by (simp add: claim_def Let_def)
  then show ?thesis using claimed [OF claimed [OF no_pods]] by metis
qed

theorem every_watch_has_a_reader_witness:
  "fst (counts [(example_document, [\<lparr> re_path = ''/a'', re_spec = plain_spec \<rparr>, \<lparr> re_path = ''/b'', re_spec = plain_spec \<rparr>])])
    \<le> snd (counts [(example_document, [\<lparr> re_path = ''/a'', re_spec = plain_spec \<rparr>, \<lparr> re_path = ''/b'', re_spec = plain_spec \<rparr>])])"
  using every_watch_has_a_reader [OF two_volumes] by blast

theorem release_ends_only_its_own_reads_witness:
  "\<exists>reg' stopped. release ''/a''
      [(example_document, [\<lparr> re_path = ''/a'', re_spec = plain_spec \<rparr>, \<lparr> re_path = ''/b'', re_spec = plain_spec \<rparr>])] = (reg', stopped) \<and>
     readers example_document reg' = [\<lparr> re_path = ''/b'', re_spec = plain_spec \<rparr>]"
proof -
  let ?reg = "[(example_document, [\<lparr> re_path = ''/a'', re_spec = plain_spec \<rparr>, \<lparr> re_path = ''/b'', re_spec = plain_spec \<rparr>])]"
  obtain reg' stopped where r: "release ''/a'' ?reg = (reg', stopped)" by (metis prod.exhaust)
  have "readers example_document ?reg = [\<lparr> re_path = ''/a'', re_spec = plain_spec \<rparr>, \<lparr> re_path = ''/b'', re_spec = plain_spec \<rparr>]"
    by (simp add: readers_def)
  then show ?thesis
    using release_ends_only_its_own_reads [OF two_volumes r, of example_document] r by simp
qed

theorem claiming_twice_is_claiming_once_witness:
  "\<exists>reg'. claim example_document ''/a'' plain_spec [] = (reg', Started) \<and>
     claim example_document ''/a'' plain_spec reg' = (reg', Joined)"
proof -
  obtain reg' where c: "claim example_document ''/a'' plain_spec [] = (reg', Started)" by (simp add: claim_def Let_def)
  then show ?thesis using claiming_twice_is_claiming_once [OF c, of plain_spec] by blast
qed

end
