(* ===== verification/NodeAgent.thy ===== *)
theory NodeAgent
  imports Shared Publish Sources
begin

text \<open>
  The node plugin (\<open>publish.rs\<close>, \<open>csi.rs\<close>): a volume's attributes to a specification, and the two calls
  that publish and unpublish it. The watch a publication starts is the sidecar loop; what it tells the
  other readers of its document is \<open>fan_out\<close>. A call is one step: the lock is not held across the
  store's answer, and claiming is idempotent, so a retry that overlaps changes nothing more.
\<close>

section \<open>Attributes\<close>

datatype volume_error = AttributeMissing string | PathOutside string | SpecRefused spec_error

record Volume =
  vo_out :: string
  vo_spec :: Spec
  vo_document :: Document

type_synonym attributes = "string \<Rightarrow> string option"

definition present :: "attributes \<Rightarrow> string \<Rightarrow> string option" where
  "present attrs name =
     (case attrs name of None \<Rightarrow> None | Some v \<Rightarrow> if v = [] then None else Some v)"

definition want :: "attributes \<Rightarrow> string \<Rightarrow> volume_error + string" where
  "want attrs name = ok_or (present attrs name) (AttributeMissing name)"

definition attribute_flags :: "(string \<times> string) list" where
  "attribute_flags =
     [(''endpoint'', ''--endpoint''), (''section'', ''--section''), (''auth'', ''--auth''),
      (''auth-mount'', ''--auth-mount''), (''auth-role'', ''--auth-role''),
      (''auth-username'', ''--auth-username''), (''namespace'', ''--namespace''), (''ref'', ''--ref''),
      (''api-url'', ''--api-url''), (''file-mode'', ''--file-mode''), (''watch-seconds'', ''--watch'')]"

definition attribute_arguments :: "attributes \<Rightarrow> string list" where
  "attribute_arguments attrs =
     concat (map (\<lambda>(name, flag). case present attrs name of None \<Rightarrow> [] | Some v \<Rightarrow> [flag, v]) attribute_flags)"

definition leaves_directory :: "string \<Rightarrow> bool" where
  "leaves_directory relative \<longleftrightarrow>
     starts_with ''/'' relative \<or> ''..'' \<in> set (split_on (CHR ''/'') relative)"

definition volume_arguments :: "string \<Rightarrow> string \<Rightarrow> string \<Rightarrow> attributes \<Rightarrow> string list" where
  "volume_arguments source key out attrs =
     (let arguments = [''--source'', source, ''--key'', key, ''--out'', out] @ attribute_arguments attrs in
      if ''--watch'' \<in> set arguments then arguments else arguments @ [''--watch'', ''15''])"

definition parse_volume :: "(string \<Rightarrow> string option) \<Rightarrow> string \<Rightarrow> attributes \<Rightarrow> volume_error + Volume" where
  "parse_volume env target attrs =
     rbind (want attrs ''source'') (\<lambda>source.
     rbind (want attrs ''key'') (\<lambda>key.
     rbind (want attrs ''path'') (\<lambda>relative.
     rbind (ensure (\<not> leaves_directory relative) (PathOutside relative)) (\<lambda>_.
     let out = path_join target relative in
     rbind (map_err SpecRefused (from_args env (volume_arguments source key out attrs))) (\<lambda>s.
     Inr \<lparr> vo_out = out, vo_spec = s,
           vo_document = Document source (sp_endpoint s) key (unwrap_or (attrs ''token-secret'') []) \<rparr>)))))"

section \<open>The plugin\<close>

datatype status = InvalidArgument | Internal | Unavailable

record node =
  nd_published :: "string set"
  nd_registry :: registry
  nd_volume :: volume
  nd_stopped :: "Document list"

definition claimed_by :: "Volume \<Rightarrow> string \<Rightarrow> node \<Rightarrow> node \<times> Claim" where
  "claimed_by vo target n =
     (case claim (vo_document vo) target (vo_spec vo) (nd_registry n) of
        (reg, c) \<Rightarrow> (n \<lparr> nd_registry := reg, nd_published := insert target (nd_published n) \<rparr>, c))"

text \<open>
  \<open>made\<close> is whether the directory could be made, \<open>refuses\<close> what the store's constructor refuses,
  \<open>fetched\<close> its first answer. \<open>Some Started\<close> starts the loop with that document.
\<close>

definition node_publish :: "(string \<Rightarrow> string option) \<Rightarrow> engine \<Rightarrow> (call list \<Rightarrow> string option) \<Rightarrow> bool
    \<Rightarrow> string + Fetched \<Rightarrow> world \<Rightarrow> string \<Rightarrow> attributes \<Rightarrow> node \<Rightarrow> node \<times> (status + Claim option)" where
  "node_publish env en refuses made fetched w target attrs n =
     (if target = [] then (n, Inl InvalidArgument)
      else if target \<in> nd_published n then (n, Inr None)
      else (case parse_volume env target attrs of
        Inl _ \<Rightarrow> (n, Inl InvalidArgument)
      | Inr vo \<Rightarrow>
          if \<not> made then (n, Inl Internal)
          else (case build refuses (vo_spec vo) of
            Inl _ \<Rightarrow> (n, Inl Internal)
          | Inr _ \<Rightarrow>
              (case fetched of
                 Inl _ \<Rightarrow> (n, Inl Unavailable)
               | Inr d \<Rightarrow>
                   (case render_fetched en d (vo_spec vo) of
                      Inl _ \<Rightarrow> (n, Inl Internal)
                    | Inr text \<Rightarrow>
                        (case write_file w (vo_out vo) text (sp_file_mode (vo_spec vo)) (nd_volume n) of
                           (v, False) \<Rightarrow> (n \<lparr> nd_volume := v \<rparr>, Inl Internal)
                         | (v, True) \<Rightarrow>
                             (case claimed_by vo target (n \<lparr> nd_volume := v \<rparr>) of
                                (n', c) \<Rightarrow> (n', Inr (Some c)))))))))"

definition node_unpublish :: "world \<Rightarrow> string \<Rightarrow> node \<Rightarrow> node \<times> (status + unit)" where
  "node_unpublish w target n =
     (if target = [] then (n, Inl InvalidArgument)
      else (case release target (nd_registry n) of
        (reg, stopped) \<Rightarrow>
          (n \<lparr> nd_registry := reg, nd_stopped := nd_stopped n @ stopped,
               nd_published := nd_published n - {target},
               nd_volume := fold (try_remove w) (files_in target (nd_volume n)) (nd_volume n) \<rparr>, Inr ())))"

text \<open>\<open>fan_out\<close>: the document, rendered for each reader but the one whose loop heard it.\<close>

fun write_each :: "world \<Rightarrow> Published list \<Rightarrow> volume \<Rightarrow> volume" where
  "write_each w [] v = v"
| "write_each w (p # ps) v = write_each w ps (fst (write_file w (pb_out p) (pb_document p) (pb_mode p) v))"

definition serve_reader :: "engine \<Rightarrow> world \<Rightarrow> Fetched \<Rightarrow> Reader \<Rightarrow> volume \<Rightarrow> volume" where
  "serve_reader en w d r v =
     (case render_all en d (re_spec r) of Inl _ \<Rightarrow> v | Inr ps \<Rightarrow> write_each w ps v)"

definition fan_out :: "engine \<Rightarrow> world \<Rightarrow> Document \<Rightarrow> string \<Rightarrow> Fetched \<Rightarrow> node \<Rightarrow> node" where
  "fan_out en w doc mine d n =
     n \<lparr> nd_volume := fold (serve_reader en w d)
           (filter (\<lambda>r. re_path r \<noteq> mine) (readers doc (nd_registry n))) (nd_volume n) \<rparr>"

section \<open>A volume's file stays in its directory\<close>

lemma split_join_relative:
  assumes "list_all plain_name ds" and "ds \<noteq> []" and "\<not> starts_with ''/'' relative"
  shows "path_components (path_join (plain_dir ds) relative) =
    (''/'', ds @ filter (\<lambda>c. \<not> trivial_segment c) (split_on (CHR ''/'') relative))"
proof -
  obtain ys y where ds: "ds = ys @ [y]" using assms(2) by (metis rev_exhaust)
  have "plain_name y" using assms(1) ds by simp
  have "last (join ''/'' ds) = last y \<and> join ''/'' ds \<noteq> []"
    using plain_name_facts(5) [OF \<open>plain_name y\<close>] ds by (cases "ys = []") (simp_all add: join_snoc)
  moreover have "last y \<noteq> CHR ''/''"
    using \<open>plain_name y\<close> last_in_set plain_name_facts(5) by (metis plain_name_def)
  ultimately have "\<not> ends_with ''/'' (plain_dir ds)"
    by (cases "join ''/'' ds" rule: rev_cases) (auto simp: plain_dir_def ends_with_def starts_with_def)
  then have joined: "path_join (plain_dir ds) relative = ''/'' @ join ''/'' ds @ ''/'' @ relative"
    using assms(3) by (simp add: path_join_def plain_dir_def)
  have "split_on (CHR ''/'') (join ''/'' ds @ ''/'' @ relative) = ds @ split_on (CHR ''/'') relative"
    using split_on_snoc [of "CHR ''/''" "join ''/'' ds" relative] split_on_join [of ds "CHR ''/''"] assms(1,2)
    by (auto simp: list_all_iff plain_name_def)
  moreover have "filter (\<lambda>c. \<not> trivial_segment c) ds = ds"
    using assms(1) plain_name_facts(1) by (auto simp: list_all_iff intro: filter_True)
  ultimately show ?thesis
    unfolding joined path_components_def path_body_def path_prefix_def
    by (simp add: starts_with_def)
qed

lemma parse_volume_eq_Inr:
  assumes "parse_volume env target attrs = Inr vo"
  obtains source key relative where "present attrs ''path'' = Some relative" and "\<not> leaves_directory relative"
    and "vo_out vo = path_join target relative" and "present attrs ''source'' = Some source"
    and "present attrs ''key'' = Some key"
    and "from_args env (volume_arguments source key (vo_out vo) attrs) = Inr (vo_spec vo)"
    and "vo_document vo = Document source (sp_endpoint (vo_spec vo)) key (unwrap_or (attrs ''token-secret'') [])"
  using assms by (auto simp: parse_volume_def want_def Let_def res_simps)

text \<open>C18: a volume's file lies below the directory the kubelet gave it, whatever its \<open>path\<close> attribute
  says: the file's path is that directory's components and more, with no step back among them.\<close>

theorem volume_file_stays_inside:
  assumes "parse_volume env (plain_dir ds) attrs = Inr vo" and "list_all plain_name ds" and "ds \<noteq> []"
  shows "\<exists>more. path_components (vo_out vo) = (''/'', ds @ more) \<and> ''..'' \<notin> set more"
proof -
  obtain relative where r: "\<not> leaves_directory relative" "vo_out vo = path_join (plain_dir ds) relative"
    using assms(1) by (rule parse_volume_eq_Inr)
  then show ?thesis
    using split_join_relative [OF assms(2,3), of relative] by (simp add: leaves_directory_def)
qed

definition csi_attributes :: "(string \<times> string) list" where
  "csi_attributes =
     [(''source'', ''consul''), (''key'', ''k''), (''path'', ''app.json''), (''endpoint'', ''http://c'')]"

lemma csi_volume:
  "\<exists>vo. parse_volume (\<lambda>_. None) ''/v/1'' (map_of csi_attributes) = Inr vo \<and> vo_out vo = ''/v/1/app.json'' \<and>
     sp_source (vo_spec vo) = ''consul'' \<and> sp_auth (vo_spec vo) = None \<and> sp_schema (vo_spec vo) = None \<and>
     sp_template (vo_spec vo) = None \<and> sp_template_inline (vo_spec vo) = None \<and>
     sp_out (vo_spec vo) = ''/v/1/app.json'' \<and> sp_also (vo_spec vo) = []"
proof -
  have out: "path_join ''/v/1'' ''app.json'' = ''/v/1/app.json''" by code_simp
  have fmt: "format_of ''/v/1/app.json'' = Some FJson" by code_simp
  have n15: "parse_uint 10 64 ''15'' = Some 15"
    by (simp add: parse_uint_def starts_with_def digit_value_def)
  have args: "volume_arguments ''consul'' ''k'' ''/v/1/app.json'' (map_of csi_attributes)
      = [''--source'', ''consul'', ''--key'', ''k'', ''--out'', ''/v/1/app.json'', ''--endpoint'', ''http://c'',
         ''--watch'', ''15'']"
    by (simp add: volume_arguments_def attribute_arguments_def attribute_flags_def present_def csi_attributes_def)
  obtain s where s: "from_args (\<lambda>_. None) (volume_arguments ''consul'' ''k'' ''/v/1/app.json'' (map_of csi_attributes)) = Inr s"
    "sp_source s = ''consul''" "sp_auth s = None" "sp_schema s = None" "sp_template s = None"
    "sp_template_inline s = None" "sp_out s = ''/v/1/app.json''" "sp_also s = []"
    unfolding args
    by (simp add: from_args_def initial_draft_def bare_flags_def value_flag_def text_flags_def
        checked_flags_def set_watch_def u64_of_def n15 spec_of_def fmt settings.defs Spec.defs validated_def
        SOURCES_def only_for_def validated_auth_def consul_auth_def templated_def)
  have "present (map_of csi_attributes) ''source'' = Some ''consul''" "present (map_of csi_attributes) ''key'' = Some ''k''"
    "present (map_of csi_attributes) ''path'' = Some ''app.json''" "\<not> leaves_directory ''app.json''"
    by (simp_all add: present_def csi_attributes_def leaves_directory_def starts_with_def)
  then show ?thesis using out s by (simp add: parse_volume_def want_def Let_def)
qed

lemma csi_target: "''/v/1'' = plain_dir [''v'', ''1'']" "''/v/1/app.json'' = plain_dir ([''v'', ''1''] @ [''app.json''])"
  by (simp_all add: plain_dir_def)

theorem volume_file_stays_inside_witness:
  "\<exists>vo more. parse_volume (\<lambda>_. None) ''/v/1'' (map_of csi_attributes) = Inr vo \<and>
     path_components (vo_out vo) = (''/'', [''v'', ''1''] @ more)"
proof -
  obtain vo where vo: "parse_volume (\<lambda>_. None) ''/v/1'' (map_of csi_attributes) = Inr vo"
    using csi_volume by blast
  then show ?thesis
    using volume_file_stays_inside [of "\<lambda>_. None" "[''v'', ''1'']" "map_of csi_attributes" vo]
    by (fastforce simp: plain_name_def csi_target(1))
qed

section \<open>Publishing and unpublishing\<close>

text \<open>A pod whose volume was published finds its file: the call returned only after the store's
  document, rendered as the volume asks, was in place, with the volume among the document's readers;
  repeating the call changes nothing.\<close>

theorem published_volume_has_its_file:
  assumes "node_publish env en refuses made fetched w target attrs n = (n', Inr (Some c))"
    and "parse_volume env target attrs = Inr vo" and "visible (vo_out vo)"
  shows "(\<exists>d text. fetched = Inr d \<and> render_fetched en d (vo_spec vo) = Inr text \<and>
      read_file (nd_volume n') (vo_out vo) = Some text) \<and>
    (\<exists>r \<in> set (readers (vo_document vo) (nd_registry n')). re_path r = target) \<and>
    node_publish env en refuses' made' fetched' w' target attrs n' = (n', Inr None)"
proof -
  obtain d x v where d: "target \<noteq> []" "fetched = Inr d" "render_fetched en d (vo_spec vo) = Inr x"
    "write_file w (vo_out vo) x (sp_file_mode (vo_spec vo)) (nd_volume n) = (v, True)"
    "claimed_by vo target (n \<lparr> nd_volume := v \<rparr>) = (n', c)"
    using assms(1,2)
    by (auto simp: node_publish_def split: if_splits sum.splits prod.splits bool.splits)
  obtain reg where reg: "claim (vo_document vo) target (vo_spec vo) (nd_registry n) = (reg, c)"
    "n' = n \<lparr> nd_volume := v, nd_registry := reg, nd_published := insert target (nd_published n) \<rparr>"
    using d(5) by (auto simp: claimed_by_def split: prod.splits)
  have "read_file v (vo_out vo) = Some x"
    using volumes.after_self [unfolded mem_Collect_eq, OF assms(3) write_file_ok [OF d(4)]] by simp
  moreover have "\<exists>r \<in> set (readers (vo_document vo) reg). re_path r = target"
    using readers_claim(1) [of "vo_document vo" target "vo_spec vo" "nd_registry n"] reg(1) by (auto split: if_splits)
  moreover have "node_publish env en refuses' made' fetched' w' target attrs n' = (n', Inr None)"
    using d(1) reg(2) by (simp add: node_publish_def)
  ultimately show ?thesis using d(2,3) reg(2) by auto
qed

text \<open>Once a volume was unpublished nothing of it is left: it reads nothing, it is not published, its
  directory holds no file, and no file elsewhere was touched.\<close>

theorem unpublished_volume_is_gone:
  assumes "reachable (nd_registry n)" and "target \<noteq> []" and "wd_fault w = (\<lambda>_. Goes)"
    and "node_unpublish w target n = (n', r)"
  shows "r = Inr () \<and> target \<notin> nd_published n' \<and>
    (\<forall>d. \<forall>q \<in> set (readers d (nd_registry n')). re_path q \<noteq> target) \<and>
    (\<forall>p. path_parent p = Some target \<longrightarrow> read_file (nd_volume n') p = None) \<and>
    (\<forall>p. path_parent p \<noteq> Some target \<longrightarrow> read_file (nd_volume n') p = read_file (nd_volume n) p)"
proof -
  obtain reg stopped where rel: "release target (nd_registry n) = (reg, stopped)" by (metis prod.exhaust)
  have n': "nd_registry n' = reg" "nd_published n' = nd_published n - {target}" "r = Inr ()"
    "nd_volume n' = fold (try_remove w) (files_in target (nd_volume n)) (nd_volume n)"
    using assms(2,4) rel by (auto simp: node_unpublish_def)
  have "distinct (map fst (nd_registry n))" using reachable_ok [OF assms(1)] by (simp add: registry_ok_def)
  then have gone: "readers d reg = without target (readers d (nd_registry n))" for d
    using readers_release rel by (metis fst_conv)
  have removed: "map_of (fold (try_remove w) ps v) q = (if q \<in> set ps then None else map_of v q)" for ps v q
  proof (induction ps arbitrary: v)
    case (Cons p ps)
    have "map_of (try_remove w p v) = (map_of v)(p := None)"
      by (cases "map_of v p") (auto simp: try_remove_def assms(3))
    then show ?case using Cons by simp
  qed simp
  have "read_file (nd_volume n') p = (if path_parent p = Some target then None else read_file (nd_volume n) p)" for p
  proof (cases "p \<in> set (files_in target (nd_volume n))")
    case True
    then show ?thesis using n'(4) removed by (simp add: read_file_def files_in_def)
  next
    case False
    then have "path_parent p = Some target \<Longrightarrow> map_of (nd_volume n) p = None"
      by (force simp: files_in_def map_of_eq_None_iff)
    then show ?thesis using n'(4) removed False by (simp add: read_file_def)
  qed
  then show ?thesis using n' gone by (auto simp: without_def)
qed

definition empty_node :: node where
  "empty_node = \<lparr> nd_published = {}, nd_registry = [], nd_volume = [], nd_stopped = [] \<rparr>"

lemma csi_visible: "visible ''/v/1/app.json''"
  unfolding visible_def csi_target(2)
  by (intro exI [of _ "[''v'', ''1'']"] exI [of _ "''app.json''"]) (simp add: plain_name_def)

lemma csi_published:
  "\<exists>n' c. node_publish (\<lambda>_. None) quiet_engine (\<lambda>_. None) True (Inr quiet_fetched) calm ''/v/1''
     (map_of csi_attributes) empty_node = (n', Inr (Some c))"
proof -
  obtain vo where vo: "parse_volume (\<lambda>_. None) ''/v/1'' (map_of csi_attributes) = Inr vo"
    "vo_out vo = ''/v/1/app.json''" "sp_source (vo_spec vo) = ''consul''" "sp_auth (vo_spec vo) = None"
    "sp_schema (vo_spec vo) = None" "sp_template (vo_spec vo) = None" "sp_template_inline (vo_spec vo) = None"
    "sp_out (vo_spec vo) = ''/v/1/app.json''"
    using csi_volume by blast
  have fmt: "format_of ''/v/1/app.json'' = Some FJson" by code_simp
  obtain b where b: "build (\<lambda>_. None) (vo_spec vo) = Inr b"
    using vo(3,4) by (simp add: build_def consul_calls_def)
  obtain x where x: "render_fetched quiet_engine quiet_fetched (vo_spec vo) = Inr x"
    using vo(5-8) fmt
    by (simp add: render_fetched_def resolve_document_def check_schema_def emit_as_def emit_def quiet_engine_def)
  obtain v where v: "write_file calm (vo_out vo) x (sp_file_mode (vo_spec vo)) [] = (v, True)"
    using write_file_goes [of "vo_out vo" calm] csi_visible vo(2) by (metis calm_def world.select_convs(2))
  show ?thesis
    using vo(1) b x v
    by (simp add: node_publish_def empty_node_def claimed_by_def split: prod.splits)
qed

theorem published_volume_has_its_file_witness:
  "\<exists>n' c text. node_publish (\<lambda>_. None) quiet_engine (\<lambda>_. None) True (Inr quiet_fetched) calm ''/v/1''
     (map_of csi_attributes) empty_node = (n', Inr (Some c)) \<and> read_file (nd_volume n') ''/v/1/app.json'' = Some text"
proof -
  obtain n' c where n': "node_publish (\<lambda>_. None) quiet_engine (\<lambda>_. None) True (Inr quiet_fetched) calm ''/v/1''
     (map_of csi_attributes) empty_node = (n', Inr (Some c))" using csi_published by blast
  obtain vo where vo: "parse_volume (\<lambda>_. None) ''/v/1'' (map_of csi_attributes) = Inr vo" "vo_out vo = ''/v/1/app.json''"
    using csi_volume by blast
  then show ?thesis
    using published_volume_has_its_file [OF n' vo(1), of "\<lambda>_. None" True "Inr quiet_fetched" calm]
      csi_visible n' by auto
qed

theorem unpublished_volume_is_gone_witness:
  "\<exists>n'. node_unpublish calm ''/v/1''
      \<lparr> nd_published = {''/v/1''}, nd_registry = [], nd_volume = [(''/v/1/app.json'', \<lparr> file_text = [], file_mode = 420 \<rparr>)],
        nd_stopped = [] \<rparr> = (n', Inr ()) \<and> read_file (nd_volume n') ''/v/1/app.json'' = None"
proof -
  let ?n = "\<lparr> nd_published = {''/v/1''}, nd_registry = [], nd_volume = [(''/v/1/app.json'', \<lparr> file_text = [], file_mode = 420 \<rparr>)],
    nd_stopped = [] \<rparr> :: node"
  have reach: "reachable (nd_registry ?n)" using no_pods by simp
  have goes: "wd_fault calm = (\<lambda>_. Goes)" by (simp add: calm_def)
  have parent: "path_parent ''/v/1/app.json'' = Some ''/v/1''" by code_simp
  obtain n' r where "node_unpublish calm ''/v/1'' ?n = (n', r)" by (metis prod.exhaust)
  then show ?thesis using unpublished_volume_is_gone [OF reach _ goes] parent by auto
qed

section \<open>Sharing\<close>

text \<open>
  What is read under: two volumes share a watch on their source, address, key and \<open>token-secret\<close>
  alone, so a different revision, login or namespace of the store joins the first one's watch.
\<close>

lemma shared_watch_ignores_the_reference:
  assumes "parse_volume env t attrs = Inr vo" and "parse_volume env t' attrs' = Inr vo'"
    and "present attrs ''source'' = present attrs' ''source''" and "present attrs ''key'' = present attrs' ''key''"
    and "sp_endpoint (vo_spec vo) = sp_endpoint (vo_spec vo')" and "attrs ''token-secret'' = attrs' ''token-secret''"
  shows "vo_document vo = vo_document vo'"
proof -
  obtain source key where "present attrs ''source'' = Some source" "present attrs ''key'' = Some key"
    "vo_document vo = Document source (sp_endpoint (vo_spec vo)) key (unwrap_or (attrs ''token-secret'') [])"
    using assms(1) by (rule parse_volume_eq_Inr)
  moreover obtain source' key' where "present attrs' ''source'' = Some source'" "present attrs' ''key'' = Some key'"
    "vo_document vo' = Document source' (sp_endpoint (vo_spec vo')) key' (unwrap_or (attrs' ''token-secret'') [])"
    using assms(2) by (rule parse_volume_eq_Inr)
  ultimately show ?thesis using assms(3-6) by simp
qed

lemma write_each_append: "write_each w (ps @ qs) v = write_each w qs (write_each w ps v)"
  by (induction ps arbitrary: v) simp_all

definition reader_set :: "engine \<Rightarrow> Fetched \<Rightarrow> Reader \<Rightarrow> Published list" where
  "reader_set en d r = (case render_all en d (re_spec r) of Inl _ \<Rightarrow> [] | Inr ps \<Rightarrow> ps)"

lemma fold_serve: "fold (serve_reader en w d) rs v = write_each w (concat (map (reader_set en d) rs)) v"
  by (induction rs arbitrary: v)
    (auto simp: serve_reader_def reader_set_def write_each_append split: sum.splits)

lemma write_each_calm:
  assumes "\<forall>p \<in> set ps. visible (pb_out p)" and "distinct (map pb_out ps)" and "wd_fault w = (\<lambda>_. Goes)"
    and "visible q"
  shows "read_file (write_each w ps v) q = serves ps v q"
  using assms(1,2)
proof (induction ps arbitrary: v)
  case (Cons p ps)
  obtain u where u: "write_file w (pb_out p) (pb_document p) (pb_mode p) v = (u, True)"
    using write_file_goes [OF _ assms(3)] Cons.prems(1) by (metis list.set_intros(1))
  have after: "file_after (pb_out p) (pb_document p, pb_mode p) v = Some u" using write_file_ok [OF u] .
  have vis: "visible (pb_out p)" using Cons.prems(1) by simp
  have "read_file u q = (if q = pb_out p then Some (pb_document p) else read_file v q)"
    using volumes.after_self [unfolded mem_Collect_eq, OF vis after]
      volumes.after_other [unfolded mem_Collect_eq, OF vis assms(4) _ after] by simp
  moreover have "pb_out p \<notin> fst ` set (map (\<lambda>p. (pb_out p, pb_document p)) ps)"
    using Cons.prems(2) by (simp add: image_image)
  then have "map_of (map (\<lambda>p. (pb_out p, pb_document p)) ps) (pb_out p) = None"
    by (simp only: map_of_eq_None_iff not_False_eq_True)
  ultimately show ?case using Cons u by (auto simp: serves_def)
qed (simp add: serves_def)

text \<open>C19: a document handed to \<open>fan_out\<close> by the volume that watches it reaches every other volume reading it when
  the writes are taken, each in its own format: where its render succeeds its files hold it, whatever became of the
  renders of the others.\<close>

theorem document_reaches_every_reader:
  assumes "n' = fan_out en w doc mine d n" and "wd_fault w = (\<lambda>_. Goes)"
    and "rs = filter (\<lambda>r. re_path r \<noteq> mine) (readers doc (nd_registry n))"
    and "\<forall>p \<in> set (concat (map (reader_set en d) rs)). visible (pb_out p)"
    and "distinct (map pb_out (concat (map (reader_set en d) rs)))"
    and "r \<in> set (readers doc (nd_registry n))" and "re_path r \<noteq> mine"
    and "render_all en d (re_spec r) = Inr ps" and "p \<in> set ps"
  shows "read_file (nd_volume n') (pb_out p) = Some (pb_document p)"
proof -
  let ?ps = "concat (map (reader_set en d) rs)"
  have p: "p \<in> set ?ps" using assms(3,6-9) by (auto simp: reader_set_def intro!: bexI [of _ r])
  have "nd_volume n' = write_each w ?ps (nd_volume n)"
    by (simp add: assms(1,3) fan_out_def fold_serve)
  then show ?thesis
    using write_each_calm [OF assms(4,5,2)] serves_member [OF assms(5) p] assms(4) p by auto
qed

definition shared_node :: node where
  "shared_node = empty_node \<lparr> nd_registry := [(example_document,
     [\<lparr> re_path = ''/v/1'', re_spec = quiet_spec \<rparr>, \<lparr> re_path = ''/v/2'', re_spec = quiet_spec \<rparr>])] \<rparr>"

theorem document_reaches_every_reader_witness:
  "\<exists>ps. render_all quiet_engine quiet_fetched quiet_spec = Inr ps \<and>
     (\<forall>p \<in> set ps. read_file (nd_volume (fan_out quiet_engine calm example_document ''/v/1'' quiet_fetched shared_node))
        (pb_out p) = Some (pb_document p))"
proof -
  obtain ps where ps: "render_all quiet_engine quiet_fetched quiet_spec = Inr ps" using quiet_rendered(1) by blast
  let ?r = "\<lparr> re_path = ''/v/2'', re_spec = quiet_spec \<rparr>"
  have readers: "readers example_document (nd_registry shared_node)
      = [\<lparr> re_path = ''/v/1'', re_spec = quiet_spec \<rparr>, ?r]"
    by (simp add: readers_def shared_node_def)
  have outs: "map pb_out ps = [''/c/a.json'', ''/c/b.yml'']"
  proof -
    have fields: "sp_out quiet_spec = ''/c/a.json''" "map rd_out (sp_also quiet_spec) = [''/c/b.yml'']"
      by (simp_all add: quiet_spec_def settings.defs Spec.defs)
    show ?thesis
      using ps
      by (rule render_all_eq_Inr) (use fields in \<open>auto dest!: render_alsos\<close>)
  qed
  have vis: "\<forall>p \<in> set ps. visible (pb_out p)"
  proof
    fix p assume "p \<in> set ps"
    then have "pb_out p \<in> set (map pb_out ps)" by simp
    then have "pb_out p = ''/c/a.json'' \<or> pb_out p = ''/c/b.yml''" unfolding outs by simp
    then show "visible (pb_out p)" using open_visible [OF open_example(1)] open_visible [OF open_example(2)] by auto
  qed
  have goes: "wd_fault calm = (\<lambda>_. Goes)" by (simp add: calm_def)
  have "read_file (nd_volume (fan_out quiet_engine calm example_document ''/v/1'' quiet_fetched shared_node)) (pb_out p)
      = Some (pb_document p)" if p: "p \<in> set ps" for p
    by (rule document_reaches_every_reader [OF refl goes, of "[?r]" _ _ _ _ _ ?r ps])
      (use readers ps vis outs p in \<open>simp_all add: reader_set_def\<close>)
  then show ?thesis using ps by blast
qed

end
