(* ===== verification/Operator.thy ===== *)
theory Operator
  imports Render Sources Metrics
begin

text \<open>
  The operator (\<open>crds.rs\<close>): the two classes, the Render, and one reconciliation of a Render into its
  ConfigMap or Secret. What the API server and the store answer are functions of the model; an object
  is the entries of its \<open>data\<close>. A panic of the code is the failure \<open>Panicked\<close>.
\<close>

section \<open>Resources\<close>

datatype ClassKind = NamespacedClass | ClusterClass
datatype TargetShape = FileShape | EnvEntries | Entries
datatype DeletionPolicy = DeleteTarget | RetainTarget

record ClusterSecretRef =
  cs_name :: string
  cs_namespace :: string
  cs_key :: string

record ClassSpec =
  kl_source :: string
  kl_endpoint :: string
  kl_token_secret :: "string option"

record ClusterClassSpec =
  kc_source :: string
  kc_endpoint :: string
  kc_token_secret :: "ClusterSecretRef option"
  kc_namespaces :: "string list option"

record RenderTarget =
  tg_config_map :: "string option"
  tg_secret :: "string option"
  tg_file :: "string option"
  tg_shape :: TargetShape
  tg_deletion :: DeletionPolicy

record RenderSpec =
  rs_class :: string
  rs_class_kind :: ClassKind
  rs_key :: string
  rs_target :: RenderTarget
  rs_interval :: nat

record ReadyCondition =
  co_type :: string
  co_status :: string
  co_reason :: string
  co_message :: string
  co_transition :: string

record RenderStatus =
  st_rendered_at :: "string option"
  st_observed :: "int option"
  st_last_error :: "string option"
  st_conditions :: "ReadyCondition list"

record Render =
  rr_namespace :: "string option"
  rr_name :: "string option"
  rr_uid :: "string option"
  rr_generation :: "int option"
  rr_spec :: RenderSpec
  rr_status :: "RenderStatus option"

definition default_token_key :: string where
  "default_token_key = ''token''"

definition default_interval :: nat where
  "default_interval = 15"

section \<open>Reasons\<close>

datatype Reason = ClassNotFound | ClassNotAllowed | RenderFailed

fun reason_str :: "Reason \<Rightarrow> string" where
  "reason_str ClassNotFound = ''ClassNotFound''"
| "reason_str ClassNotAllowed = ''ClassNotAllowed''"
| "reason_str RenderFailed = ''RenderFailed''"

definition reason_of :: "string \<Rightarrow> Reason" where
  "reason_of message =
     (if contains_sub ''class'' message \<and> contains_sub ''does not exist'' message then ClassNotFound
      else if contains_sub ''does not allow namespace'' message then ClassNotAllowed
      else RenderFailed)"

definition ready :: "string \<Rightarrow> ReadyCondition" where
  "ready now =
     \<lparr> co_type = ''Ready'', co_status = ''True'', co_reason = ''Rendered'',
       co_message = ''the target carries the store's current document'', co_transition = now \<rparr>"

definition refused :: "string \<Rightarrow> Reason \<Rightarrow> string \<Rightarrow> ReadyCondition" where
  "refused now reason message =
     \<lparr> co_type = ''Ready'', co_status = ''False'', co_reason = reason_str reason,
       co_message = message, co_transition = now \<rparr>"

definition not_ready :: "string \<Rightarrow> string \<Rightarrow> ReadyCondition" where
  "not_ready now message = refused now (reason_of message) message"

section \<open>The cluster\<close>

text \<open>What \<open>{:?}\<close> prints of an ASCII string; bytes of longer characters are printed as they are.\<close>

definition debug_char :: "char \<Rightarrow> string" where
  "debug_char c =
     (let n = of_char c :: nat in
      if n = 0x22 then [CHR 0x5C, c]
      else if n = 0x5C then [c, c]
      else if n = 9 then [CHR 0x5C, CHR ''t'']
      else if n = 10 then [CHR 0x5C, CHR ''n'']
      else if n = 13 then [CHR 0x5C, CHR ''r'']
      else if n = 0 then [CHR 0x5C, CHR ''0'']
      else if n < 0x20 \<or> n = 0x7F
      then [CHR 0x5C] @ ''u{'' @ (if n < 16 then [hex_digit n] else [hex_digit (n div 16), hex_digit (n mod 16)]) @ ''}''
      else [c])"

definition debug :: "string \<Rightarrow> string" where
  "debug s = [CHR 0x22] @ concat (map debug_char s) @ [CHR 0x22]"

type_synonym entries = "(string \<times> string) list"

datatype write_kind = ConfigMap | Secret

record manifest =
  mf_kind :: write_kind
  mf_namespace :: string
  mf_name :: string
  mf_owner :: "(string option \<times> string option) option"
  mf_data :: entries

text \<open>
  The reads answer an error, nothing, or the object. \<open>ku_apply\<close> is the server-side apply's error, if it
  refuses, and \<open>ku_patch_status\<close> the status patch's.
\<close>

record kube =
  ku_class :: "string \<Rightarrow> string \<Rightarrow> string + ClassSpec option"
  ku_cluster_class :: "string \<Rightarrow> string + ClusterClassSpec option"
  ku_object :: "write_kind \<Rightarrow> string \<Rightarrow> string \<Rightarrow> string + entries option option"
  ku_apply :: "manifest \<Rightarrow> string option"
  ku_patch_status :: "RenderStatus \<Rightarrow> string option"

record operator =
  op_engine :: engine
  op_refuses :: "call list \<Rightarrow> string option"
  op_fetch :: "source \<Rightarrow> string + Fetched"
  op_lossy :: "string \<Rightarrow> string"
  op_show_build :: "build_error \<Rightarrow> string"
  op_show_render :: "render_error \<Rightarrow> string"

datatype failure = Panicked | Failure string

type_synonym token_ref = "(string \<times> string \<times> string) option"

section \<open>One attempt\<close>

definition resolve_class :: "kube \<Rightarrow> RenderSpec \<Rightarrow> string \<Rightarrow> failure + string \<times> string \<times> token_ref" where
  "resolve_class ku rs ns =
     (case rs_class_kind rs of
        NamespacedClass \<Rightarrow>
          rbind (map_err Failure (ku_class ku ns (rs_class rs))) (\<lambda>found.
          rbind (ok_or found (Failure (''class '' @ debug (rs_class rs) @ '' does not exist here''))) (\<lambda>c.
          Inr (kl_source c, kl_endpoint c, map_option (\<lambda>name. (name, ns, ''token'')) (kl_token_secret c))))
      | ClusterClass \<Rightarrow>
          rbind (map_err Failure (ku_cluster_class ku (rs_class rs))) (\<lambda>found.
          rbind (ok_or found (Failure (''cluster class '' @ debug (rs_class rs) @ '' does not exist''))) (\<lambda>c.
          rbind (ensure (case kc_namespaces c of None \<Rightarrow> True | Some allowed \<Rightarrow> ns \<in> set allowed)
                   (Failure (''cluster class '' @ debug (rs_class rs) @ '' does not allow namespace '' @ debug ns
                      @ '': its `namespaces` list is the platform team's boundary''))) (\<lambda>_.
          Inr (kc_source c, kc_endpoint c,
               map_option (\<lambda>r. (cs_name r, cs_namespace r, cs_key r)) (kc_token_secret c))))))"

definition check_target :: "RenderTarget \<Rightarrow> string \<Rightarrow> failure + unit" where
  "check_target t source =
     rbind (case (tg_config_map t, tg_secret t) of
              (Some _, Some _) \<Rightarrow>
                Inl (Failure ''target names both configMap and secret: one document, one destination'')
            | (None, None) \<Rightarrow> Inl (Failure ''target names neither configMap nor secret'')
            | _ \<Rightarrow> Inr ()) (\<lambda>_.
     rbind (ensure (\<not> (tg_shape t = FileShape \<and> tg_file t = None))
              (Failure ''the file shape needs target.file: its extension picks the rendered format'')) (\<lambda>_.
     ensure (\<not> (source = ''vault'' \<and> tg_secret t = None))
       (Failure ''a vault document rendered into a ConfigMap is a secrecy downgrade; give the Render a `secret:` target instead'')))"

definition read_token :: "operator \<Rightarrow> kube \<Rightarrow> token_ref \<Rightarrow> failure + string option" where
  "read_token op ku token =
     (case token of
        None \<Rightarrow> Inr None
      | Some (name, ns, key) \<Rightarrow>
          rbind (map_err Failure (ku_object ku Secret ns name)) (\<lambda>found.
          rbind (ok_or found (Failure (''token secret '' @ ns @ ''/'' @ name @ '' does not exist''))) (\<lambda>held.
          rbind (ok_or (Option.bind held (\<lambda>d. map_of d key))
                   (Failure (''secret '' @ ns @ ''/'' @ name @ '' has no '' @ debug key @ '' key''))) (\<lambda>bytes.
          Inr (Some (op_lossy op bytes))))))"

definition render_spec :: "RenderSpec \<Rightarrow> string \<Rightarrow> string \<Rightarrow> string option \<Rightarrow> Spec" where
  "render_spec rs source endpoint token =
     \<lparr> sp_watch = None, sp_file_mode = None, sp_metrics_addr = None,
       sp_startup_policy = AllowCached, sp_max_document_bytes = None, sp_on_delete = Retain,
       sp_schema = None, sp_meta = False, sp_max_staleness = None, sp_dynamic = False,
       sp_revoke_on_shutdown = False, sp_revoke_grace = REVOKE_DEADLINE, sp_notify_http = None,
       sp_on_drift = Warn, sp_tls_reload = False, sp_history = 0, sp_require_ack = False,
       sp_events = False, sp_canary = None, sp_timeout = None,
       sp_token = token, sp_section = None, sp_auth = None,
       sp_auth_mount = None, sp_auth_role = None, sp_auth_username = None,
       sp_auth_token_path = None, sp_namespace = None, sp_reference = None, sp_ssh_key = None,
       sp_api_url = None, sp_template = None, sp_template_inline = None, sp_ca = None,
       sp_tls_cert = None, sp_tls_key = None, sp_tls_server_name = None,
       sp_tls_skip_verify = False, sp_password = None,
       sp_source = source, sp_endpoint = endpoint, sp_key = rs_key rs,
       sp_out = unwrap_or (tg_file (rs_target rs)) ''entries.json'', sp_also = [] \<rparr>"

definition build_failure :: "operator \<Rightarrow> build_error \<Rightarrow> failure" where
  "build_failure op e = (if e = BuildPanic then Panicked else Failure (op_show_build op e))"

definition render_failure :: "operator \<Rightarrow> render_error \<Rightarrow> failure" where
  "render_failure op e = (if e = RenderPanic then Panicked else Failure (op_show_render op e))"

definition collect :: "entries \<Rightarrow> entries" where
  "collect es = fold (\<lambda>(k, v). map_insert k v) es []"

definition target_data :: "operator \<Rightarrow> RenderTarget \<Rightarrow> Spec \<Rightarrow> Fetched \<Rightarrow> failure + entries" where
  "target_data op t s fetched =
     (case tg_shape t of
        FileShape \<Rightarrow>
          rbind (map_err (render_failure op) (render_fetched (op_engine op) fetched s)) (\<lambda>text.
          rbind (ok_or (tg_file t) Panicked) (\<lambda>name. Inr [(name, text)]))
      | shape \<Rightarrow>
          rbind (map_err (render_failure op) (resolve_document (op_engine op) fetched (sp_section s))) (\<lambda>j.
          Inr (collect ((if shape = Entries then verbatim_entries else document_env)
                          (en_show (op_engine op)) j))))"

definition same_data :: "entries option option \<Rightarrow> entries \<Rightarrow> bool" where
  "same_data current data =
     (case current of
        Some (Some held) \<Rightarrow>
          length held = length data \<and> list_all (\<lambda>(k, v). map_of held k = Some v) data
      | _ \<Rightarrow> False)"

definition destination :: "RenderTarget \<Rightarrow> (write_kind \<times> string) option" where
  "destination t =
     (case (tg_secret t, tg_config_map t) of
        (Some name, _) \<Rightarrow> Some (Secret, name)
      | (None, Some name) \<Rightarrow> Some (ConfigMap, name)
      | (None, None) \<Rightarrow> None)"

definition owner_of :: "Render \<Rightarrow> (string option \<times> string option) option" where
  "owner_of r =
     (case tg_deletion (rs_target (rr_spec r)) of
        DeleteTarget \<Rightarrow> Some (rr_name r, rr_uid r)
      | RetainTarget \<Rightarrow> None)"

definition apply_if_moved :: "kube \<Rightarrow> manifest \<Rightarrow> failure + manifest option" where
  "apply_if_moved ku m =
     rbind (map_err Failure (ku_object ku (mf_kind m) (mf_namespace m) (mf_name m))) (\<lambda>current.
     if same_data current (mf_data m) then Inr None
     else (case ku_apply ku m of None \<Rightarrow> Inr (Some m) | Some e \<Rightarrow> Inl (Failure e)))"

text \<open>\<open>None\<close>: the target already carried the document. \<open>Some m\<close>: \<open>m\<close> was applied.\<close>

definition attempt :: "operator \<Rightarrow> kube \<Rightarrow> Render \<Rightarrow> string \<Rightarrow> failure + manifest option" where
  "attempt op ku r ns =
     (let rs = rr_spec r; t = rs_target rs in
      rbind (resolve_class ku rs ns) (\<lambda>(source, endpoint, token_ref).
      rbind (check_target t source) (\<lambda>_.
      rbind (read_token op ku token_ref) (\<lambda>token.
      let s = render_spec rs source endpoint token in
      rbind (map_err (build_failure op) (build (op_refuses op) s)) (\<lambda>store.
      rbind (map_err Failure (op_fetch op store)) (\<lambda>fetched.
      rbind (target_data op t s fetched) (\<lambda>data.
      rbind (ok_or (destination t) Panicked) (\<lambda>(kind, name).
      apply_if_moved ku \<lparr> mf_kind = kind, mf_namespace = ns, mf_name = name,
        mf_owner = owner_of r, mf_data = data \<rparr>))))))))"

section \<open>Trying again\<close>

text \<open>\<open>mg_entropy\<close> is what \<open>spread\<close> left behind; durations are nanoseconds.\<close>

record manager =
  mg_backoff :: "(string \<times> nat) list"
  mg_metrics :: metrics
  mg_entropy :: u64

definition SECONDS :: nat where "SECONDS = 1000000000"

definition BASE :: nat where "BASE = 5 * SECONDS"

definition CEILING :: nat where "CEILING = 300 * SECONDS"

definition failures :: "string \<Rightarrow> bool \<Rightarrow> (string \<times> nat) list \<Rightarrow> nat \<times> (string \<times> nat) list" where
  "failures key again counts =
     (if \<not> again then (0, filter (\<lambda>e. fst e \<noteq> key) counts)
      else (let n = min (unwrap_or (map_of counts key) 0 + 1) (2 ^ 32 - 1) in (n, map_insert key n counts)))"

definition retry_wait :: "nat \<Rightarrow> nat" where
  "retry_wait n =
     (let w = BASE * 2 ^ min n 16 in min (if w \<le> DURATION_MAX then w else CEILING) CEILING)"

definition object_key :: "Render \<Rightarrow> string" where
  "object_key r = unwrap_or (rr_namespace r) [] @ ''/'' @ unwrap_or (rr_name r) []"

definition on_error :: "u64 \<Rightarrow> Render \<Rightarrow> manager \<Rightarrow> manager \<times> nat" where
  "on_error now r m =
     (let (n, counts) = failures (object_key r) True (mg_backoff m);
          (wait, draw) = spread now (retry_wait n) (mg_entropy m) in
      (m \<lparr> mg_backoff := counts, mg_metrics := reconcile_failed (mg_metrics m), mg_entropy := draw \<rparr>, wait))"

section \<open>One reconciliation\<close>

datatype effect = Applied manifest | PatchedStatus RenderStatus | Emitted string string

definition rendered_status :: "string \<Rightarrow> Render \<Rightarrow> RenderStatus" where
  "rendered_status now r =
     \<lparr> st_rendered_at = Some now, st_observed = rr_generation r, st_last_error = None,
       st_conditions = [ready now] \<rparr>"

definition failed_status :: "string \<Rightarrow> Render \<Rightarrow> string \<Rightarrow> RenderStatus" where
  "failed_status now r message =
     \<lparr> st_rendered_at = Option.bind (rr_status r) st_rendered_at, st_observed = rr_generation r,
       st_last_error = Some message, st_conditions = [not_ready now message] \<rparr>"

definition had_error :: "Render \<Rightarrow> bool" where
  "had_error r \<longleftrightarrow> (case rr_status r of None \<Rightarrow> False | Some st \<Rightarrow> st_last_error st \<noteq> None)"

definition never_rendered :: "Render \<Rightarrow> bool" where
  "never_rendered r \<longleftrightarrow> Option.bind (rr_status r) st_rendered_at = None"

definition applied_effects :: "manifest option \<Rightarrow> effect list" where
  "applied_effects moved = (case moved of None \<Rightarrow> [] | Some m \<Rightarrow> [Applied m])"

definition wants_status :: "manifest option \<Rightarrow> Render \<Rightarrow> bool" where
  "wants_status moved r \<longleftrightarrow> moved \<noteq> None \<or> had_error r \<or> never_rendered r"

text \<open>
  \<open>clock\<close> is the time in seconds, \<open>now\<close> the same time as the text of the status and \<open>elapsed\<close> the
  milliseconds the reconciliation took. The answer is the wait before the next one.
\<close>

definition settled_well :: "kube \<Rightarrow> string \<Rightarrow> u64 \<Rightarrow> nat \<Rightarrow> Render \<Rightarrow> manifest option \<Rightarrow> manager
    \<Rightarrow> manager \<times> effect list \<times> (failure + nat)" where
  "settled_well ku now clock elapsed r moved m =
     (let st = rendered_status now r;
          refusal = (if wants_status moved r then ku_patch_status ku st else None);
          told = (if wants_status moved r then [PatchedStatus st] else []) in
      case refusal of
        Some e \<Rightarrow> (m, applied_effects moved, Inl (Failure e))
      | None \<Rightarrow>
          (let (wait, draw) = spread clock (max (rs_interval (rr_spec r)) 1 * SECONDS) (mg_entropy m) in
           (m \<lparr> mg_backoff := snd (failures (object_key r) False (mg_backoff m)),
                mg_metrics := reconciled elapsed (rendered clock (mg_metrics m)), mg_entropy := draw \<rparr>,
            applied_effects moved @ told
              @ (if moved = None then []
                 else [Emitted ''Rendered'' ''the target now carries the store's document'']),
            Inr wait)))"

definition settled_badly :: "kube \<Rightarrow> string \<Rightarrow> Render \<Rightarrow> string \<Rightarrow> manager
    \<Rightarrow> manager \<times> effect list \<times> (failure + nat)" where
  "settled_badly ku now r message m =
     (let st = failed_status now r message in
      case ku_patch_status ku st of
        Some e \<Rightarrow> (m, [], Inl (Failure e))
      | None \<Rightarrow>
          (m \<lparr> mg_metrics := failed (mg_metrics m) \<rparr>,
           [PatchedStatus st, Emitted ''RenderFailed'' message], Inl (Failure message)))"

definition reconcile :: "operator \<Rightarrow> kube \<Rightarrow> string \<Rightarrow> u64 \<Rightarrow> nat \<Rightarrow> Render \<Rightarrow> manager
    \<Rightarrow> manager \<times> effect list \<times> (failure + nat)" where
  "reconcile op ku now clock elapsed r m =
     (case (rr_namespace r, rr_name r) of
        (None, _) \<Rightarrow> (m, [], Inl (Failure ''a Render without a namespace''))
      | (Some _, None) \<Rightarrow> (m, [], Inl (Failure ''a Render without a name''))
      | (Some ns, Some _) \<Rightarrow>
          (case attempt op ku r ns of
             Inr moved \<Rightarrow> settled_well ku now clock elapsed r moved m
           | Inl Panicked \<Rightarrow> (m, [], Inl Panicked)
           | Inl (Failure e) \<Rightarrow> settled_badly ku now r e m))"

text \<open>\<open>run\<close>: the controller waits what \<open>reconcile\<close> answers, and asks \<open>on_error\<close> when it fails.\<close>

definition handle :: "operator \<Rightarrow> kube \<Rightarrow> string \<Rightarrow> u64 \<Rightarrow> nat \<Rightarrow> Render \<Rightarrow> manager
    \<Rightarrow> manager \<times> effect list \<times> nat option" where
  "handle op ku now clock elapsed r m =
     (case reconcile op ku now clock elapsed r m of
        (m1, es, Inr wait) \<Rightarrow> (m1, es, Some wait)
      | (m1, es, Inl Panicked) \<Rightarrow> (m1, es, None)
      | (m1, es, Inl (Failure _)) \<Rightarrow> (case on_error clock r m1 of (m2, wait) \<Rightarrow> (m2, es, Some wait)))"

section \<open>Which Renders a class re-renders\<close>

type_synonym object_ref = "string \<times> string"

definition class_mapper :: "Render list \<Rightarrow> string option \<times> string option \<Rightarrow> object_ref list" where
  "class_mapper all who =
     (case who of
        (Some ns, Some name) \<Rightarrow>
          List.map_filter (\<lambda>r. map_option (\<lambda>n. (ns, n)) (rr_name r))
            (filter (\<lambda>r. rs_class (rr_spec r) = name \<and> rr_namespace r = Some ns) all)
      | _ \<Rightarrow> [])"

definition cluster_mapper :: "Render list \<Rightarrow> string option \<Rightarrow> object_ref list" where
  "cluster_mapper all who =
     (case who of
        None \<Rightarrow> []
      | Some name \<Rightarrow>
          List.map_filter (\<lambda>r. case (rr_name r, rr_namespace r) of
                           (Some n, Some ns) \<Rightarrow> Some (ns, n) | _ \<Rightarrow> None)
            (filter (\<lambda>r. rs_class (rr_spec r) = name \<and> rs_class_kind (rr_spec r) = ClusterClass) all))"

section \<open>Facts\<close>

lemma sorted_collect_aux:
  "sorted (map fst m) \<and> distinct (map fst m) \<Longrightarrow>
   sorted (map fst (fold (\<lambda>(k, v). map_insert k v) es m)) \<and>
   distinct (map fst (fold (\<lambda>(k, v). map_insert k v) es m))"
  by (induction es arbitrary: m) (auto intro: sorted_insert [THEN conjunct1] sorted_insert [THEN conjunct2])

lemma collect_keys: "sorted (map fst (collect es)) \<and> distinct (map fst (collect es))"
  unfolding collect_def by (rule sorted_collect_aux) simp

lemma target_data_distinct: "target_data op t s f = Inr data \<Longrightarrow> distinct (map fst data)"
  using collect_keys by (auto simp: target_data_def res_simps split: TargetShape.splits)

lemma same_data_refl: "distinct (map fst data) \<Longrightarrow> same_data (Some (Some data)) data"
  by (auto simp: same_data_def list_all_iff)

text \<open>What an attempt that succeeded went through.\<close>

lemma attempt_eq_Inr:
  assumes "attempt op ku r ns = Inr moved"
  obtains source endpoint token_ref token store fetched data kind name where
    "resolve_class ku (rr_spec r) ns = Inr (source, endpoint, token_ref)"
    "check_target (rs_target (rr_spec r)) source = Inr ()"
    "read_token op ku token_ref = Inr token"
    "build (op_refuses op) (render_spec (rr_spec r) source endpoint token) = Inr store"
    "op_fetch op store = Inr fetched"
    "target_data op (rs_target (rr_spec r)) (render_spec (rr_spec r) source endpoint token) fetched = Inr data"
    "destination (rs_target (rr_spec r)) = Some (kind, name)"
    "apply_if_moved ku \<lparr> mf_kind = kind, mf_namespace = ns, mf_name = name,
       mf_owner = owner_of r, mf_data = data \<rparr> = Inr moved"
proof -
  from assms show ?thesis
    unfolding attempt_def Let_def
    by (auto simp: res_simps intro: that)
qed

lemma target_named:
  "check_target t source = Inr () \<Longrightarrow>
   (tg_secret t = None \<and> tg_config_map t \<noteq> None \<or> tg_secret t \<noteq> None \<and> tg_config_map t = None) \<and>
   (source = ''vault'' \<longrightarrow> tg_secret t \<noteq> None) \<and> (tg_shape t = FileShape \<longrightarrow> tg_file t \<noteq> None)"
  by (auto simp: check_target_def res_simps split: option.splits)

lemma applied_eq:
  "apply_if_moved ku m = Inr (Some m') \<longleftrightarrow>
   m' = m \<and> ku_apply ku m = None \<and>
   (\<exists>current. ku_object ku (mf_kind m) (mf_namespace m) (mf_name m) = Inr current \<and>
              \<not> same_data current (mf_data m))"
  by (auto simp: apply_if_moved_def res_simps split: option.splits)

lemma unmoved_eq:
  "apply_if_moved ku m = Inr None \<longleftrightarrow>
   (\<exists>current. ku_object ku (mf_kind m) (mf_namespace m) (mf_name m) = Inr current \<and>
              same_data current (mf_data m))"
  by (auto simp: apply_if_moved_def res_simps split: option.splits)

lemma resolved_namespaced:
  "resolve_class ku rs ns = Inr (source, endpoint, token_ref) \<Longrightarrow> rs_class_kind rs = NamespacedClass \<Longrightarrow>
   \<exists>c. ku_class ku ns (rs_class rs) = Inr (Some c) \<and> source = kl_source c \<and> endpoint = kl_endpoint c \<and>
       token_ref = map_option (\<lambda>name. (name, ns, ''token'')) (kl_token_secret c) \<and>
       (\<forall>name tns key. token_ref = Some (name, tns, key) \<longrightarrow> tns = ns)"
  by (auto simp: resolve_class_def res_simps)

lemma resolved_cluster:
  "resolve_class ku rs ns = Inr (source, endpoint, token_ref) \<Longrightarrow> rs_class_kind rs = ClusterClass \<Longrightarrow>
   \<exists>c. ku_cluster_class ku (rs_class rs) = Inr (Some c) \<and> source = kc_source c \<and> endpoint = kc_endpoint c \<and>
       token_ref = map_option (\<lambda>r. (cs_name r, cs_namespace r, cs_key r)) (kc_token_secret c) \<and>
       (\<forall>allowed. kc_namespaces c = Some allowed \<longrightarrow> ns \<in> set allowed)"
  by (auto simp: resolve_class_def res_simps split: option.splits)

section \<open>A cluster to run it on\<close>

definition example_operator :: operator where
  "example_operator =
     \<lparr> op_engine = quiet_engine, op_refuses = (\<lambda>_. None), op_fetch = (\<lambda>_. Inr quiet_fetched),
       op_lossy = id, op_show_build = (\<lambda>_. ''build''), op_show_render = (\<lambda>_. ''render'') \<rparr>"

definition example_kube :: kube where
  "example_kube =
     \<lparr> ku_class = (\<lambda>ns name. Inr None),
       ku_cluster_class = (\<lambda>name. Inr (if name = ''prod'' then Some
          \<lparr> kc_source = ''vault'', kc_endpoint = ''https://v'',
            kc_token_secret = Some \<lparr> cs_name = ''cred'', cs_namespace = ''platform'', cs_key = ''token'' \<rparr>,
            kc_namespaces = Some [''team''] \<rparr> else None)),
       ku_object = (\<lambda>kind ns name. Inr (if (ns, name) = (''platform'', ''cred'')
          then Some (Some [(''token'', ''s'')]) else None)),
       ku_apply = (\<lambda>_. None), ku_patch_status = (\<lambda>_. None) \<rparr>"

definition example_render :: Render where
  "example_render =
     \<lparr> rr_namespace = Some ''team'', rr_name = Some ''app'', rr_uid = Some ''u'', rr_generation = Some 2,
       rr_spec = \<lparr> rs_class = ''prod'', rs_class_kind = ClusterClass, rs_key = ''kv/app'',
         rs_target = \<lparr> tg_config_map = None, tg_secret = Some ''app-config'', tg_file = Some ''a.json'',
           tg_shape = FileShape, tg_deletion = DeleteTarget \<rparr>, rs_interval = 15 \<rparr>,
       rr_status = Some \<lparr> st_rendered_at = Some ''t'', st_observed = Some 2, st_last_error = None,
         st_conditions = [] \<rparr> \<rparr>"

definition example_manifest :: manifest where
  "example_manifest =
     \<lparr> mf_kind = Secret, mf_namespace = ''team'', mf_name = ''app-config'',
       mf_owner = Some (Some ''app'', Some ''u''), mf_data = [(''a.json'', ''{}'' @ newline)] \<rparr>"

lemma example_attempt:
  "attempt example_operator example_kube example_render ''team'' = Inr (Some example_manifest)"
proof -
  have fmt: "format_of ''a.json'' = Some FJson" by code_simp
  have key: "split_once (CHR ''/'') ''kv/app'' = Some (''kv'', ''app'')" by code_simp
  show ?thesis
    by (simp add: attempt_def example_operator_def example_kube_def example_render_def example_manifest_def
        resolve_class_def check_target_def read_token_def build_def build_vault_def vault_login_def key
        render_spec_def target_data_def render_fetched_def resolve_document_def check_schema_def emit_as_def
        emit_def fmt quiet_engine_def quiet_fetched_def apply_if_moved_def same_data_def owner_of_def
        destination_def)
qed

section \<open>Where a document may go\<close>

text \<open>C9: what an attempt applies is in the Render's own namespace, at the one destination it names; a
  vault document is applied to a Secret only; a cluster class that lists namespaces lists this one, and
  a namespaced class's token comes from the Render's namespace.\<close>

theorem applied_targets_respect_the_boundary:
  assumes "attempt op ku r ns = Inr (Some m)"
  shows "mf_namespace m = ns \<and> destination (rs_target (rr_spec r)) = Some (mf_kind m, mf_name m) \<and>
    (\<exists>source endpoint token_ref. resolve_class ku (rr_spec r) ns = Inr (source, endpoint, token_ref) \<and>
       (source = ''vault'' \<longrightarrow> mf_kind m = Secret) \<and>
       (rs_class_kind (rr_spec r) = NamespacedClass \<longrightarrow> (\<forall>name tns key. token_ref = Some (name, tns, key) \<longrightarrow> tns = ns)) \<and>
       (rs_class_kind (rr_spec r) = ClusterClass \<longrightarrow>
          (\<exists>c. ku_cluster_class ku (rs_class (rr_spec r)) = Inr (Some c) \<and> kc_source c = source \<and>
               (\<forall>allowed. kc_namespaces c = Some allowed \<longrightarrow> ns \<in> set allowed))))"
  using assms
proof (rule attempt_eq_Inr)
  fix source endpoint token_ref token store fetched data kind name
  assume found: "resolve_class ku (rr_spec r) ns = Inr (source, endpoint, token_ref)"
    and target: "check_target (rs_target (rr_spec r)) source = Inr ()"
    and dest: "destination (rs_target (rr_spec r)) = Some (kind, name)"
    and applied: "apply_if_moved ku \<lparr> mf_kind = kind, mf_namespace = ns, mf_name = name,
      mf_owner = owner_of r, mf_data = data \<rparr> = Inr (Some m)"
  from applied have "mf_kind m = kind" "mf_namespace m = ns" "mf_name m = name" by (simp_all add: applied_eq)
  moreover have "source = ''vault'' \<Longrightarrow> kind = Secret"
    using target_named [OF target] dest by (auto simp: destination_def split: option.splits)
  ultimately show ?thesis
    using found dest resolved_namespaced [OF found] resolved_cluster [OF found] by auto
qed

theorem applied_targets_respect_the_boundary_witness:
  "mf_namespace example_manifest = ''team'' \<and>
   destination (rs_target (rr_spec example_render)) = Some (mf_kind example_manifest, mf_name example_manifest)"
  using applied_targets_respect_the_boundary [OF example_attempt] by blast

section \<open>A settled target\<close>

definition carrying :: "manifest \<Rightarrow> kube \<Rightarrow> kube" where
  "carrying m ku =
     ku \<lparr> ku_object := (\<lambda>kind ns name.
       if (kind, ns, name) = (mf_kind m, mf_namespace m, mf_name m) then Inr (Some (Some (mf_data m)))
       else ku_object ku kind ns name) \<rparr>"

lemma resolve_carrying: "resolve_class (carrying m ku) rs ns = resolve_class ku rs ns"
  by (simp add: resolve_class_def carrying_def split: ClassKind.splits)

lemma read_token_carrying:
  "(\<And>name tns key. token_ref = Some (name, tns, key) \<Longrightarrow> (Secret, tns, name) \<noteq> (mf_kind m, mf_namespace m, mf_name m)) \<Longrightarrow>
   read_token op (carrying m ku) token_ref = read_token op ku token_ref"
  by (auto simp: read_token_def carrying_def split: option.splits)

lemma attempt_carrying:
  assumes "attempt op ku r ns = Inr (Some m)"
    and "\<And>source endpoint name tns key.
      resolve_class ku (rr_spec r) ns = Inr (source, endpoint, Some (name, tns, key)) \<Longrightarrow>
      (Secret, tns, name) \<noteq> (mf_kind m, mf_namespace m, mf_name m)"
  shows "attempt op (carrying m ku) r ns = Inr None"
  using assms(1)
proof (rule attempt_eq_Inr)
  fix source endpoint token_ref token store fetched data kind name
  assume a: "resolve_class ku (rr_spec r) ns = Inr (source, endpoint, token_ref)"
    "check_target (rs_target (rr_spec r)) source = Inr ()" "read_token op ku token_ref = Inr token"
    "build (op_refuses op) (render_spec (rr_spec r) source endpoint token) = Inr store"
    "op_fetch op store = Inr fetched"
    "target_data op (rs_target (rr_spec r)) (render_spec (rr_spec r) source endpoint token) fetched = Inr data"
    "destination (rs_target (rr_spec r)) = Some (kind, name)"
    "apply_if_moved ku \<lparr> mf_kind = kind, mf_namespace = ns, mf_name = name,
      mf_owner = owner_of r, mf_data = data \<rparr> = Inr (Some m)"
  then have m: "m = \<lparr> mf_kind = kind, mf_namespace = ns, mf_name = name,
      mf_owner = owner_of r, mf_data = data \<rparr>" by (simp add: applied_eq)
  have "read_token op (carrying m ku) token_ref = Inr token"
    using a(1,3) assms(2) by (auto simp: read_token_carrying)
  moreover have "apply_if_moved (carrying m ku) m = Inr None"
    using same_data_refl [OF target_data_distinct [OF a(6)]] by (simp add: unmoved_eq m carrying_def)
  ultimately show ?thesis
    using a by (simp add: attempt_def resolve_carrying m)
qed

text \<open>C28: once the target carries what an attempt applied, and the status says that this generation was
  rendered without an error, reconciling again with the same class, credential and document writes neither the
  target nor the status and emits no Event, as long as the target is not the Secret the class's token is read from.\<close>

theorem settled_target_is_left_alone:
  assumes "attempt op ku r ns = Inr (Some m)"
    and "\<And>source endpoint name tns key.
      resolve_class ku (rr_spec r) ns = Inr (source, endpoint, Some (name, tns, key)) \<Longrightarrow>
      (Secret, tns, name) \<noteq> (mf_kind m, mf_namespace m, mf_name m)"
    and "rr_namespace r = Some ns" and "rr_name r = Some n"
    and "rr_status r = Some st" and "st_observed st = rr_generation r"
    and "st_last_error st = None" and "st_rendered_at st \<noteq> None"
  shows "\<exists>mg' wait. reconcile op (carrying m ku) now clock elapsed r mg = (mg', [], Inr wait)"
proof -
  have "attempt op (carrying m ku) r ns = Inr None" by (rule attempt_carrying [OF assms(1,2)])
  moreover have "\<not> had_error r" "\<not> never_rendered r" using assms(5,7,8) by (simp_all add: had_error_def never_rendered_def)
  ultimately show ?thesis
    using assms(3,4) by (simp add: reconcile_def settled_well_def wants_status_def applied_effects_def split: prod.split)
qed

theorem settled_target_is_left_alone_witness:
  "\<exists>mg' wait. reconcile example_operator (carrying example_manifest example_kube) ''t'' 9 3 example_render
     \<lparr> mg_backoff = [], mg_metrics = no_metrics, mg_entropy = 0 \<rparr> = (mg', [], Inr wait)"
  by (rule settled_target_is_left_alone [OF example_attempt, where n = "''app''"])
     (auto simp: example_manifest_def example_render_def example_kube_def resolve_class_def)

text \<open>So an edit of the Render that changes no byte of the target leaves the status at the old generation.\<close>

lemma generation_is_not_observed:
  assumes "attempt op ku r ns = Inr None" "rr_namespace r = Some ns" "rr_name r = Some n"
    "\<not> had_error r" "\<not> never_rendered r"
  shows "PatchedStatus st \<notin> set (fst (snd (reconcile op ku now clock elapsed r mg)))"
  using assms
  by (auto simp: reconcile_def settled_well_def wants_status_def applied_effects_def split: prod.split)

section \<open>What the status says\<close>

text \<open>C10: a Ready condition is only ever written over the document it speaks of: the target was applied
  with the data this reconciliation rendered, or was read with exactly those entries.\<close>

theorem ready_status_is_truthful:
  assumes "reconcile op ku now clock elapsed r mg = (mg', es, res)"
    and "PatchedStatus st \<in> set es" and "ready now \<in> set (st_conditions st)"
  shows "\<exists>ns source endpoint token_ref token store fetched data kind name.
    rr_namespace r = Some ns \<and> resolve_class ku (rr_spec r) ns = Inr (source, endpoint, token_ref) \<and>
    read_token op ku token_ref = Inr token \<and>
    build (op_refuses op) (render_spec (rr_spec r) source endpoint token) = Inr store \<and>
    op_fetch op store = Inr fetched \<and>
    target_data op (rs_target (rr_spec r)) (render_spec (rr_spec r) source endpoint token) fetched = Inr data \<and>
    destination (rs_target (rr_spec r)) = Some (kind, name) \<and> st_observed st = rr_generation r \<and>
    ((\<exists>m. Applied m \<in> set es \<and> mf_kind m = kind \<and> mf_namespace m = ns \<and> mf_name m = name \<and> mf_data m = data) \<or>
     (\<exists>current. ku_object ku kind ns name = Inr current \<and> same_data current data))"
proof -
  have differs: "ready now \<noteq> not_ready now e" for e by (simp add: ready_def not_ready_def refused_def)
  obtain ns n moved where named: "rr_namespace r = Some ns" "rr_name r = Some n"
    and tried: "attempt op ku r ns = Inr moved" and es: "(mg', es, res) = settled_well ku now clock elapsed r moved mg"
    using assms differs
    by (auto simp: reconcile_def settled_badly_def failed_status_def Let_def
        split: option.splits sum.splits failure.splits)
  have st: "st_observed st = rr_generation r" and applied: "\<And>m. moved = Some m \<Longrightarrow> Applied m \<in> set es"
    using es assms(2) by (auto simp: settled_well_def Let_def rendered_status_def applied_effects_def
        split: option.splits prod.splits if_splits)
  from tried show ?thesis
  proof (rule attempt_eq_Inr)
    fix source endpoint token_ref token store fetched data kind name
    assume parts: "resolve_class ku (rr_spec r) ns = Inr (source, endpoint, token_ref)"
      "read_token op ku token_ref = Inr token"
      "build (op_refuses op) (render_spec (rr_spec r) source endpoint token) = Inr store"
      "op_fetch op store = Inr fetched"
      "target_data op (rs_target (rr_spec r)) (render_spec (rr_spec r) source endpoint token) fetched = Inr data"
      "destination (rs_target (rr_spec r)) = Some (kind, name)"
      and moved: "apply_if_moved ku \<lparr> mf_kind = kind, mf_namespace = ns, mf_name = name,
        mf_owner = owner_of r, mf_data = data \<rparr> = Inr moved"
    have "(\<exists>m. Applied m \<in> set es \<and> mf_kind m = kind \<and> mf_namespace m = ns \<and> mf_name m = name \<and> mf_data m = data) \<or>
       (\<exists>current. ku_object ku kind ns name = Inr current \<and> same_data current data)"
      using moved applied by (cases moved) (auto simp: applied_eq unmoved_eq)
    with named st parts show ?thesis by blast
  qed
qed

theorem ready_status_is_truthful_witness:
  "\<exists>mg' es res st. reconcile example_operator example_kube ''t'' 9 3 example_render
       \<lparr> mg_backoff = [], mg_metrics = no_metrics, mg_entropy = 0 \<rparr> = (mg', es, res) \<and>
     PatchedStatus st \<in> set es \<and> st_observed st = rr_generation example_render"
proof -
  have named: "rr_namespace example_render = Some ''team''" "rr_name example_render = Some ''app''"
    "ku_patch_status example_kube = (\<lambda>_. None)" by (simp_all add: example_render_def example_kube_def)
  obtain mg' es res where run: "reconcile example_operator example_kube ''t'' 9 3 example_render
       \<lparr> mg_backoff = [], mg_metrics = no_metrics, mg_entropy = 0 \<rparr> = (mg', es, res)"
    by (rule prod_cases3)
  then have "PatchedStatus (rendered_status ''t'' example_render) \<in> set es"
    using named example_attempt
    by (auto simp: reconcile_def settled_well_def wants_status_def split: prod.splits)
  moreover have "ready ''t'' \<in> set (st_conditions (rendered_status ''t'' example_render))"
    by (simp add: rendered_status_def)
  ultimately show ?thesis
    using ready_status_is_truthful [OF run] run by blast
qed

text \<open>A Render whose class does not exist gets one status patch, not ready with the reason
  \<open>ClassNotFound\<close>, for the generation that was read; nothing is applied and a retry is scheduled.\<close>

theorem missing_class_is_reported:
  assumes "rr_namespace r = Some ns" and "rr_name r = Some n"
    and "case rs_class_kind (rr_spec r) of
           NamespacedClass \<Rightarrow> ku_class ku ns (rs_class (rr_spec r)) = Inr None
         | ClusterClass \<Rightarrow> ku_cluster_class ku (rs_class (rr_spec r)) = Inr None"
    and "\<And>st. ku_patch_status ku st = None"
  shows "\<exists>mg' st c message wait. handle op ku now clock elapsed r mg
      = (mg', [PatchedStatus st, Emitted ''RenderFailed'' message], Some wait) \<and>
    st_conditions st = [c] \<and> co_status c = ''False'' \<and> co_reason c = ''ClassNotFound'' \<and>
    co_message c = message \<and> st_last_error st = Some message \<and> st_observed st = rr_generation r"
proof -
  define message where "message = (case rs_class_kind (rr_spec r) of
      NamespacedClass \<Rightarrow> ''class '' @ debug (rs_class (rr_spec r)) @ '' does not exist here''
    | ClusterClass \<Rightarrow> ''cluster class '' @ debug (rs_class (rr_spec r)) @ '' does not exist'')"
  have "contains_sub ''class'' message"
    using contains_sub_infix [of "''class''" "[]" "'' '' @ debug (rs_class (rr_spec r)) @ '' does not exist here''"]
      contains_sub_infix [of "''class''" "''cluster ''" "'' '' @ debug (rs_class (rr_spec r)) @ '' does not exist''"]
    by (simp add: message_def split: ClassKind.split)
  moreover have "contains_sub ''does not exist'' message"
    using contains_sub_infix [of "''does not exist''" "''class '' @ debug (rs_class (rr_spec r)) @ '' ''" "'' here''"]
      contains_sub_infix [of "''does not exist''" "''cluster class '' @ debug (rs_class (rr_spec r)) @ '' ''" "[]"]
    by (simp add: message_def split: ClassKind.split)
  ultimately have reason: "reason_of message = ClassNotFound" by (simp add: reason_of_def)
  have "attempt op ku r ns = Inl (Failure message)"
    using assms(3) by (simp add: attempt_def Let_def resolve_class_def message_def split: ClassKind.splits)
  then show ?thesis
    using assms(1,2,4) reason
    by (auto simp: handle_def reconcile_def settled_badly_def failed_status_def not_ready_def refused_def
        split: prod.split)
qed

definition classless :: kube where
  "classless = example_kube \<lparr> ku_cluster_class := \<lambda>_. Inr None \<rparr>"

theorem missing_class_is_reported_witness:
  "\<exists>mg' st c message wait. handle example_operator classless ''t'' 9 3 example_render
       \<lparr> mg_backoff = [], mg_metrics = no_metrics, mg_entropy = 0 \<rparr>
     = (mg', [PatchedStatus st, Emitted ''RenderFailed'' message], Some wait) \<and>
    st_conditions st = [c] \<and> co_status c = ''False'' \<and> co_reason c = ''ClassNotFound'' \<and>
    co_message c = message \<and> st_last_error st = Some message \<and> st_observed st = rr_generation example_render"
  by (rule missing_class_is_reported [where ns = "''team''" and n = "''app''"])
     (simp_all add: example_render_def classless_def example_kube_def)

text \<open>The classification reads the message, and a Secret's name is in the message.\<close>

lemma missing_secret_reads_as_missing_class:
  "reason_of (''token secret team/class-token does not exist'') = ClassNotFound"
  by code_simp

section \<open>Retries\<close>

lemma retry_wait_eq: "retry_wait n = min (5 * 2 ^ min n 16) 300 * SECONDS"
proof -
  have "(2 :: nat) ^ min n 16 \<le> 2 ^ 16" by (rule power_increasing) auto
  moreover have "(if x * BASE \<le> DURATION_MAX then x * BASE else CEILING) = x * BASE" if "x \<le> 65536" for x
    using that by (simp add: BASE_def SECONDS_def DURATION_MAX_def)
  moreover have "min (x * BASE) CEILING = min (5 * x) 300 * SECONDS" for x
    by (simp add: BASE_def CEILING_def SECONDS_def min_def)
  ultimately show ?thesis by (simp add: retry_wait_def Let_def mult.commute [of BASE])
qed

lemma spread_within:
  "base \<le> fst (spread now base e) + base div 4 \<and> fst (spread now base e) \<le> base + base div 4"
  if "base \<le> DURATION_MAX"
  using that spread_offset_le [of base "next_entropy now e"] by (auto simp: spread_def Let_def)

text \<open>The wait a failure of this Render would be given next, before it is spread.\<close>

definition nominal_wait :: "Render \<Rightarrow> (string \<times> nat) list \<Rightarrow> nat" where
  "nominal_wait r counts = retry_wait (fst (failures (object_key r) True counts))"

lemma nominal_wait_eq:
  "nominal_wait r counts = min (5 * 2 ^ min (unwrap_or (map_of counts (object_key r)) 0 + 1) 16) 300 * SECONDS"
proof -
  have "min (min (n + 1) (2 ^ 32 - 1)) 16 = min (n + 1) (16 :: nat)" for n by (simp only: min.assoc) simp
  then show ?thesis
    by (simp only: nominal_wait_def failures_def not_True_eq_False if_False Let_def fst_conv retry_wait_eq)
qed

lemma doubled: "min (5 * 2 ^ min (Suc n) 16) 300 = min (2 * min (5 * 2 ^ min n 16) 300) (300 :: nat)"
proof (cases "n < 16")
  case True
  then have "5 * 2 ^ min (Suc n) 16 = 2 * (5 * 2 ^ min n 16 :: nat)" by simp
  moreover have "min (2 * a) 300 = min (2 * min a 300) 300" for a :: nat by (simp add: min_def)
  ultimately show ?thesis by metis
next
  case False
  then have "min (Suc n) 16 = 16" "min n 16 = 16" by simp_all
  then show ?thesis by simp
qed

text \<open>C36: a Render's retries back off: each failure waits, within a quarter, twice what the one before it did, up
  to five minutes; the count of no other Render moves; and a success starts this one over, at what a
  Render that never failed waits, which is no more than ten seconds.\<close>

theorem retries_back_off:
  assumes "on_error clock r m = (m', wait)"
  defines "w \<equiv> nominal_wait r (mg_backoff m)"
  shows "w \<le> wait + w div 4 \<and> wait \<le> w + w div 4 \<and>
    nominal_wait r (mg_backoff m') = min (2 * w) (300 * SECONDS) \<and>
    (\<forall>k. k \<noteq> object_key r \<longrightarrow> map_of (mg_backoff m') k = map_of (mg_backoff m) k) \<and>
    nominal_wait r (snd (failures (object_key r) False (mg_backoff m'))) = nominal_wait r [] \<and>
    nominal_wait r [] \<le> 10 * SECONDS"
proof -
  let ?n = "unwrap_or (map_of (mg_backoff m) (object_key r)) 0"
  have w: "w = min (5 * 2 ^ min (Suc ?n) 16) 300 * SECONDS" unfolding w_def nominal_wait_eq by simp
  have "w \<le> 300 * SECONDS" unfolding w by (rule mult_right_mono) simp_all
  then have "w \<le> DURATION_MAX" by (simp add: SECONDS_def DURATION_MAX_def)
  note within = spread_within [OF this, of clock "mg_entropy m"]
  have run: "fst (spread clock w (mg_entropy m)) = wait"
    "mg_backoff m' = map_insert (object_key r) (min (?n + 1) (2 ^ 32 - 1)) (mg_backoff m)"
    using assms(1) by (auto simp: w_def nominal_wait_def on_error_def failures_def Let_def split: prod.splits)
  have "min (Suc (min (?n + 1) (2 ^ 32 - 1))) 16 = min (Suc (Suc ?n)) 16" by (simp add: min_def)
  then have "nominal_wait r (mg_backoff m') = min (5 * 2 ^ min (Suc (Suc ?n)) 16) 300 * SECONDS"
    by (simp add: nominal_wait_eq run(2) unwrap_or_def)
  also have "\<dots> = min (2 * w) (300 * SECONDS)"
    unfolding doubled [of "Suc ?n"] w by (simp only: nat_mult_min_left mult.assoc)
  finally have next_wait: "nominal_wait r (mg_backoff m') = min (2 * w) (300 * SECONDS)" .
  have "map_of (filter (\<lambda>e. fst e \<noteq> k) counts) k = None" for k and counts :: "(string \<times> nat) list"
    by (auto simp: map_of_eq_None_iff)
  then have "nominal_wait r (snd (failures (object_key r) False (mg_backoff m'))) = nominal_wait r []"
    by (simp add: nominal_wait_eq failures_def)
  moreover have "nominal_wait r [] \<le> 10 * SECONDS" by (simp add: nominal_wait_eq unwrap_or_def)
  ultimately show ?thesis using within run next_wait by simp
qed

theorem retries_back_off_witness:
  "\<exists>m' wait. on_error 9 example_render \<lparr> mg_backoff = [], mg_metrics = no_metrics, mg_entropy = 0 \<rparr> = (m', wait) \<and>
     wait \<le> 10 * SECONDS + 10 * SECONDS div 4 \<and> nominal_wait example_render (mg_backoff m') = 20 * SECONDS"
proof -
  obtain m' wait where run: "on_error 9 example_render
      \<lparr> mg_backoff = [], mg_metrics = no_metrics, mg_entropy = 0 \<rparr> = (m', wait)" by (rule prod.exhaust)
  have "nominal_wait example_render [] = 10 * SECONDS" by (simp add: nominal_wait_eq unwrap_or_def)
  then show ?thesis using retries_back_off [OF run] run by simp
qed

text \<open>The first wait is ten seconds and not the five of the comment.\<close>

lemma first_retry_waits_ten_seconds: "retry_wait (fst (failures key True [])) = 10 * SECONDS"
  by (simp add: retry_wait_eq failures_def unwrap_or_def)

section \<open>Edits of a class\<close>

lemma attempt_reads:
  assumes "resolve_class ku' (rr_spec r) ns = resolve_class ku (rr_spec r) ns"
    and "ku_object ku' = ku_object ku" and "ku_apply ku' = ku_apply ku"
  shows "attempt op ku' r ns = attempt op ku r ns"
proof -
  have "read_token op ku' = read_token op ku" "apply_if_moved ku' = apply_if_moved ku"
    unfolding fun_eq_iff read_token_def apply_if_moved_def assms by blast+
  then show ?thesis using assms by (simp add: attempt_def)
qed

text \<open>C37: when an edit of a class changes what an attempt at some Render does, that Render is among those
  the class's watch re-renders, for a namespaced class and for a cluster class.\<close>

theorem class_edits_reach_their_renders:
  assumes "r \<in> set all" and "rr_namespace r = Some ns" and "rr_name r = Some n"
  shows "(attempt op (ku \<lparr> ku_class := (ku_class ku) (cns := (ku_class ku cns) (cname := x)) \<rparr>) r ns
            \<noteq> attempt op ku r ns \<longrightarrow> (ns, n) \<in> set (class_mapper all (Some cns, Some cname))) \<and>
    (attempt op (ku \<lparr> ku_cluster_class := (ku_cluster_class ku) (cname := y) \<rparr>) r ns
            \<noteq> attempt op ku r ns \<longrightarrow> (ns, n) \<in> set (cluster_mapper all (Some cname)))"
proof (intro conjI impI)
  assume differ: "attempt op (ku \<lparr> ku_class := (ku_class ku) (cns := (ku_class ku cns) (cname := x)) \<rparr>) r ns
            \<noteq> attempt op ku r ns"
  have "cns = ns \<and> cname = rs_class (rr_spec r)"
    using differ by (rule contrapos_np) (rule attempt_reads, auto simp: resolve_class_def split: ClassKind.splits)
  then show "(ns, n) \<in> set (class_mapper all (Some cns, Some cname))"
    using assms by (force simp: class_mapper_def List.map_filter_def)
next
  assume differ: "attempt op (ku \<lparr> ku_cluster_class := (ku_cluster_class ku) (cname := y) \<rparr>) r ns
            \<noteq> attempt op ku r ns"
  have "cname = rs_class (rr_spec r) \<and> rs_class_kind (rr_spec r) = ClusterClass"
    using differ by (rule contrapos_np) (rule attempt_reads, auto simp: resolve_class_def split: ClassKind.splits)
  then show "(ns, n) \<in> set (cluster_mapper all (Some cname))"
    using assms by (force simp: cluster_mapper_def List.map_filter_def)
qed

theorem class_edits_reach_their_renders_witness:
  "(''team'', ''app'') \<in> set (cluster_mapper [example_render] (Some ''prod''))"
proof -
  have "attempt example_operator (example_kube \<lparr> ku_cluster_class :=
      (ku_cluster_class example_kube) (''prod'' := Inr None) \<rparr>) example_render ''team'' \<noteq> Inr (Some example_manifest)"
    by (simp add: attempt_def Let_def resolve_class_def example_render_def)
  then show ?thesis
    using class_edits_reach_their_renders [of example_render "[example_render]" "''team''" "''app''"
        example_operator example_kube _ "''prod''" _ "Inr None"] example_attempt
    by (simp add: example_render_def)
qed

section \<open>Panics\<close>

text \<open>\<open>build\<close> and \<open>render_fetched\<close> state what \<open>validated\<close> ensures; a Render's specification never passed it.\<close>

lemma vault_class_without_token_panics:
  assumes "rr_namespace r = Some ns" "rr_name r = Some n" "rs_class_kind (rr_spec r) = NamespacedClass"
    "ku_class ku ns (rs_class (rr_spec r)) = Inr (Some \<lparr> kl_source = ''vault'', kl_endpoint = e, kl_token_secret = None \<rparr>)"
    "tg_secret (rs_target (rr_spec r)) = Some s" "tg_config_map (rs_target (rr_spec r)) = None"
    "tg_file (rs_target (rr_spec r)) = Some f" "CHR ''/'' \<in> set (rs_key (rr_spec r))"
  shows "handle op ku now clock elapsed r mg = (mg, [], None)"
proof -
  have "build (op_refuses op) (render_spec (rr_spec r) ''vault'' e None) = Inl BuildPanic"
    by (rule unchecked_vault_panics) (use assms(8) in \<open>simp_all add: render_spec_def\<close>)
  then have "attempt op ku r ns = Inl Panicked"
    using assms by (simp add: attempt_def resolve_class_def check_target_def read_token_def build_failure_def Let_def)
  then show ?thesis using assms(1,2) by (simp add: handle_def reconcile_def)
qed

lemma unknown_extension_panics:
  assumes "resolve_class ku (rr_spec r) ns = Inr (source, endpoint, token_ref)"
    "check_target (rs_target (rr_spec r)) source = Inr ()" "read_token op ku token_ref = Inr token"
    "build (op_refuses op) (render_spec (rr_spec r) source endpoint token) = Inr store"
    "op_fetch op store = Inr fetched"
    "resolve_document (op_engine op) fetched None = Inr j"
    "tg_shape (rs_target (rr_spec r)) = FileShape" "tg_file (rs_target (rr_spec r)) = Some f" "format_of f = None"
  shows "attempt op ku r ns = Inl Panicked"
  using assms
  by (simp add: attempt_def target_data_def render_fetched_def render_spec_def check_schema_def emit_as_def
      render_failure_def)

text \<open>An empty list of namespaces admits none.\<close>

lemma empty_namespaces_admit_nobody:
  assumes "rs_class_kind (rr_spec r) = ClusterClass"
    "ku_cluster_class ku (rs_class (rr_spec r)) = Inr (Some c)" "kc_namespaces c = Some []"
  shows "\<exists>e. attempt op ku r ns = Inl (Failure e)"
  using assms by (simp add: attempt_def resolve_class_def Let_def)

end
