(* ===== verification/Election.thy ===== *)
theory Election
  imports Prelude
begin

text \<open>
  The two elections over a Kubernetes \<open>Lease\<close>: the operator's (\<open>election.rs\<close>) and the webhook's rotation
  (\<open>selfrotate.rs\<close>: \<open>hold_lease\<close>). A claim is read, decide and write, and replicas interleave between
  them; what keeps them apart is the resource version, the contract of the locale \<open>fenced_store\<close>. Times
  are microseconds of one clock; a skew between replicas' clocks is not modelled.
\<close>

section \<open>The API server's side\<close>

record lease_object =
  le_holder :: "string option"
  le_seconds :: "int option"
  le_renewed :: "int option"
  le_acquired :: "int option"
  le_transitions :: "32 word option"

text \<open>
  The object with its resource version, which every write moves. Nobody deletes it.
\<close>

type_synonym server = "(nat \<times> lease_object) option"

definition get_opt :: "server \<Rightarrow> (nat \<times> lease_object) option" where
  "get_opt s = s"

definition create :: "lease_object \<Rightarrow> server \<Rightarrow> server option" where
  "create v s = (if s = None then Some (Some (0, v)) else None)"

definition replace :: "nat \<Rightarrow> lease_object \<Rightarrow> server \<Rightarrow> server option" where
  "replace n v s =
     (case s of
        None \<Rightarrow> None
      | Some (m, _) \<Rightarrow> if m = n then Some (Some (m + 1, v)) else None)"

section \<open>Deciding\<close>

definition SECOND_US :: int where "SECOND_US = 1000000"

text \<open>\<open>num_seconds\<close> rounds towards zero.\<close>

definition num_seconds :: "int \<Rightarrow> int" where
  "num_seconds d = (if 0 \<le> d then d div SECOND_US else - ((- d) div SECOND_US))"

definition TERM_SECONDS :: int where "TERM_SECONDS = 15"

definition LEASE_SECONDS :: int where "LEASE_SECONDS = 30"

definition expired :: "int \<Rightarrow> int \<Rightarrow> lease_object \<Rightarrow> bool" where
  "expired default_seconds later v =
     (case le_renewed v of
        None \<Rightarrow> True
      | Some r \<Rightarrow> num_seconds (later - r) > unwrap_or (le_seconds v) default_seconds)"

datatype plan = Nothing | CreateNew lease_object | ReplaceAt nat lease_object

definition mine :: "string \<Rightarrow> int \<Rightarrow> int option \<Rightarrow> 32 word option \<Rightarrow> lease_object" where
  "mine identity now acquired transitions =
     \<lparr> le_holder = Some identity, le_seconds = Some TERM_SECONDS, le_renewed = Some now,
       le_acquired = Some (unwrap_or acquired now), le_transitions = transitions \<rparr>"

definition claim :: "string \<Rightarrow> int \<Rightarrow> int \<Rightarrow> (nat \<times> lease_object) option \<Rightarrow> plan" where
  "claim identity now later current =
     (case current of
        None \<Rightarrow> CreateNew (mine identity now None (Some 0))
      | Some (n, v) \<Rightarrow>
          let held_by_me = (le_holder v = Some identity) in
          if \<not> held_by_me \<and> \<not> expired TERM_SECONDS later v then Nothing
          else if held_by_me then ReplaceAt n (mine identity now (le_acquired v) (le_transitions v))
          else ReplaceAt n (mine identity now None (Some (unwrap_or (le_transitions v) 0 + 1))))"

definition desired :: "string \<Rightarrow> int \<Rightarrow> lease_object" where
  "desired identity now =
     \<lparr> le_holder = Some identity, le_seconds = Some LEASE_SECONDS, le_renewed = Some now,
       le_acquired = None, le_transitions = None \<rparr>"

definition hold_lease :: "string \<Rightarrow> int \<Rightarrow> int \<Rightarrow> (nat \<times> lease_object) option \<Rightarrow> plan" where
  "hold_lease identity now later current =
     (case current of
        None \<Rightarrow> CreateNew (desired identity now)
      | Some (n, v) \<Rightarrow>
          if le_holder v = Some identity \<or> expired LEASE_SECONDS later v
          then ReplaceAt n (desired identity now) else Nothing)"

text \<open>
  What the caller is answered, when the API server took the write, refused it as a conflict, or failed.
  The rotation passes a conflict of its replacement on as an error.
\<close>

datatype reply = Took | Conflict | ServerFailed

datatype answer = Leads bool | ApiError

definition claim_answer :: "plan \<Rightarrow> reply \<Rightarrow> answer" where
  "claim_answer p r =
     (if p = Nothing then Leads False
      else (case r of Took \<Rightarrow> Leads True | Conflict \<Rightarrow> Leads False | ServerFailed \<Rightarrow> ApiError))"

definition hold_answer :: "plan \<Rightarrow> reply \<Rightarrow> answer" where
  "hold_answer p r =
     (case p of
        Nothing \<Rightarrow> Leads False
      | CreateNew _ \<Rightarrow> (case r of Took \<Rightarrow> Leads True | Conflict \<Rightarrow> Leads False | ServerFailed \<Rightarrow> ApiError)
      | ReplaceAt _ _ \<Rightarrow> (case r of Took \<Rightarrow> Leads True | _ \<Rightarrow> ApiError))"

section \<open>Replicas that contend\<close>

datatype phase =
    Idle
  | Begun int
  | Seen int "(nat \<times> lease_object) option"
  | Planned plan int

record 's contest =
  ct_store :: 's
  ct_clock :: int
  ct_phase :: "string \<Rightarrow> phase"

text \<open>
  A claim takes the time, reads, decides at a time of its own, and writes; it can stop anywhere. A write
  that lands changes the store, one that does not leaves it as it is.
\<close>

inductive contends :: "('s \<Rightarrow> (nat \<times> lease_object) option) \<Rightarrow> (lease_object \<Rightarrow> 's \<Rightarrow> 's option)
    \<Rightarrow> (nat \<Rightarrow> lease_object \<Rightarrow> 's \<Rightarrow> 's option)
    \<Rightarrow> (string \<Rightarrow> int \<Rightarrow> int \<Rightarrow> (nat \<times> lease_object) option \<Rightarrow> plan) \<Rightarrow> 's contest \<Rightarrow> bool"
  for get create' replace' decide where
  nobody: "get s = None \<Longrightarrow>
    contends get create' replace' decide \<lparr> ct_store = s, ct_clock = now, ct_phase = (\<lambda>_. Idle) \<rparr>"
| time_passes: "contends get create' replace' decide c \<Longrightarrow> 0 \<le> d \<Longrightarrow>
    contends get create' replace' decide (c \<lparr> ct_clock := ct_clock c + d \<rparr>)"
| begins: "contends get create' replace' decide c \<Longrightarrow>
    contends get create' replace' decide (c \<lparr> ct_phase := (ct_phase c) (i := Begun (ct_clock c)) \<rparr>)"
| looks: "contends get create' replace' decide c \<Longrightarrow> ct_phase c i = Begun now \<Longrightarrow>
    contends get create' replace' decide
      (c \<lparr> ct_phase := (ct_phase c) (i := Seen now (get (ct_store c))) \<rparr>)"
| decides: "contends get create' replace' decide c \<Longrightarrow> ct_phase c i = Seen now cur \<Longrightarrow>
    contends get create' replace' decide
      (c \<lparr> ct_phase := (ct_phase c) (i := Planned (decide i now (ct_clock c) cur) (ct_clock c)) \<rparr>)"
| creates: "contends get create' replace' decide c \<Longrightarrow> ct_phase c i = Planned (CreateNew v) at \<Longrightarrow>
    create' v (ct_store c) = Some s \<Longrightarrow>
    contends get create' replace' decide (c \<lparr> ct_store := s, ct_phase := (ct_phase c) (i := Idle) \<rparr>)"
| replaces: "contends get create' replace' decide c \<Longrightarrow> ct_phase c i = Planned (ReplaceAt n v) at \<Longrightarrow>
    replace' n v (ct_store c) = Some s \<Longrightarrow>
    contends get create' replace' decide (c \<lparr> ct_store := s, ct_phase := (ct_phase c) (i := Idle) \<rparr>)"
| stops: "contends get create' replace' decide c \<Longrightarrow>
    contends get create' replace' decide (c \<lparr> ct_phase := (ct_phase c) (i := Idle) \<rparr>)"

section \<open>The fence\<close>

text \<open>What a claim saw is still what the store has, unless the version moved on.\<close>

definition view_ok :: "(nat \<times> lease_object) option \<Rightarrow> nat \<Rightarrow> lease_object \<Rightarrow> bool" where
  "view_ok cur n w \<longleftrightarrow> (\<exists>m u. cur = Some (m, u) \<and> n \<le> m \<and> (m = n \<longrightarrow> u = w))"

definition stamped :: "int \<Rightarrow> int \<Rightarrow> lease_object \<Rightarrow> bool" where
  "stamped seconds clock v \<longleftrightarrow> le_seconds v = Some seconds \<and> (\<exists>r \<le> clock. le_renewed v = Some r)"

definition phase_ok :: "int \<Rightarrow> (nat \<times> lease_object) option \<Rightarrow> int \<Rightarrow> string \<Rightarrow> phase \<Rightarrow> bool" where
  "phase_ok seconds cur clock i ph =
     (case ph of
        Idle \<Rightarrow> True
      | Begun now \<Rightarrow> now \<le> clock
      | Seen now seen \<Rightarrow> now \<le> clock \<and> (\<forall>n w. seen = Some (n, w) \<longrightarrow> view_ok cur n w)
      | Planned p at \<Rightarrow> at \<le> clock \<and>
          (case p of
             Nothing \<Rightarrow> True
           | CreateNew v \<Rightarrow> stamped seconds clock v
           | ReplaceAt n v \<Rightarrow> le_holder v = Some i \<and> stamped seconds clock v \<and>
               (\<exists>w. (le_holder w = Some i \<or> expired seconds at w) \<and> view_ok cur n w)))"

lemma phase_ok_simps [simp]:
  "phase_ok seconds cur clock i Idle"
  "phase_ok seconds cur clock i (Begun now) \<longleftrightarrow> now \<le> clock"
  "phase_ok seconds cur clock i (Seen now seen) \<longleftrightarrow>
     now \<le> clock \<and> (\<forall>n w. seen = Some (n, w) \<longrightarrow> view_ok cur n w)"
  "phase_ok seconds cur clock i (Planned Nothing at) \<longleftrightarrow> at \<le> clock"
  "phase_ok seconds cur clock i (Planned (CreateNew v) at) \<longleftrightarrow> at \<le> clock \<and> stamped seconds clock v"
  "phase_ok seconds cur clock i (Planned (ReplaceAt n v) at) \<longleftrightarrow>
     at \<le> clock \<and> le_holder v = Some i \<and> stamped seconds clock v \<and>
     (\<exists>w. (le_holder w = Some i \<or> expired seconds at w) \<and> view_ok cur n w)"
  by (simp_all add: phase_ok_def)

lemma stamped_later: "stamped seconds clock v \<Longrightarrow> clock \<le> later \<Longrightarrow> stamped seconds later v"
  by (auto simp: stamped_def)

lemma phase_ok_later:
  "phase_ok seconds cur clock i ph \<Longrightarrow> clock \<le> later \<Longrightarrow> phase_ok seconds cur later i ph"
  by (auto simp: phase_ok_def stamped_later split: phase.splits plan.splits)

lemma view_ok_written: "view_ok cur n w \<Longrightarrow> (\<And>k u. cur = Some (k, u) \<Longrightarrow> k < m) \<Longrightarrow> view_ok (Some (m, v)) n w"
  by (fastforce simp: view_ok_def)

lemma phase_ok_written:
  assumes "phase_ok seconds cur clock i ph" and "\<And>k u. cur = Some (k, u) \<Longrightarrow> k < m"
  shows "phase_ok seconds (Some (m, v)) clock i ph"
proof -
  have "view_ok cur n w \<Longrightarrow> view_ok (Some (m, v)) n w" for n w
    using view_ok_written assms(2) by blast
  with assms(1) show ?thesis by (auto simp: phase_ok_def split: phase.splits plan.splits)
qed

locale fenced_store =
  fixes get :: "'s \<Rightarrow> (nat \<times> 'v) option"
    and create :: "'v \<Rightarrow> 's \<Rightarrow> 's option"
    and replace :: "nat \<Rightarrow> 'v \<Rightarrow> 's \<Rightarrow> 's option"
  assumes created: "create v s = Some t \<Longrightarrow> get s = None \<and> (\<exists>n. get t = Some (n, v))"
    and replaced: "replace n v s = Some t \<Longrightarrow> (\<exists>w. get s = Some (n, w)) \<and> (\<exists>m > n. get t = Some (m, v))"
begin

text \<open>Of two writes based on one version at most one lands.\<close>

lemma one_winner: "replace n v s = Some t \<Longrightarrow> replace n u t = None"
proof (cases "replace n u t")
  case (Some t')
  assume "replace n v s = Some t"
  with replaced [OF this] replaced [OF Some] show ?thesis by auto
qed simp

lemma one_creator: "create v s = Some t \<Longrightarrow> create u t = None"
proof (cases "create u t")
  case (Some t')
  assume "create v s = Some t"
  with created [OF this] created [OF Some] show ?thesis by auto
qed simp

end

locale lease_protocol = fenced_store get create replace
  for get :: "'s \<Rightarrow> (nat \<times> lease_object) option" and create replace +
  fixes decide :: "string \<Rightarrow> int \<Rightarrow> int \<Rightarrow> (nat \<times> lease_object) option \<Rightarrow> plan"
    and seconds :: int
  assumes decided_create: "decide i now later cur = CreateNew v \<Longrightarrow>
      le_holder v = Some i \<and> le_seconds v = Some seconds \<and> le_renewed v = Some now"
    and decided_replace: "decide i now later cur = ReplaceAt n v \<Longrightarrow>
      le_holder v = Some i \<and> le_seconds v = Some seconds \<and> le_renewed v = Some now \<and>
      (\<exists>w. cur = Some (n, w) \<and> (le_holder w = Some i \<or> expired seconds later w))"
begin

text \<open>
  Whatever the interleaving: a claim that saw a version the store still has saw the object the store has,
  and everything in the store was written with the protocol's term and a time that has passed.
\<close>

lemma contest_inv:
  assumes "contends get create replace decide c"
  shows "(\<forall>n w. get (ct_store c) = Some (n, w) \<longrightarrow> stamped seconds (ct_clock c) w) \<and>
    (\<forall>i. phase_ok seconds (get (ct_store c)) (ct_clock c) i (ct_phase c i))"
  using assms
proof induction
  case (nobody s now)
  then show ?case by simp
next
  case (time_passes c d)
  then show ?case
    by (auto intro: stamped_later [where clock = "ct_clock c"] phase_ok_later [where clock = "ct_clock c"])
next
  case (begins c i)
  then show ?case by simp
next
  case (looks c i now)
  then have "now \<le> ct_clock c" by (metis phase_ok_simps(2))
  then show ?case using looks.IH by (simp add: view_ok_def)
next
  case (decides c i now cur)
  then have seen: "phase_ok seconds (get (ct_store c)) (ct_clock c) i (Seen now cur)" by metis
  have "phase_ok seconds (get (ct_store c)) (ct_clock c) i (Planned (decide i now (ct_clock c) cur) (ct_clock c))"
  proof (cases "decide i now (ct_clock c) cur")
    case Nothing
    then show ?thesis by simp
  next
    case (CreateNew v)
    then show ?thesis using seen decided_create [OF CreateNew] by (simp add: stamped_def)
  next
    case (ReplaceAt n v)
    then show ?thesis using seen decided_replace [OF ReplaceAt] by (auto simp: stamped_def)
  qed
  then show ?case using decides.IH by simp
next
  case (creates c i v at s)
  then have "phase_ok seconds (get (ct_store c)) (ct_clock c) i (Planned (CreateNew v) at)" by metis
  moreover obtain n where "get (ct_store c) = None" "get s = Some (n, v)"
    using created [OF creates.hyps(3)] by auto
  ultimately show ?case
    using creates.IH phase_ok_written [of seconds None "ct_clock c" _ _ n v] by simp
next
  case (replaces c i n v at s)
  then have "phase_ok seconds (get (ct_store c)) (ct_clock c) i (Planned (ReplaceAt n v) at)" by metis
  moreover obtain w m where "get (ct_store c) = Some (n, w)" "n < m" "get s = Some (m, v)"
    using replaced [OF replaces.hyps(3)] by auto
  ultimately show ?case
    using replaces.IH phase_ok_written [of seconds "Some (n, w)" "ct_clock c" _ _ m v] by simp
next
  case (stops c i)
  then show ?case by simp
qed

lemma write_after_term:
  assumes "contends get create replace decide c" and "ct_phase c i = Planned (ReplaceAt n v) at"
    and "replace n v (ct_store c) = Some s"
  shows "\<exists>w r. get (ct_store c) = Some (n, w) \<and> le_renewed w = Some r \<and>
    (le_holder w = Some i \<or> seconds < num_seconds (at - r)) \<and> at \<le> ct_clock c"
proof -
  obtain w where w: "get (ct_store c) = Some (n, w)" using replaced [OF assms(3)] by auto
  then have "stamped seconds (ct_clock c) w" "phase_ok seconds (Some (n, w)) (ct_clock c) i (Planned (ReplaceAt n v) at)"
    using contest_inv [OF assms(1)] assms(2) by metis+
  then show ?thesis
    using w by (auto simp: stamped_def view_ok_def expired_def unwrap_or_def)
qed

end

lemma num_seconds_gt: "0 \<le> s \<Longrightarrow> s < num_seconds d \<Longrightarrow> (s + 1) * SECOND_US \<le> d"
  by (auto simp: num_seconds_def SECOND_US_def split: if_splits)

interpretation kubernetes: fenced_store get_opt create replace
  by unfold_locales (auto simp: get_opt_def create_def replace_def split: option.splits if_splits)

interpretation operator_lease: lease_protocol get_opt create replace claim TERM_SECONDS
  by unfold_locales
     (auto simp: claim_def mine_def Let_def split: option.splits if_splits)

interpretation rotation_lease: lease_protocol get_opt create replace hold_lease LEASE_SECONDS
  by unfold_locales (auto simp: hold_lease_def desired_def split: option.splits if_splits)

text \<open>Two replicas, one after the other.\<close>

lemma taken_over:
  assumes "decide ''a'' 0 0 None = CreateNew v" and "decide ''b'' later later (Some (0, v)) = ReplaceAt 0 u"
    and "0 \<le> later"
  shows "\<exists>c. contends get_opt create replace decide c \<and> ct_phase c ''b'' = Planned (ReplaceAt 0 u) later \<and>
    ct_store c = Some (0, v)"
proof -
  let ?k = "contends get_opt create replace decide"
  have "?k \<lparr> ct_store = None, ct_clock = 0, ct_phase = (\<lambda>_. Idle) \<rparr>"
    by (rule contends.nobody) (simp add: get_opt_def)
  from contends.begins [OF this, of "''a''"]
  have "?k \<lparr> ct_store = None, ct_clock = 0, ct_phase = (\<lambda>_. Idle) (''a'' := Begun 0) \<rparr>" by simp
  from contends.looks [OF this, of "''a''" 0]
  have "?k \<lparr> ct_store = None, ct_clock = 0, ct_phase = (\<lambda>_. Idle) (''a'' := Seen 0 None) \<rparr>"
    by (simp add: get_opt_def)
  from contends.decides [OF this, of "''a''" 0 None]
  have "?k \<lparr> ct_store = None, ct_clock = 0, ct_phase = (\<lambda>_. Idle) (''a'' := Planned (CreateNew v) 0) \<rparr>"
    by (simp add: assms(1))
  from contends.creates [OF this, of "''a''" v 0 "Some (0, v)"]
  have "?k \<lparr> ct_store = Some (0, v), ct_clock = 0, ct_phase = (\<lambda>_. Idle) (''a'' := Idle) \<rparr>"
    by (simp add: create_def)
  from contends.begins [OF contends.time_passes [OF this assms(3)], of "''b''"]
  have "?k \<lparr> ct_store = Some (0, v), ct_clock = later, ct_phase = (\<lambda>_. Idle) (''a'' := Idle, ''b'' := Begun later) \<rparr>"
    by simp
  from contends.looks [OF this, of "''b''" later]
  have "?k \<lparr> ct_store = Some (0, v), ct_clock = later,
      ct_phase = (\<lambda>_. Idle) (''a'' := Idle, ''b'' := Seen later (Some (0, v))) \<rparr>" by (simp add: get_opt_def)
  from contends.decides [OF this, of "''b''" later "Some (0, v)"]
  have "?k \<lparr> ct_store = Some (0, v), ct_clock = later,
      ct_phase = (\<lambda>_. Idle) (''a'' := Idle, ''b'' := Planned (ReplaceAt 0 u) later) \<rparr>" by (simp add: assms(2))
  then show ?thesis by fastforce
qed

text \<open>C11: whatever the replicas' claims interleave to, an operator's write over a lease finds the very
  object its claim decided on; unless it renews its own lease, at least sixteen seconds had passed since
  that object's last renewal when it decided, and no other write based on the same version lands.\<close>

theorem leadership_changes_after_a_full_term:
  assumes "contends get_opt create replace claim c" and "ct_phase c i = Planned (ReplaceAt n v) at"
    and "replace n v (ct_store c) = Some s"
  shows "\<exists>w r. ct_store c = Some (n, w) \<and> le_renewed w = Some r \<and> at \<le> ct_clock c \<and>
    (le_holder w = Some i \<or> r + 16 * SECOND_US \<le> at) \<and> (\<forall>u. replace n u s = None)"
  using operator_lease.write_after_term [OF assms] num_seconds_gt [of TERM_SECONDS]
    kubernetes.one_winner [OF assms(3)]
  by (fastforce simp: get_opt_def TERM_SECONDS_def)

theorem leadership_changes_after_a_full_term_witness:
  "\<exists>c n v s at w r. contends get_opt create replace claim c \<and> ct_phase c ''b'' = Planned (ReplaceAt n v) at \<and>
     replace n v (ct_store c) = Some s \<and> ct_store c = Some (n, w) \<and> le_holder w = Some ''a'' \<and>
     le_renewed w = Some r \<and> r + 16 * SECOND_US \<le> at"
proof -
  define v where "v = mine ''a'' 0 None (Some 0)"
  obtain u where u: "claim ''b'' 16000000 16000000 (Some (0, v)) = ReplaceAt 0 u"
    by (simp add: claim_def v_def mine_def expired_def num_seconds_def SECOND_US_def TERM_SECONDS_def unwrap_or_def)
  obtain c where c: "contends get_opt create replace claim c" "ct_phase c ''b'' = Planned (ReplaceAt 0 u) 16000000"
    "ct_store c = Some (0, v)"
    using taken_over [of claim v 16000000 u] u by (auto simp: claim_def v_def)
  moreover have "replace 0 u (ct_store c) = Some (Some (1, u))" using c(3) by (simp add: replace_def)
  ultimately show ?thesis
    using leadership_changes_after_a_full_term [OF c(1,2)] by (fastforce simp: v_def mine_def)
qed

text \<open>The same of the lease a rotation of the webhook's certificates is held under, with thirty-one
  seconds.\<close>

theorem rotation_lease_changes_after_a_full_term:
  assumes "contends get_opt create replace hold_lease c" and "ct_phase c i = Planned (ReplaceAt n v) at"
    and "replace n v (ct_store c) = Some s"
  shows "\<exists>w r. ct_store c = Some (n, w) \<and> le_renewed w = Some r \<and> at \<le> ct_clock c \<and>
    (le_holder w = Some i \<or> r + 31 * SECOND_US \<le> at) \<and> (\<forall>u. replace n u s = None)"
  using rotation_lease.write_after_term [OF assms] num_seconds_gt [of LEASE_SECONDS]
    kubernetes.one_winner [OF assms(3)]
  by (fastforce simp: get_opt_def LEASE_SECONDS_def)

theorem rotation_lease_changes_after_a_full_term_witness:
  "\<exists>c n v s at w r. contends get_opt create replace hold_lease c \<and> ct_phase c ''b'' = Planned (ReplaceAt n v) at \<and>
     replace n v (ct_store c) = Some s \<and> ct_store c = Some (n, w) \<and> le_holder w = Some ''a'' \<and>
     le_renewed w = Some r \<and> r + 31 * SECOND_US \<le> at"
proof -
  define v where "v = desired ''a'' 0"
  obtain u where u: "hold_lease ''b'' 31000000 31000000 (Some (0, v)) = ReplaceAt 0 u"
    by (simp add: hold_lease_def v_def desired_def expired_def num_seconds_def SECOND_US_def LEASE_SECONDS_def unwrap_or_def)
  obtain c where c: "contends get_opt create replace hold_lease c" "ct_phase c ''b'' = Planned (ReplaceAt 0 u) 31000000"
    "ct_store c = Some (0, v)"
    using taken_over [of hold_lease v 31000000 u] u by (auto simp: hold_lease_def v_def)
  moreover have "replace 0 u (ct_store c) = Some (Some (1, u))" using c(3) by (simp add: replace_def)
  ultimately show ?thesis
    using rotation_lease_changes_after_a_full_term [OF c(1,2)] by (fastforce simp: v_def desired_def)
qed

section \<open>Leading\<close>

definition RENEW :: int where "RENEW = 5"

text \<open>
  A leader that renews every so often, each renewal with its answer and how long it took; \<open>held\<close> is when the
  last one succeeded. It gives up when another replica leads, or when an answer fails a term after that. The
  answer is the moment it does, if these renewals make it.
\<close>

fun gives_up :: "int \<Rightarrow> int \<Rightarrow> (answer \<times> int) list \<Rightarrow> int \<Rightarrow> int \<Rightarrow> int option" where
  "gives_up every span [] held now = None"
| "gives_up every span ((a, took) # rest) held now =
     (let later = now + every + took in
      case a of
        Leads True \<Rightarrow> gives_up every span rest later later
      | Leads False \<Rightarrow> Some later
      | ApiError \<Rightarrow> if later - held \<ge> span then Some later else gives_up every span rest held later)"

text \<open>The future \<open>lead\<close> returns, and the renewals beside a rotation.\<close>

definition stands_down :: "(answer \<times> int) list \<Rightarrow> int \<Rightarrow> int \<Rightarrow> int option" where
  "stands_down = gives_up (RENEW * SECOND_US) (TERM_SECONDS * SECOND_US)"

definition rotation_lost :: "(answer \<times> int) list \<Rightarrow> int \<Rightarrow> int \<Rightarrow> int option" where
  "rotation_lost = gives_up (LEASE_SECONDS * SECOND_US div 3) (LEASE_SECONDS * SECOND_US)"

lemma gives_up_errors:
  assumes "\<forall>e \<in> set rs. fst e = ApiError \<and> 0 \<le> snd e \<and> snd e \<le> slow"
    and "now - held < span" and "0 \<le> every" and "span \<le> (now - held) + int (length rs) * every"
  shows "\<exists>at. gives_up every span rs held now = Some at \<and> held + span \<le> at \<and> at < held + span + every + slow"
  using assms(1,2,4)
proof (induction rs arbitrary: now)
  case (Cons e rs)
  obtain took where e: "e = (ApiError, took)" "0 \<le> took" "took \<le> slow"
    using Cons.prems(1) by (cases e) auto
  let ?later = "now + every + took"
  show ?case
  proof (cases "?later - held \<ge> span")
    case True
    then show ?thesis using e Cons.prems(2) by simp
  next
    case False
    then show ?thesis
      using Cons.IH [of ?later] Cons.prems e by (simp add: algebra_simps)
  qed
qed simp

text \<open>C38: a leader whose renewals all fail stands down: at the earliest a term after the last that
  succeeded, and less than one renewal interval and one slow request after that.\<close>

theorem leader_stands_down:
  assumes "\<forall>e \<in> set rs. fst e = ApiError \<and> 0 \<le> snd e \<and> snd e \<le> slow" and "3 \<le> length rs"
  shows "\<exists>at. stands_down rs held held = Some at \<and> held + 15 * SECOND_US \<le> at \<and> at < held + 20 * SECOND_US + slow"
  using gives_up_errors [OF assms(1), where now = held and held = held and span = "15 * SECOND_US" and every = "5 * SECOND_US"]
    assms(2) by (simp add: stands_down_def TERM_SECONDS_def RENEW_def SECOND_US_def ac_simps)

theorem leader_stands_down_witness:
  "\<exists>at. stands_down [(ApiError, 0), (ApiError, 7), (ApiError, 2)] 0 0 = Some at \<and> 15000000 \<le> at \<and> at < 20000007"
  using leader_stands_down [of "[(ApiError, 0), (ApiError, 7), (ApiError, 2)]" 7 0]
  by (simp add: SECOND_US_def)

text \<open>
  A term of another replica can begin before that: with renewals that fail after four seconds the leader
  stands down at eighteen seconds, and its lease had expired at sixteen. A request has no deadline.
\<close>

lemma leader_outlives_its_lease:
  "stands_down [(ApiError, 4 * SECOND_US), (ApiError, 4 * SECOND_US)] 0 0 = Some (18 * SECOND_US) \<and>
   expired TERM_SECONDS (16 * SECOND_US) (mine i 0 acquired transitions)"
  by (simp add: stands_down_def RENEW_def TERM_SECONDS_def SECOND_US_def expired_def mine_def num_seconds_def unwrap_or_def)

text \<open>A rotation whose renewals all fail is dropped within forty seconds of the last that succeeded, and one request.\<close>

lemma rotation_is_dropped:
  assumes "\<forall>e \<in> set rs. fst e = ApiError \<and> 0 \<le> snd e \<and> snd e \<le> slow" and "3 \<le> length rs"
  shows "\<exists>at. rotation_lost rs held held = Some at \<and> held + 30 * SECOND_US \<le> at \<and> at < held + 40 * SECOND_US + slow"
  using gives_up_errors [OF assms(1), where now = held and held = held and span = "30 * SECOND_US" and every = "10 * SECOND_US"]
    assms(2) by (simp add: rotation_lost_def LEASE_SECONDS_def SECOND_US_def ac_simps)

text \<open>The rotation takes a conflict for a failure: it hears of the replica that took its lease one renewal later.\<close>

lemma conflict_is_answered_differently:
  "claim_answer (ReplaceAt n v) Conflict = Leads False" "hold_answer (ReplaceAt n v) Conflict = ApiError"
  by (simp_all add: claim_answer_def hold_answer_def)

end
