(* ===== verification/Rotation.thy ===== *)
theory Rotation
  imports Election
begin

text \<open>
  The webhook's own certificates (\<open>selfrotate.rs\<close>): when a rotation is due, what it writes and in which
  order, and what the API server and the replicas make of it. Durations and times are seconds; \<open>jitter\<close>
  is the random factor in thousandths. A certificate is its PEM text. What the certificate library mints
  and which certificate signed which are parameters.
\<close>

section \<open>Settings\<close>

record Settings =
  se_namespace :: string
  se_service :: string
  se_secret :: string
  se_webhook_configuration :: string
  se_identity :: string

definition settings_from_environment :: "(string \<Rightarrow> string option) \<Rightarrow> Settings option" where
  "settings_from_environment env =
     (if env ''DYNAMIC_CONFIG_WEBHOOK_SELF_ROTATE'' \<noteq> Some ''1'' then None
      else Option.bind (env ''DYNAMIC_CONFIG_WEBHOOK_NAMESPACE'') (\<lambda>namespace.
           Option.bind (env ''DYNAMIC_CONFIG_WEBHOOK_SERVICE'') (\<lambda>service.
           Option.bind (env ''DYNAMIC_CONFIG_WEBHOOK_TLS_SECRET'') (\<lambda>secret.
           Option.bind (env ''DYNAMIC_CONFIG_WEBHOOK_MWC'') (\<lambda>configuration.
           Some \<lparr> se_namespace = namespace, se_service = service, se_secret = secret,
                  se_webhook_configuration = configuration,
                  se_identity = unwrap_or (env ''HOSTNAME'') ''dynamic-config-webhook'' \<rparr>)))))"

definition validity :: "(string \<Rightarrow> string option) \<Rightarrow> int" where
  "validity env =
     int (unwrap_or (Option.bind (env ''DYNAMIC_CONFIG_WEBHOOK_VALIDITY_SECONDS'') (parse_uint 10 64)) 86400)"

definition SKEW :: int where "SKEW = 300"

section \<open>What is minted\<close>

record Minted =
  mi_ca :: string
  mi_leaf :: string
  mi_key :: string

text \<open>The time a certificate minted at \<open>now\<close> is valid, for the leaf and for its CA.\<close>

definition leaf_window :: "int \<Rightarrow> int \<Rightarrow> int \<times> int" where
  "leaf_window now life = (now - SKEW, now - SKEW + life)"

definition ca_window :: "int \<Rightarrow> int \<Rightarrow> int \<times> int" where
  "ca_window now life = (now - SKEW, now - SKEW + life * 2)"

definition END_MARK :: string where
  "END_MARK = ''-----END CERTIFICATE-----''"

definition first_certificate :: "string \<Rightarrow> string" where
  "first_certificate t =
     (case find_sub END_MARK t of None \<Rightarrow> [] | Some n \<Rightarrow> take (n + length END_MARK) t)"

text \<open>The PEM blocks of a text, as a reader of it finds them.\<close>

function certificates :: "string \<Rightarrow> string list" where
  "certificates t =
     (case find_sub END_MARK t of
        None \<Rightarrow> []
      | Some n \<Rightarrow> trim (take (n + length END_MARK) t) # certificates (drop (n + length END_MARK) t))"
  by pat_completeness auto
termination
proof (relation "measure length")
  fix t n
  assume "find_sub END_MARK t = Some n"
  then have "starts_with END_MARK (drop n t)" using find_sub_Some by blast
  then have "t \<noteq> []" by (auto simp: starts_with_iff END_MARK_def)
  then show "(drop (n + length END_MARK) t, t) \<in> measure length" by (simp add: END_MARK_def)
qed simp

declare certificates.simps [simp del]

section \<open>The cluster\<close>

record tls_secret =
  ts_leaf :: string
  ts_key :: string
  ts_ca :: "string option"
  ts_not_after :: "int option"

record pki =
  pk_secret :: "tls_secret option"
  pk_bundles :: "string list"
  pk_rotations :: nat
  pk_expires :: int

text \<open>Nothing: there is no annotation, or it has passed.\<close>

definition remaining_validity :: "int \<Rightarrow> pki \<Rightarrow> int option" where
  "remaining_validity now s =
     Option.bind (Option.bind (pk_secret s) ts_not_after)
       (\<lambda>expiry. if 0 \<le> expiry - now then Some (expiry - now) else None)"

definition due :: "int \<Rightarrow> int \<Rightarrow> int \<Rightarrow> pki \<Rightarrow> bool" where
  "due life jitter now s \<longleftrightarrow>
     (case remaining_validity now s of
        None \<Rightarrow> True
      | Some remaining \<Rightarrow> \<not> remaining * 3000 > life * jitter)"

definition bundle_of :: "Minted \<Rightarrow> pki \<Rightarrow> string" where
  "bundle_of m s = mi_ca m @ first_certificate (unwrap_or (Option.bind (pk_secret s) ts_ca) [])"

text \<open>
  The two writes of a rotation, the Secret first. The pair is minted, the Secret that is there is read, and only
  then does the clock give the annotation its date (\<open>dated\<close>); once both are written it gives the announced
  one (\<open>ended\<close>).
\<close>

definition write_secret :: "int \<Rightarrow> int \<Rightarrow> Minted \<Rightarrow> pki \<Rightarrow> pki" where
  "write_secret life dated m s =
     s \<lparr> pk_secret := Some \<lparr> ts_leaf = mi_leaf m, ts_key = mi_key m, ts_ca = Some (mi_ca m),
                             ts_not_after = Some (dated + life) \<rparr> \<rparr>"

definition write_bundles :: "int \<Rightarrow> int \<Rightarrow> string \<Rightarrow> pki \<Rightarrow> pki" where
  "write_bundles life ended bundle s =
     s \<lparr> pk_bundles := replicate (length (pk_bundles s)) bundle, pk_rotations := pk_rotations s + 1,
         pk_expires := (if 0 \<le> ended + life then ended + life else 0) \<rparr>"

text \<open>
  A rotation that is cut short after \<open>landed\<close> of its writes: the API server refused the next, the lease
  was lost, or the process ended.
\<close>

definition rotate :: "int \<Rightarrow> int \<Rightarrow> int \<Rightarrow> Minted \<Rightarrow> nat \<Rightarrow> pki \<Rightarrow> pki" where
  "rotate life dated ended m landed s =
     (let bundle = bundle_of m s;
          s1 = (if 1 \<le> landed then write_secret life dated m s else s) in
      if 2 \<le> landed then write_bundles life ended bundle s1 else s1)"

definition attend :: "answer \<Rightarrow> int \<Rightarrow> int \<Rightarrow> int \<Rightarrow> int \<Rightarrow> int \<Rightarrow> Minted \<Rightarrow> nat \<Rightarrow> pki \<Rightarrow> pki" where
  "attend lease life jitter now dated ended m landed s =
     (case lease of
        Leads True \<Rightarrow> if due life jitter now s then rotate life dated ended m landed s else s
      | _ \<Rightarrow> s)"

text \<open>The loop: one attendance after another, fifteen seconds apart, each with what it finds; a failed one is
  only logged.\<close>

definition rotation_loop :: "int \<Rightarrow> (answer \<times> int \<times> int \<times> int \<times> int \<times> Minted \<times> nat) list \<Rightarrow> pki \<Rightarrow> pki" where
  "rotation_loop life =
     fold (\<lambda>(lease, jitter, now, dated, ended, m, landed). attend lease life jitter now dated ended m landed)"

section \<open>Who trusts whom\<close>

text \<open>\<open>issued ca leaf\<close>: the certificate \<open>ca\<close> verifies \<open>leaf\<close>.\<close>

definition trusts :: "(string \<Rightarrow> string \<Rightarrow> bool) \<Rightarrow> string \<Rightarrow> string \<Rightarrow> bool" where
  "trusts issued bundle leaf \<longleftrightarrow> (\<exists>ca \<in> set (certificates bundle). issued ca leaf)"

text \<open>One PEM block with its newline, as the library writes a certificate.\<close>

definition one_block :: "string \<Rightarrow> bool" where
  "one_block t \<longleftrightarrow> (\<exists>body. t = body @ END_MARK @ [CHR 0x0A] \<and> find_sub END_MARK (body @ END_MARK) = Some (length body))"

section \<open>Blocks\<close>

lemma find_sub_append_first:
  "find_sub p (a @ p) = Some (length a) \<Longrightarrow> find_sub p (a @ p @ b) = Some (length a)"
proof (induction a)
  case Nil
  then show ?case using starts_with_append [of p b] by (cases "p @ b") auto
next
  case (Cons x a)
  then have "\<not> starts_with p (x # a @ p)" "find_sub p (a @ p) = Some (length a)" by (auto split: if_splits)
  moreover have "starts_with p (x # a @ p @ b) \<longleftrightarrow> starts_with p (x # a @ p)"
    using take_append [of "length p" "x # a @ p" b] by (simp add: starts_with_def del: take_append)
  ultimately show ?case using Cons.IH by simp
qed

lemma one_block_find:
  "one_block t \<Longrightarrow> \<exists>body. t = body @ END_MARK @ [CHR 0x0A] \<and>
     (\<forall>b. find_sub END_MARK (body @ END_MARK @ b) = Some (length body)) \<and> first_certificate t = body @ END_MARK"
  using find_sub_append_first by (fastforce simp: one_block_def first_certificate_def)

lemma certificates_Nil [simp]: "certificates [] = []"
  by (simp add: certificates.simps [of "[]"] END_MARK_def)

lemma first_nothing: "first_certificate [] = []"
  by (simp add: first_certificate_def END_MARK_def)

lemma certificates_newline [simp]: "certificates [CHR 0x0A] = []"
  by (simp add: certificates.simps [of "[CHR 0x0A]"] END_MARK_def starts_with_def)

lemma certificates_block:
  assumes "find_sub END_MARK (body @ END_MARK @ rest) = Some (length body)"
  shows "certificates (body @ END_MARK @ rest) = trim (body @ END_MARK) # certificates rest"
  using assms by (simp add: certificates.simps [of "body @ END_MARK @ rest"])

lemma starts_newline [simp]: "\<not> starts_with END_MARK (CHR 0x0A # t)"
  by (simp add: END_MARK_def starts_with_def)

lemma find_sub_newline: "find_sub END_MARK (CHR 0x0A # t) = map_option Suc (find_sub END_MARK t)"
  by simp

lemma trim_newline: "trim (CHR 0x0A # t) = trim t"
  by (simp add: trim_def trim_start_def is_space_def)

lemma bundle_certificates:
  assumes "one_block ca" and "prev = [] \<or> one_block prev"
  shows "certificates (ca @ first_certificate prev) =
    trim (first_certificate ca) # (if prev = [] then [] else [trim (first_certificate prev)])"
proof -
  obtain body where ca: "ca = body @ END_MARK @ [CHR 0x0A]" "first_certificate ca = body @ END_MARK"
    "\<And>b. find_sub END_MARK (body @ END_MARK @ b) = Some (length body)"
    using one_block_find [OF assms(1)] by blast
  have whole: "certificates (ca @ first_certificate prev) =
      trim (first_certificate ca) # certificates (CHR 0x0A # first_certificate prev)"
    using certificates_block [OF ca(3)] ca by simp
  show ?thesis
  proof (cases "prev = []")
    case True
    then show ?thesis using whole by (simp add: first_certificate_def END_MARK_def)
  next
    case False
    then obtain old where old: "first_certificate prev = old @ END_MARK"
      "\<And>b. find_sub END_MARK (old @ END_MARK @ b) = Some (length old)"
      using one_block_find assms(2) by blast
    have "find_sub END_MARK ((CHR 0x0A # old) @ END_MARK @ []) = Some (length (CHR 0x0A # old))"
      using old(2) [of "[]"] by (simp add: find_sub_newline)
    from certificates_block [OF this] show ?thesis
      using whole old(1) False by (simp add: trim_newline)
  qed
qed

text \<open>The bundle of a rotation holds the new authority and the one before it.\<close>

lemma bundle_of_both:
  assumes "one_block (mi_ca m)" and "pk_secret s = Some old" and "ts_ca old = Some ca" and "one_block ca"
  shows "certificates (bundle_of m s) = [trim (first_certificate (mi_ca m)), trim (first_certificate ca)]"
  using bundle_certificates [OF assms(1), of ca] assms(2-4)
  by (auto simp: bundle_of_def unwrap_or_def one_block_def END_MARK_def)

lemma rotated_bundles:
  "2 \<le> landed \<Longrightarrow> b \<in> set (pk_bundles (rotate life dated ended m landed s)) \<Longrightarrow> b = bundle_of m s"
  by (simp add: rotate_def write_secret_def write_bundles_def Let_def)

section \<open>A rotation, and what interrupts it\<close>

text \<open>C14: wherever a rotation is cut short, every caBundle still trusts the leaf that was served before
  it; a rotation that completes leaves every caBundle trusting the new leaf and the old one, with two
  certificates in it, and the Secret holding the new pair.\<close>

theorem handshakes_survive_a_rotation:
  assumes "one_block (mi_ca m)" and "issued (trim (first_certificate (mi_ca m))) (mi_leaf m)"
    and "pk_secret s = Some old" and "ts_ca old = Some ca" and "one_block ca"
    and "issued (trim (first_certificate ca)) (ts_leaf old)"
    and "\<forall>b \<in> set (pk_bundles s). trusts issued b (ts_leaf old)"
  shows "(\<forall>b \<in> set (pk_bundles (rotate life dated ended m landed s)). trusts issued b (ts_leaf old)) \<and>
    (2 \<le> landed \<longrightarrow>
       (\<forall>b \<in> set (pk_bundles (rotate life dated ended m landed s)).
          trusts issued b (mi_leaf m) \<and> length (certificates b) = 2) \<and>
       map_option ts_leaf (pk_secret (rotate life dated ended m landed s)) = Some (mi_leaf m) \<and>
       length (pk_bundles (rotate life dated ended m landed s)) = length (pk_bundles s))"
proof -
  have "certificates (bundle_of m s) = [trim (first_certificate (mi_ca m)), trim (first_certificate ca)]"
    using assms by (intro bundle_of_both)
  with assms show ?thesis
    by (auto simp: rotate_def write_secret_def write_bundles_def trusts_def Let_def)
qed

definition example_ca :: "char \<Rightarrow> string" where
  "example_ca c = [c] @ END_MARK @ [CHR 0x0A]"

lemma example_ca_block: "c \<noteq> CHR ''-'' \<Longrightarrow> one_block (example_ca c)"
  unfolding one_block_def example_ca_def
  by (rule exI [of _ "[c]"]) (simp add: END_MARK_def starts_with_def)

lemma example_ca_first: "c \<noteq> CHR ''-'' \<Longrightarrow> first_certificate (example_ca c) = [c] @ END_MARK"
  using one_block_find [OF example_ca_block] by (fastforce simp: example_ca_def END_MARK_def)

definition example_pki :: pki where
  "example_pki =
     \<lparr> pk_secret = Some \<lparr> ts_leaf = ''old'', ts_key = ''k'', ts_ca = Some (example_ca CHR ''A''), ts_not_after = Some 9 \<rparr>,
       pk_bundles = [example_ca CHR ''A'', example_ca CHR ''A''], pk_rotations = 1, pk_expires = 9 \<rparr>"

theorem handshakes_survive_a_rotation_witness:
  "\<exists>b. pk_bundles (rotate 86400 0 0 \<lparr> mi_ca = example_ca CHR ''B'', mi_leaf = ''new'', mi_key = ''k'' \<rparr> 2 example_pki) = [b, b] \<and>
     trusts (\<lambda>ca leaf. (hd ca = CHR ''A'') = (leaf = ''old'')) b ''new'' \<and> length (certificates b) = 2"
proof -
  let ?issued = "\<lambda>ca leaf. (hd ca = CHR ''A'') = (leaf = ''old'')"
  let ?after = "rotate 86400 0 0 \<lparr> mi_ca = example_ca CHR ''B'', mi_leaf = ''new'', mi_key = ''k'' \<rparr> 2 example_pki"
  have trimmed: "trim (CHR ''A'' # END_MARK) = CHR ''A'' # END_MARK" "trim (CHR ''B'' # END_MARK) = CHR ''B'' # END_MARK"
    by code_simp+
  have "certificates (example_ca CHR ''A'') = [CHR ''A'' # END_MARK]"
    using bundle_certificates [OF example_ca_block, of "CHR ''A''" "[]"]
    by (simp add: example_ca_first trimmed first_nothing)
  then have "\<forall>b \<in> set (pk_bundles example_pki). trusts ?issued b ''old''"
    by (simp add: example_pki_def trusts_def)
  then have "\<forall>b \<in> set (pk_bundles ?after). trusts ?issued b ''new'' \<and> length (certificates b) = 2"
    using handshakes_survive_a_rotation [where m = "\<lparr> mi_ca = example_ca CHR ''B'', mi_leaf = ''new'', mi_key = ''k'' \<rparr>"
        and s = example_pki and issued = ?issued and landed = 2 and life = 86400 and dated = 0 and ended = 0]
    by (simp add: example_pki_def example_ca_block example_ca_first trimmed)
  moreover obtain b where "pk_bundles ?after = [b, b]"
    by (simp add: rotate_def write_bundles_def write_secret_def example_pki_def Let_def numeral_2_eq_2)
  ultimately show ?thesis by simp
qed

text \<open>
  A rotation that lost its lease between the two writes leaves a Secret that no caBundle trusts, with an
  annotation that says it is fresh: no attendance repairs it before the next rotation is due.
\<close>

lemma abandoned_rotation_is_not_repaired:
  assumes "\<forall>b \<in> set (pk_bundles s). \<not> trusts issued b (mi_leaf m)"
    and "life * jitter < (dated + life - later) * 3000" and "0 \<le> dated + life - later"
  shows "map_option ts_leaf (pk_secret (rotate life dated ended m 1 s)) = Some (mi_leaf m) \<and>
    (\<forall>b \<in> set (pk_bundles (rotate life dated ended m 1 s)). \<not> trusts issued b (mi_leaf m)) \<and>
    attend lease life jitter later dated' ended' m' landed (rotate life dated ended m 1 s) = rotate life dated ended m 1 s"
  using assms
  by (simp add: rotate_def write_secret_def attend_def due_def remaining_validity_def Let_def
      split: answer.split bool.split)

text \<open>A replica that never leads writes nothing; none of them ever drops an entry of the configuration.\<close>

lemma rotation_loop_followers:
  "\<forall>a \<in> set passes. fst a \<noteq> Leads True \<Longrightarrow> rotation_loop life passes s = s"
  unfolding rotation_loop_def by (induction passes) (auto simp: attend_def split: answer.split bool.split)

lemma rotation_loop_bundles: "length (pk_bundles (rotation_loop life passes s)) = length (pk_bundles s)"
  unfolding rotation_loop_def
  by (induction passes arbitrary: s)
    (auto simp: attend_def rotate_def write_secret_def write_bundles_def Let_def split: answer.split bool.split)

section \<open>Deadlines\<close>



text \<open>
  The validity starts five minutes back and is not made longer for it: a shorter life is over when it starts, and
  one of ten minutes is over before the pair is due.
\<close>

lemma short_lives_are_minted_expired:
  "life < SKEW \<Longrightarrow> snd (leaf_window now life) < now"
  by (simp add: leaf_window_def)

lemma short_lives_end_before_they_are_due:
  "let s = rotate 600 0 0 m 2 before in \<not> due 600 1000 301 s \<and> snd (leaf_window 0 600) < 301"
  by (simp add: rotate_def write_secret_def write_bundles_def due_def remaining_validity_def leaf_window_def
      SKEW_def Let_def)

text \<open>And what is announced as the pair's expiry is at least five minutes after the leaf's.\<close>

lemma announced_expiry_is_late:
  "minted \<le> ended \<Longrightarrow> 0 \<le> ended + life \<Longrightarrow>
     snd (leaf_window minted life) + SKEW \<le> pk_expires (rotate life dated ended m 2 s)"
  by (simp add: rotate_def write_bundles_def leaf_window_def Let_def)

end
