(* ===== verification/Kubelet.thy ===== *)
theory Kubelet
  imports Prelude
begin

text \<open>
  What the kubelet mounts for a process that calls the API server, and how both callers (\<open>events.rs\<close> in the
  agent, \<open>classes.rs\<close> in the webhook) read it: the token afresh for every call, the cluster's authority
  once, in place of any public one. The files are a function; the PEM reader is a parameter.
\<close>

definition TOKEN :: string where "TOKEN = ''/var/run/secrets/kubernetes.io/serviceaccount/token''"
definition CA :: string where "CA = ''/var/run/secrets/kubernetes.io/serviceaccount/ca.crt''"

datatype pem_item = PemCertificate string | PemPrivateKey string

definition root_of :: "string + pem_item \<Rightarrow> string option" where
  "root_of item = (case item of Inr (PemCertificate c) \<Rightarrow> Some c | _ \<Rightarrow> None)"

definition cluster_roots :: "(string \<Rightarrow> (string + pem_item) list) \<Rightarrow> (string \<Rightarrow> string + string) \<Rightarrow> string + string list" where
  "cluster_roots parse_pem read =
     rbind (map_err (\<lambda>e. CA @ '': '' @ e) (read CA)) (\<lambda>ca.
     let roots = List.map_filter root_of (parse_pem ca) in
     if roots = [] then Inl (CA @ '': holds no certificate'') else Inr roots)"

definition bearer :: "(string \<Rightarrow> string + string) \<Rightarrow> string + string" where
  "bearer read = rbind (map_err (\<lambda>e. TOKEN @ '': '' @ e) (read TOKEN)) (\<lambda>t. Inr (''Bearer '' @ trim t))"

text \<open>Whoever trusts something trusts certificates of the mounted file, and nothing else.\<close>

lemma cluster_roots_only:
  assumes "cluster_roots parse_pem read = Inr roots"
  shows "roots \<noteq> [] \<and> (\<exists>ca. read CA = Inr ca \<and> (\<forall>c \<in> set roots. Inr (PemCertificate c) \<in> set (parse_pem ca)))"
proof -
  have certificates: "c \<in> set (List.map_filter root_of items) \<Longrightarrow> Inr (PemCertificate c) \<in> set items" for c items
    by (induction items) (auto simp: map_filter_simps root_of_def split: option.splits sum.splits pem_item.splits)
  then show ?thesis
    using assms by (auto simp: cluster_roots_def res_simps Let_def split: if_splits)
qed

end
