(* ===== verification/Events.thy ===== *)
theory Events
  imports Json Kubelet
begin

text \<open>
  The Events an agent posts (\<open>events.rs\<close>): what it reads at its start, the request one failure makes, and
  the timestamp in it. The kubelet's files and the environment are functions; the PEM reader and the API
  server's answer are parameters. A clock before the epoch is \<open>None\<close>.
\<close>

section \<open>The calendar\<close>

text \<open>Days since the epoch to a year, a month and a day. Every operand is non-negative, where the
  source's division and this one agree.\<close>

definition year_of_era :: "int \<Rightarrow> int" where
  "year_of_era day_of_era =
     (day_of_era - day_of_era div 1460 + day_of_era div 36524 - day_of_era div 146096) div 365"

definition year_start :: "int \<Rightarrow> int" where
  "year_start y = 365 * y + y div 4 - y div 100"

definition month_day :: "int \<Rightarrow> int \<times> int" where
  "month_day day_of_year =
     (let shifted_month = (5 * day_of_year + 2) div 153 in
      (if shifted_month < 10 then shifted_month + 3 else shifted_month - 9,
       day_of_year - (153 * shifted_month + 2) div 5 + 1))"

definition civil :: "int \<Rightarrow> int \<times> int \<times> int" where
  "civil days =
     (let era_days = days + 719468;
          era = era_days div 146097;
          day_of_era = era_days mod 146097;
          year = year_of_era day_of_era + era * 400;
          (month, day) = month_day (day_of_era - year_start (year_of_era day_of_era)) in
      (if month \<le> 2 then year + 1 else year, month, day))"

definition padded :: "nat \<Rightarrow> int \<Rightarrow> string" where
  "padded width n = (let ds = show_nat (nat n) in replicate (width - length ds) (CHR ''0'') @ ds)"

definition time_now :: "nat option \<Rightarrow> string" where
  "time_now clock =
     (let seconds = int (unwrap_or clock 0);
          time = seconds mod 86400;
          (year, month, day) = civil (seconds div 86400) in
      padded 4 year @ ''-'' @ padded 2 month @ ''-'' @ padded 2 day @ ''T'' @
      padded 2 (time div 3600) @ '':'' @ padded 2 (time mod 3600 div 60) @ '':'' @ padded 2 (time mod 60) @ ''Z'')"

section \<open>The reporter\<close>

definition NAMESPACE :: string where "NAMESPACE = ''/var/run/secrets/kubernetes.io/serviceaccount/namespace''"

text \<open>The deadline of one attempt, in seconds.\<close>

definition DEADLINE :: nat where "DEADLINE = 3"

record Reporter =
  re_api :: string
  re_namespace :: string
  re_pod :: string
  re_uid :: string
  re_roots :: "string list"

definition new_reporter :: "(string \<Rightarrow> (string + pem_item) list) \<Rightarrow> (string \<Rightarrow> string + string)
    \<Rightarrow> (string \<Rightarrow> string option) \<Rightarrow> string + Reporter" where
  "new_reporter parse_pem read env =
     rbind (map_err (\<lambda>e. NAMESPACE @ '': '' @ e @ ''; is a service account mounted?'') (read NAMESPACE)) (\<lambda>namespace.
     rbind (ok_or (env ''DYNAMIC_CONFIG_POD_NAME'')
              (''DYNAMIC_CONFIG_POD_NAME is not set; the webhook sets it from the '' @
               ''downward API when events are asked for'')) (\<lambda>pod.
     let uid = unwrap_or (env ''DYNAMIC_CONFIG_POD_UID'') [] in
     rbind (cluster_roots parse_pem read) (\<lambda>roots.
     Inr \<lparr> re_api = ''https://kubernetes.default.svc'', re_namespace = trim namespace, re_pod = pod,
                re_uid = uid, re_roots = roots \<rparr>)))"

record event_post =
  po_url :: string
  po_authorization :: string
  po_body :: json

definition event_body :: "Reporter \<Rightarrow> string \<Rightarrow> string \<Rightarrow> string \<Rightarrow> json" where
  "event_body r now why message =
     jobj [(''apiVersion'', jstr ''v1''),
           (''kind'', jstr ''Event''),
           (''metadata'', jobj [(''generateName'', jstr (re_pod r @ ''.'')), (''namespace'', jstr (re_namespace r))]),
           (''involvedObject'',
              jobj [(''apiVersion'', jstr ''v1''), (''kind'', jstr ''Pod''), (''name'', jstr (re_pod r)),
                    (''namespace'', jstr (re_namespace r)), (''uid'', jstr (re_uid r))]),
           (''reason'', jstr why),
           (''message'', jstr message),
           (''type'', jstr ''Warning''),
           (''source'', jobj [(''component'', jstr ''dynamic-config-agent'')]),
           (''firstTimestamp'', jstr now),
           (''lastTimestamp'', jstr now),
           (''count'', jnat 1)]"

definition warn :: "(event_post \<Rightarrow> string + unit) \<Rightarrow> (string \<Rightarrow> string + string) \<Rightarrow> nat option
    \<Rightarrow> string \<Rightarrow> string \<Rightarrow> Reporter \<Rightarrow> string + unit" where
  "warn post read clock why message r =
     rbind (bearer read) (\<lambda>token.
     map_err (\<lambda>e. ''posting the event: '' @ e)
       (post \<lparr> po_url = re_api r @ ''/api/v1/namespaces/'' @ re_namespace r @ ''/events'',
               po_authorization = token,
               po_body = event_body r (time_now clock) why message \<rparr>))"

section \<open>A reference calendar\<close>

definition leap :: "int \<Rightarrow> bool" where
  "leap y \<longleftrightarrow> 4 dvd y \<and> (\<not> 100 dvd y \<or> 400 dvd y)"

definition month_length :: "int \<Rightarrow> int \<Rightarrow> int" where
  "month_length y m =
     (if m = 2 then if leap y then 29 else 28 else if m \<in> {4, 6, 9, 11} then 30 else 31)"

fun next_day :: "int \<times> int \<times> int \<Rightarrow> int \<times> int \<times> int" where
  "next_day (y, m, d) =
     (if d < month_length y m then (y, m, d + 1) else if m < 12 then (y, m + 1, 1) else (y + 1, 1, 1))"

section \<open>Years of an era\<close>

text \<open>The last day of a year that starts in March; the last year of an era has one more.\<close>

definition year_end :: "int \<Rightarrow> int" where
  "year_end y = (if y = 399 then 146096 else year_start (y + 1) - 1)"

lemma year_of_era_edges:
  "list_all (\<lambda>y. year_of_era (year_start y) = y \<and> year_of_era (year_end y) = y) [0..399]"
  by code_simp

lemma year_edges:
  "list_all (\<lambda>y. year_end y - year_start y = (if leap (y + 1) then 365 else 364) \<and>
     0 \<le> year_start y \<and> year_start y \<le> year_end y \<and> year_end y < 146097) [0..399]"
  by code_simp

lemma leap_era: "leap (y + era * 400) \<longleftrightarrow> leap y"
proof -
  have "(4::int) dvd era * 400" "(100::int) dvd era * 400" "(400::int) dvd era * 400"
    by (simp_all add: dvd_mult)
  then show ?thesis by (simp add: leap_def dvd_add_left_iff)
qed

lemma year_facts:
  assumes "0 \<le> y" "y < 400"
  shows "year_of_era (year_start y) = y" "year_of_era (year_end y) = y"
    "year_end y - year_start y = (if leap (y + 1) then 365 else 364)"
    "0 \<le> year_start y" "year_start y \<le> year_end y" "year_end y < 146097"
proof -
  have "y \<in> set [0..399]" using assms by simp
  then show "year_of_era (year_start y) = y" "year_of_era (year_end y) = y"
    "year_end y - year_start y = (if leap (y + 1) then 365 else 364)"
    "0 \<le> year_start y" "year_start y \<le> year_end y" "year_end y < 146097"
    using bspec [OF year_of_era_edges [unfolded list_all_iff], of y]
      bspec [OF year_edges [unfolded list_all_iff], of y] by blast+
qed

text \<open>The year that is read off a day grows with the day, so two edges settle what lies between them.\<close>

lemma less_quotient_mono:
  fixes a :: int
  assumes "a \<le> b"
  shows "a - a div 1460 \<le> b - b div 1460"
proof (cases "a div 1460 = b div 1460")
  case False
  then have "a div 1460 + 1 \<le> b div 1460" using zdiv_mono1 [OF assms, of 1460] by simp
  moreover have "a = 1460 * (a div 1460) + a mod 1460" "b = 1460 * (b div 1460) + b mod 1460"
    "0 \<le> b mod 1460" "a mod 1460 < 1460" by simp_all
  ultimately show ?thesis by linarith
qed (use assms in simp)

lemma last_day: "(0::int) \<le> d \<Longrightarrow> d < 146097 \<Longrightarrow> d div 146096 = (if d = 146096 then 1 else 0)"
  by (auto simp: div_pos_pos_trivial)

lemma year_of_era_mono: "0 \<le> a \<Longrightarrow> a \<le> b \<Longrightarrow> b < 146097 \<Longrightarrow> year_of_era a \<le> year_of_era b"
  using less_quotient_mono [of a b] less_quotient_mono [of a 146095] zdiv_mono1 [of a b 36524]
  unfolding year_of_era_def by (intro zdiv_mono1) (auto simp: last_day)

lemma year_of_eraI:
  assumes "0 \<le> y" "y < 400" "year_start y \<le> d" "d \<le> year_end y"
  shows "year_of_era d = y"
  using year_of_era_mono [of "year_start y" d] year_of_era_mono [of d "year_end y"]
    year_facts [OF assms(1,2)] assms by simp

lemma some_year:
  fixes n :: nat
  shows "n \<le> 400 \<Longrightarrow> 0 \<le> d \<Longrightarrow> d < year_start (int n) \<Longrightarrow>
    \<exists>y. 0 \<le> y \<and> y < 400 \<and> year_start y \<le> d \<and> d \<le> year_end y"
proof (induction n)
  case 0
  then show ?case by (simp add: year_start_def)
next
  case (Suc n)
  show ?case
  proof (cases "d < year_start (int n)")
    case False
    have "year_start 400 \<le> 146097" by (simp add: year_start_def)
    with False Suc.prems have "d \<le> year_end (int n)"
      by (cases "n = 399") (auto simp: year_end_def year_start_def add.commute)
    with False Suc.prems show ?thesis by (intro exI [of _ "int n"]) simp
  qed (use Suc in simp)
qed

lemma year_holds:
  assumes "0 \<le> d" "d < 146097"
  shows "0 \<le> year_of_era d" "year_of_era d < 400"
    "year_start (year_of_era d) \<le> d" "d \<le> year_end (year_of_era d)"
proof -
  have "\<exists>y. 0 \<le> y \<and> y < 400 \<and> year_start y \<le> d \<and> d \<le> year_end y"
  proof (cases "d = 146096")
    case True
    then show ?thesis using year_facts [of 399] by (intro exI [of _ 399]) (simp add: year_end_def)
  next
    case False
    with assms show ?thesis using some_year [of 400 d] by (simp add: year_start_def)
  qed
  then show "0 \<le> year_of_era d" "year_of_era d < 400"
    "year_start (year_of_era d) \<le> d" "d \<le> year_end (year_of_era d)"
    using year_of_eraI by blast+
qed

section \<open>Days of a year\<close>

lemma month_day_steps:
  "list_all (\<lambda>n. let (m, d) = month_day n in
     month_day (n + 1) =
       (if m = 2 then (m, d + 1)
        else if d < month_length 1 m then (m, d + 1) else if m < 12 then (m + 1, 1) else (1, 1)) \<and>
     1 \<le> m \<and> m \<le> 12 \<and> (m = 2 \<longrightarrow> n = d + 336)) [0..364]"
  by code_simp

lemma month_day_step:
  assumes "0 \<le> n" "n < 365" "month_day n = (m, d)"
  shows "month_day (n + 1) =
       (if m = 2 then (m, d + 1)
        else if d < month_length y m then (m, d + 1) else if m < 12 then (m + 1, 1) else (1, 1))"
    and "1 \<le> m" "m \<le> 12" "m = 2 \<Longrightarrow> n = d + 336"
proof -
  have "n \<in> set [0..364]" using assms by simp
  moreover have "m \<noteq> 2 \<Longrightarrow> month_length y m = month_length 1 m" by (simp add: month_length_def)
  ultimately show "month_day (n + 1) =
       (if m = 2 then (m, d + 1)
        else if d < month_length y m then (m, d + 1) else if m < 12 then (m + 1, 1) else (1, 1))"
    and "1 \<le> m" "m \<le> 12" "m = 2 \<Longrightarrow> n = d + 336"
    using bspec [OF month_day_steps [unfolded list_all_iff], of n] assms(3) by auto
qed

section \<open>The day after\<close>

text \<open>A date by its era, its year in it and its day in that year.\<close>

lemma civil_at:
  assumes "0 \<le> y" "y < 400" "year_start y \<le> doe" "doe \<le> year_end y"
    and "month_day (doe - year_start y) = (m, d)"
  shows "civil (doe + era * 146097 - 719468) =
    (if m \<le> 2 then y + era * 400 + 1 else y + era * 400, m, d)"
  using assms year_of_eraI [OF assms(1-4)] year_facts [OF assms(1,2)]
  by (simp add: civil_def Let_def div_pos_pos_trivial mod_pos_pos_trivial)

lemma civil_next: "civil (days + 1) = next_day (civil days)"
proof -
  define era where "era = (days + 719468) div 146097"
  define doe where "doe = (days + 719468) mod 146097"
  have doe: "0 \<le> doe" "doe < 146097" and days: "days = doe + era * 146097 - 719468"
    by (simp_all add: doe_def era_def)
  define y where "y = year_of_era doe"
  have y: "0 \<le> y" "y < 400" "year_start y \<le> doe" "doe \<le> year_end y"
    using year_holds [OF doe] by (simp_all add: y_def)
  obtain m d where md: "month_day (doe - year_start y) = (m, d)" by (cases "month_day (doe - year_start y)")
  have today: "civil days = (if m \<le> 2 then y + era * 400 + 1 else y + era * 400, m, d)"
    unfolding days by (rule civil_at [OF y md])
  have leap: "leap (y + era * 400 + 1) \<longleftrightarrow> leap (y + 1)"
    using leap_era [of "y + 1" era] by (simp add: ac_simps)
  show ?thesis
  proof (cases "doe = year_end y")
    case False
    then have "doe + 1 \<le> year_end y" "doe - year_start y < 365"
      using y year_facts(3) [OF y(1,2)] by (auto split: if_splits)
    then have step: "\<And>y'. month_day (doe + 1 - year_start y) =
        (if m = 2 then (m, d + 1)
         else if d < month_length y' m then (m, d + 1) else if m < 12 then (m + 1, 1) else (1, 1))"
      and m: "1 \<le> m" "m \<le> 12" "m = 2 \<Longrightarrow> doe - year_start y = d + 336"
      using month_day_step [OF _ _ md] y by (simp_all add: algebra_simps)
    have feb: "m = 2 \<Longrightarrow> d < month_length (y + era * 400 + 1) 2"
      using m(3) \<open>doe + 1 \<le> year_end y\<close> year_facts(3) [OF y(1,2)] by (auto simp: month_length_def leap split: if_splits)
    have tomorrow: "civil (days + 1) = (if m' \<le> 2 then y + era * 400 + 1 else y + era * 400, m', d')"
      if "month_day (doe + 1 - year_start y) = (m', d')" for m' d'
      using civil_at [OF y(1,2) _ \<open>doe + 1 \<le> year_end y\<close> that, of era] y by (simp add: days algebra_simps)
    show ?thesis
      using tomorrow step [of "y + era * 400"] step [of "y + era * 400 + 1"] m feb
      by (auto simp: today split: if_splits)
  next
    case True
    then have "doe - year_start y = (if leap (y + 1) then 365 else 364)" using year_facts [OF y(1,2)] by simp
    then have "m = 2" "d = month_length (y + era * 400 + 1) 2"
      using md by (auto simp: month_day_def month_length_def leap split: if_splits)
    moreover have "civil (days + 1) = (y + era * 400 + 1, 3, 1)"
    proof (cases "y = 399")
      case True
      then have next_era: "days + 1 = 0 + (era + 1) * 146097 - 719468"
        using \<open>doe = year_end y\<close> days by (simp add: year_end_def)
      show ?thesis
        unfolding next_era using civil_at [of 0 0 3 1 "era + 1"] True by (simp add: year_start_def year_end_def month_day_def)
    next
      case False
      then have "doe + 1 = year_start (y + 1)" using \<open>doe = year_end y\<close> by (simp add: year_end_def)
      then have next_year: "days + 1 = year_start (y + 1) + era * 146097 - 719468" by (simp add: days)
      show ?thesis
        unfolding next_year using civil_at [of "y + 1" "year_start (y + 1)" 3 1 era] y False year_facts [of "y + 1"]
        by (simp add: month_day_def ac_simps)
    qed
    ultimately show ?thesis by (simp add: today)
  qed
qed

text \<open>C32: the date in an Event's timestamp is the calendar's: counted from the first of January 1970, one day
  at a time, with the leap years of the Gregorian rule.\<close>

theorem dates_are_the_calendars:
  "civil (int n) = (next_day ^^ n) (1970, 1, 1)"
proof (induction n)
  case 0
  show ?case by code_simp
next
  case (Suc n)
  then show ?case using civil_next [of "int n"] by (simp add: add.commute)
qed

lemma next_day_valid:
  assumes "1 \<le> m" "m \<le> 12" "1 \<le> d" "d \<le> month_length y m" "next_day (y, m, d) = (y', m', d')"
  shows "1 \<le> m' \<and> m' \<le> 12 \<and> 1 \<le> d' \<and> d' \<le> month_length y' m'"
  using assms by (auto simp: month_length_def split: if_splits)

lemma dates_are_valid:
  "civil (int n) = (y, m, d) \<Longrightarrow> 1 \<le> m \<and> m \<le> 12 \<and> 1 \<le> d \<and> d \<le> month_length y m"
proof (induction n arbitrary: y m d)
  case 0
  have "civil 0 = (1970, 1, 1)" by code_simp
  with 0 show ?case by (auto simp: month_length_def)
next
  case (Suc n)
  obtain y0 m0 d0 where "civil (int n) = (y0, m0, d0)" by (cases "civil (int n)")
  moreover have "civil (int (Suc n)) = next_day (civil (int n))"
    using civil_next [of "int n"] by (simp add: add.commute)
  ultimately show ?case using Suc next_day_valid by metis
qed

section \<open>What is posted\<close>

text \<open>An agent that starts with Events knows its pod and its namespace and trusts the cluster's authority only.\<close>

lemma reporter_trusts_the_cluster:
  assumes "new_reporter parse_pem read env = Inr r"
  shows "env ''DYNAMIC_CONFIG_POD_NAME'' = Some (re_pod r) \<and> cluster_roots parse_pem read = Inr (re_roots r) \<and>
    (\<exists>namespace. read NAMESPACE = Inr namespace \<and> re_namespace r = trim namespace)"
  using assms by (auto simp: new_reporter_def res_simps Let_def)

text \<open>Nothing is sent without a token; what is sent is about this pod, in its namespace.\<close>

lemma warn_needs_a_token:
  "read TOKEN = Inl e \<Longrightarrow> warn post read clock why message r = Inl (TOKEN @ '': '' @ e)"
  by (simp add: warn_def bearer_def)

lemma event_names_the_pod:
  "pointer [''involvedObject'', ''name''] (event_body r now why message) = Some (jstr (re_pod r))"
  "pointer [''involvedObject'', ''namespace''] (event_body r now why message) = Some (jstr (re_namespace r))"
  "pointer [''metadata'', ''namespace''] (event_body r now why message) = Some (jstr (re_namespace r))"
  by (simp_all add: event_body_def jobj_def jstr_def)

end
