(* ===== verification/Webhook.thy ===== *)
theory Webhook
  imports Admission Kubelet
begin

text \<open>
  The webhook's handlers (the first half of its \<open>main.rs\<close>): an admission answered and counted, the audit
  line, the scrape, and \<open>validate\<close>. The process-wide statics are the fields of a record; a counter is a
  64-bit word that wraps, as \<open>fetch_add\<close> does. The sentences of refusals and warnings, and the YAML
  reader, are parameters.
\<close>

type_synonym counter = "64 word"

section \<open>What the process injects\<close>

definition AGENT_IMAGE :: string where
  "AGENT_IMAGE = ''ghcr.io/dynamic-config-rs/dynamic-config-agent:v0.3.0''"

text \<open>Read once, at the first admission.\<close>

definition webhook_env_of :: "(string \<Rightarrow> string option) \<Rightarrow> webhook_env" where
  "webhook_env_of env =
     \<lparr> default_image = unwrap_or (env ''DYNAMIC_CONFIG_AGENT_IMAGE'') AGENT_IMAGE,
       pull_secret = Option.bind (env ''DYNAMIC_CONFIG_AGENT_PULL_SECRET'') (\<lambda>name. if name = [] then None else Some name) \<rparr>"

section \<open>The review that is answered\<close>

record sentences =
  say_refusal :: "cause \<Rightarrow> string"
  say_warning :: "warning \<Rightarrow> string"
  say_deprecation :: "deprecation \<Rightarrow> string"

definition answer_object :: "sentences \<Rightarrow> answer \<Rightarrow> json" where
  "answer_object say a =
     (case a of
        Allow \<Rightarrow> jobj [(''allowed'', JBool True)]
      | AllowPatched p ws ds \<Rightarrow>
          (let said = map (say_warning say) ws @ map (say_deprecation say) ds;
               out = jobj [(''allowed'', JBool True), (''patchType'', jstr ''JSONPatch''), (''patch'', jstr p)] in
           if said = [] then out else jset ''warnings'' (jstrs said) out)
      | Refuse code why what \<Rightarrow>
          jobj [(''allowed'', JBool False),
                (''status'', jobj [(''message'', jstr (say_refusal say what)), (''code'', jnat code),
                                   (''reason'', jstr (reason_slug why))])])"

definition respond :: "sentences \<Rightarrow> response \<Rightarrow> json" where
  "respond say r =
     jobj [(''apiVersion'', jstr ''admission.k8s.io/v1''), (''kind'', jstr ''AdmissionReview''),
           (''response'', jset ''uid'' (jstr (uid r)) (answer_object say (answer r)))]"

section \<open>Counters\<close>

record counters =
  wc_skipped :: counter
  wc_patched :: counter
  wc_refused :: counter
  wc_micros :: counter
  wc_count :: counter
  wc_patch_bytes :: counter
  wc_histogram :: "counter list"
  wc_malformed :: counter
  wc_policy :: counter
  wc_pinned :: counter
  wc_conflict :: counter
  wc_other :: counter

definition ADMISSION_BUCKETS :: "counter list" where
  "ADMISSION_BUCKETS = [100, 500, 1000, 5000, 25000, 100000, 1000000]"

definition no_admissions :: counters where
  "no_admissions =
     \<lparr> wc_skipped = 0, wc_patched = 0, wc_refused = 0, wc_micros = 0, wc_count = 0, wc_patch_bytes = 0,
       wc_histogram = [0, 0, 0, 0, 0, 0, 0], wc_malformed = 0, wc_policy = 0, wc_pinned = 0,
       wc_conflict = 0, wc_other = 0 \<rparr>"

definition refusal_reason :: "string \<Rightarrow> counters \<Rightarrow> counters" where
  "refusal_reason slug c =
     (if slug = reason_slug POLICY then c \<lparr> wc_policy := wc_policy c + 1 \<rparr>
      else if slug = reason_slug PINNED then c \<lparr> wc_pinned := wc_pinned c + 1 \<rparr>
      else if slug = reason_slug MALFORMED then c \<lparr> wc_malformed := wc_malformed c + 1 \<rparr>
      else if slug = reason_slug CONFLICT then c \<lparr> wc_conflict := wc_conflict c + 1 \<rparr>
      else c \<lparr> wc_other := wc_other c + 1 \<rparr>)"

text \<open>The elapsed time is a count of microseconds, of up to 128 bits.\<close>

definition clamp_micros :: "nat \<Rightarrow> counter" where
  "clamp_micros elapsed = (if elapsed < 2 ^ 64 then of_nat elapsed else - 1)"

definition record_admission :: "nat \<Rightarrow> json \<Rightarrow> counters \<Rightarrow> counters" where
  "record_admission elapsed answered c =
     (let micros = clamp_micros elapsed;
          c1 = c \<lparr> wc_count := wc_count c + 1, wc_micros := wc_micros c + micros,
                   wc_histogram := map2 (\<lambda>bucket most. if micros \<le> most then bucket + 1 else bucket)
                                     (wc_histogram c) ADMISSION_BUCKETS \<rparr> in
      case str_at [''response'', ''patch''] answered of
        Some p \<Rightarrow> c1 \<lparr> wc_patch_bytes := wc_patch_bytes c1 + of_nat (length p) \<rparr>
      | None \<Rightarrow> c1)"

record audit =
  au_namespace :: string
  au_name :: string
  au_source :: string
  au_outcome :: string

definition review_text :: "string list \<Rightarrow> json \<Rightarrow> string" where
  "review_text p review = unwrap_or (str_at p review) []"

definition outcome :: "json \<Rightarrow> string" where
  "outcome answered =
     (if pointer [''response'', ''patch''] answered \<noteq> None then ''patched''
      else if pointer [''response'', ''allowed''] answered = Some (JBool False) then ''refused''
      else ''skipped'')"

definition count_outcome :: "json \<Rightarrow> counters \<Rightarrow> counters" where
  "count_outcome answered c =
     (if outcome answered = ''patched'' then c \<lparr> wc_patched := wc_patched c + 1 \<rparr>
      else if outcome answered = ''refused''
      then refusal_reason (unwrap_or (str_at [''response'', ''status'', ''reason''] answered) [])
             (c \<lparr> wc_refused := wc_refused c + 1 \<rparr>)
      else c \<lparr> wc_skipped := wc_skipped c + 1 \<rparr>)"

definition audit_line :: "json \<Rightarrow> json \<Rightarrow> audit option" where
  "audit_line review answered =
     (if outcome answered = ''skipped'' then None
      else Some \<lparr> au_namespace = review_text [''request'', ''namespace''] review,
                  au_name = unwrap_or (str_at [''request'', ''object'', ''metadata'', ''name''] review)
                              (review_text [''request'', ''object'', ''metadata'', ''generateName''] review),
                  au_source = review_text [''request'', ''object'', ''metadata'', ''annotations'',
                                           ''dynamic-config.rs/source''] review,
                  au_outcome = outcome answered \<rparr>)"

text \<open>One call of the handler: the answer it sends, the line it logs, and the counters after it.\<close>

definition mutate :: "sentences \<Rightarrow> (json \<Rightarrow> response) \<Rightarrow> nat \<Rightarrow> json \<Rightarrow> counters \<Rightarrow> (json \<times> audit option) \<times> counters"
where
  "mutate say decide elapsed review c =
     (let answered = respond say (decide review) in
      ((answered, audit_line review answered), count_outcome answered (record_admission elapsed answered c)))"

section \<open>The scrape\<close>

definition newline :: string where "newline = [CHR 0x0A]"
definition quoted :: "string \<Rightarrow> string" where "quoted t = [CHR 0x22] @ t @ [CHR 0x22]"

text \<open>The display of \<open>n as f64 / 1000000.0\<close>, exact while \<open>n\<close> has at most fifteen digits.\<close>

definition millionths :: "nat \<Rightarrow> string" where
  "millionths r = rev (dropWhile (\<lambda>c. c = CHR ''0'')
     (rev (map digit_char [r div 100000, r div 10000 mod 10, r div 1000 mod 10, r div 100 mod 10,
                           r div 10 mod 10, r mod 10])))"

definition show_micros :: "counter \<Rightarrow> string" where
  "show_micros w =
     (let n = unat w in
      show_nat (n div 1000000) @ (if n mod 1000000 = 0 then [] else ''.'' @ millionths (n mod 1000000)))"

definition show_counter :: "counter \<Rightarrow> string" where
  "show_counter w = show_nat (unat w)"

fun scrape_buckets :: "counter \<Rightarrow> (counter \<times> counter) list \<Rightarrow> (counter \<times> counter) list" where
  "scrape_buckets cumulative [] = []"
| "scrape_buckets cumulative ((bucket, most) # rest) =
     (most, max cumulative bucket) # scrape_buckets (max cumulative bucket) rest"

definition labelled :: "string \<Rightarrow> string \<Rightarrow> string \<Rightarrow> string \<Rightarrow> string" where
  "labelled name label v reading = name @ ''{'' @ label @ ''='' @ quoted v @ ''} '' @ reading @ newline"

definition typed :: "string \<Rightarrow> string \<Rightarrow> string" where
  "typed name kind = ''# TYPE '' @ name @ '' '' @ kind @ newline"

definition scrape :: "counter \<Rightarrow> counter \<Rightarrow> counters \<Rightarrow> string" where
  "scrape rotations expires c =
     (let count = show_counter (wc_count c);
          admissions = ''dynamic_config_admissions_total'';
          refusals = ''dynamic_config_admission_refusals_total'';
          seconds = ''dynamic_config_admission_duration_seconds'';
          bytes = ''dynamic_config_admission_patch_bytes_total'';
          rotated = ''dynamic_config_certificate_rotations_total'';
          expiry = ''dynamic_config_certificate_expires_at_seconds'' in
      typed admissions ''counter''
      @ labelled admissions ''outcome'' ''skipped'' (show_counter (wc_skipped c))
      @ labelled admissions ''outcome'' ''patched'' (show_counter (wc_patched c))
      @ labelled admissions ''outcome'' ''refused'' (show_counter (wc_refused c))
      @ typed refusals ''counter''
      @ labelled refusals ''reason'' ''malformed'' (show_counter (wc_malformed c))
      @ labelled refusals ''reason'' ''policy'' (show_counter (wc_policy c))
      @ labelled refusals ''reason'' ''pinned'' (show_counter (wc_pinned c))
      @ labelled refusals ''reason'' ''conflict'' (show_counter (wc_conflict c))
      @ labelled refusals ''reason'' ''other'' (show_counter (wc_other c))
      @ typed seconds ''histogram''
      @ concat (map (\<lambda>(most, n). labelled (seconds @ ''_bucket'') ''le'' (show_micros most) (show_counter n))
          (scrape_buckets 0 (zip (wc_histogram c) ADMISSION_BUCKETS)))
      @ labelled (seconds @ ''_bucket'') ''le'' ''+Inf'' count
      @ seconds @ ''_sum '' @ show_micros (wc_micros c) @ newline
      @ seconds @ ''_count '' @ count @ newline
      @ typed bytes ''counter'' @ bytes @ '' '' @ show_counter (wc_patch_bytes c) @ newline
      @ typed rotated ''counter'' @ rotated @ '' '' @ show_counter rotations @ newline
      @ typed expiry ''gauge'' @ expiry @ '' '' @ show_counter expires @ newline)"

section \<open>The classes, polled\<close>

text \<open>\<open>get\<close>: the document at an address, for a token, or why it could not be had.\<close>

definition list_polled :: "(string \<Rightarrow> string \<Rightarrow> string + json) \<Rightarrow> (string \<Rightarrow> string + string) \<Rightarrow> string + Classes" where
  "list_polled get read =
     rbind (bearer read) (\<lambda>token.
     let fetch = (\<lambda>path. get (''https://kubernetes.default.svc'' @ path) token) in
     list_classes (fetch ''/apis/dynamic-config.rs/v1alpha1/clusterdynamicconfigclasses'')
                  (fetch ''/apis/dynamic-config.rs/v1alpha1/dynamicconfigclasses''))"

text \<open>The task: over once when the cluster's authority cannot be read, and otherwise a poll every thirty
  seconds, each of which finds its own answers and its own token.\<close>

definition EVERY :: nat where "EVERY = 30"

definition poll_task :: "(string \<Rightarrow> (string + pem_item) list) \<Rightarrow> (string \<Rightarrow> string + string)
    \<Rightarrow> ((string \<Rightarrow> string \<Rightarrow> string + json) \<times> (string \<Rightarrow> string + string)) list \<Rightarrow> Classes \<Rightarrow> string + Classes" where
  "poll_task parse_pem read polls held =
     rbind (cluster_roots parse_pem read) (\<lambda>_.
     Inr (fold (\<lambda>(get, now_read). poll_once (list_polled get now_read)) polls held))"

section \<open>\<open>validate\<close>\<close>

record verdict =
  ve_allowed :: bool
  ve_said :: string

definition validate_review :: "json \<Rightarrow> json" where
  "validate_review pod =
     jobj [(''apiVersion'', jstr ''admission.k8s.io/v1''), (''kind'', jstr ''AdmissionReview''),
           (''request'', jobj [(''uid'', jstr ''validate''), (''object'', pod)])]"

definition em_dash :: string where "em_dash = [CHR 0xE2, CHR 0x80, CHR 0x94]"

definition judge :: "string \<Rightarrow> json \<Rightarrow> verdict" where
  "judge path answered =
     (if unwrap_or (Option.bind (pointer [''response'', ''allowed''] answered) as_bool) False
      then \<lparr> ve_allowed = True,
             ve_said = path @ '': allowed'' @
               (if pointer [''response'', ''patch''] answered \<noteq> None then '', and an agent would be injected''
                else '' '' @ em_dash @ '' nothing to inject'') \<rparr>
      else \<lparr> ve_allowed = False,
             ve_said = path @ '': refused ('' @
               unwrap_or (str_at [''response'', ''status'', ''reason''] answered) ''Refused'' @ '')'' @ newline @ ''  '' @
               unwrap_or (str_at [''response'', ''status'', ''message''] answered) ''no reason given'' \<rparr>)"

text \<open>What is printed for one manifest, and the result, of which the caller keeps whether it is an error.\<close>

definition validate_file :: "(string \<Rightarrow> string + string) \<Rightarrow> (string \<Rightarrow> string + json) \<Rightarrow> sentences
    \<Rightarrow> (json \<Rightarrow> response) \<Rightarrow> string \<Rightarrow> string option \<times> (string + unit)" where
  "validate_file read from_yaml say decide path =
     (case rbind (read path) from_yaml of
        Inl e \<Rightarrow> (None, Inl e)
      | Inr pod \<Rightarrow>
          let v = judge path (respond say (decide (validate_review pod))) in
          (Some (ve_said v), if ve_allowed v then Inr () else Inl ''the pod would be refused''))"

definition fails :: "string option \<times> (string + unit) \<Rightarrow> bool" where
  "fails r = (case snd r of Inl _ \<Rightarrow> True | Inr _ \<Rightarrow> False)"

definition validate_main :: "(string \<Rightarrow> string option \<times> (string + unit)) \<Rightarrow> string list
    \<Rightarrow> string list \<times> (string + unit)" where
  "validate_main check paths =
     (let outcomes = map check paths;
          failures = length (List.filter fails outcomes) in
      if paths = [] then ([''usage: dynamic-config-webhook validate <pod.yaml>...''], Inl ''no manifest to validate'')
      else (List.map_filter fst outcomes,
            if failures = 0 then Inr ()
            else Inl (show_nat failures @ '' of '' @ show_nat (length paths) @ '' manifests would be refused'')))"

section \<open>What the answer says\<close>

definition patched_by :: "answer \<Rightarrow> bool" where
  "patched_by a = (case a of AllowPatched _ _ _ \<Rightarrow> True | _ \<Rightarrow> False)"

definition refused_for :: "reason \<Rightarrow> answer \<Rightarrow> bool" where
  "refused_for why a = (case a of Refuse _ r _ \<Rightarrow> r = why | _ \<Rightarrow> False)"

lemma answer_kinds [simp]:
  "\<not> patched_by Allow" "patched_by (AllowPatched p ws ds)" "\<not> patched_by (Refuse n r x)"
  "\<not> refused_for why Allow" "\<not> refused_for why (AllowPatched p ws ds)"
  "refused_for why (Refuse n r x) \<longleftrightarrow> r = why"
  by (simp_all add: patched_by_def refused_for_def)

lemma answer_cases:
  obtains "a = Allow" | p ws ds where "a = AllowPatched p ws ds"
  | n x where "a = Refuse n POLICY x" | n x where "a = Refuse n PINNED x"
  | n x where "a = Refuse n MALFORMED x" | n x where "a = Refuse n CONFLICT x"
  by (cases a) (simp_all, metis reason.exhaust)

lemma slugs_differ: "reason_slug r = reason_slug r' \<longleftrightarrow> r = r'"
  by (cases r; cases r') (simp_all add: reason_slug_def)

lemmas answer_fields = respond_def answer_object_def jobj_def jset_def jstr_def jnat_def str_at_def Let_def

lemma answered_patch:
  "str_at [''response'', ''patch''] (respond say r) =
     (case answer r of AllowPatched p _ _ \<Rightarrow> Some p | _ \<Rightarrow> None)"
  "pointer [''response'', ''patch''] (respond say r) \<noteq> None \<longleftrightarrow> patched_by (answer r)"
  by (simp_all add: answer_fields patched_by_def split: answer.split)

lemma answered_allowed:
  "pointer [''response'', ''allowed''] (respond say r) =
     Some (JBool (case answer r of Refuse _ _ _ \<Rightarrow> False | _ \<Rightarrow> True))"
  by (simp add: answer_fields split: answer.split)

lemma answered_reason:
  "str_at [''response'', ''status'', ''reason''] (respond say r) =
     (case answer r of Refuse _ why _ \<Rightarrow> Some (reason_slug why) | _ \<Rightarrow> None)"
  by (simp add: answer_fields split: answer.split)

lemma outcome_of_answer:
  "outcome (respond say r) =
     (case answer r of Allow \<Rightarrow> ''skipped'' | AllowPatched _ _ _ \<Rightarrow> ''patched'' | Refuse _ _ _ \<Rightarrow> ''refused'')"
  unfolding outcome_def answered_patch(2) answered_allowed
  by (simp add: patched_by_def split: answer.split)

section \<open>What the counters say\<close>

text \<open>Admissions one after another: how long each took, what decided it, and what was asked.\<close>

type_synonym admission = "nat \<times> (json \<Rightarrow> response) \<times> json"

definition serve :: "sentences \<Rightarrow> admission list \<Rightarrow> counters \<Rightarrow> counters" where
  "serve say as c = foldl (\<lambda>c (elapsed, decide, review). snd (mutate say decide elapsed review c)) c as"

definition answers :: "admission list \<Rightarrow> answer list" where
  "answers as = map (\<lambda>(elapsed, decide, review). answer (decide review)) as"

definition tally :: "('a \<Rightarrow> bool) \<Rightarrow> 'a list \<Rightarrow> counter" where
  "tally P xs = of_nat (length (List.filter P xs))"

lemma tally_simps [simp]:
  "tally P [] = 0" "tally P (xs @ [x]) = (if P x then tally P xs + 1 else tally P xs)"
  by (simp_all add: tally_def)

lemma serve_snoc:
  "serve say (as @ [(elapsed, decide, review)]) c = snd (mutate say decide elapsed review (serve say as c))"
  "serve say [] c = c"
  by (simp_all add: serve_def)

lemma answers_snoc:
  "answers (as @ [(elapsed, decide, review)]) = answers as @ [answer (decide review)]" "answers [] = []"
  by (simp_all add: answers_def)

definition counted :: "answer \<Rightarrow> counters \<Rightarrow> counters" where
  "counted a c =
     (case a of
        Allow \<Rightarrow> c \<lparr> wc_skipped := wc_skipped c + 1 \<rparr>
      | AllowPatched _ _ _ \<Rightarrow> c \<lparr> wc_patched := wc_patched c + 1 \<rparr>
      | Refuse _ why _ \<Rightarrow> refusal_reason (reason_slug why) (c \<lparr> wc_refused := wc_refused c + 1 \<rparr>))"

lemma count_outcome_answer: "count_outcome (respond say r) c = counted (answer r) c"
  unfolding count_outcome_def outcome_of_answer answered_reason counted_def
  by (simp split: answer.split)

lemma mutate_counts:
  "snd (mutate say decide elapsed review c) =
     counted (answer (decide review)) (record_admission elapsed (respond say (decide review)) c)"
  by (simp add: mutate_def Let_def count_outcome_answer)

lemma record_keeps:
  "wc_skipped (record_admission elapsed j c) = wc_skipped c"
  "wc_patched (record_admission elapsed j c) = wc_patched c"
  "wc_refused (record_admission elapsed j c) = wc_refused c"
  "wc_policy (record_admission elapsed j c) = wc_policy c"
  "wc_pinned (record_admission elapsed j c) = wc_pinned c"
  "wc_malformed (record_admission elapsed j c) = wc_malformed c"
  "wc_conflict (record_admission elapsed j c) = wc_conflict c"
  "wc_other (record_admission elapsed j c) = wc_other c"
  "wc_count (record_admission elapsed j c) = wc_count c + 1"
  by (simp_all add: record_admission_def Let_def split: option.split)

lemma counted_counters:
  "wc_skipped (counted a c) = wc_skipped c + (if a = Allow then 1 else 0)"
  "wc_patched (counted a c) = wc_patched c + (if patched_by a then 1 else 0)"
  "wc_refused (counted a c) = wc_refused c + (if a = Allow \<or> patched_by a then 0 else 1)"
  "wc_policy (counted a c) = wc_policy c + (if refused_for POLICY a then 1 else 0)"
  "wc_pinned (counted a c) = wc_pinned c + (if refused_for PINNED a then 1 else 0)"
  "wc_malformed (counted a c) = wc_malformed c + (if refused_for MALFORMED a then 1 else 0)"
  "wc_conflict (counted a c) = wc_conflict c + (if refused_for CONFLICT a then 1 else 0)"
  "wc_other (counted a c) = wc_other c"
  "wc_count (counted a c) = wc_count c"
  "wc_histogram (counted a c) = wc_histogram c"
  by (cases a; simp add: counted_def patched_by_def refused_for_def; rename_tac n r x; case_tac r;
      simp add: refusal_reason_def slugs_differ)+

lemma serve_induct [case_names none more]:
  assumes "P [] no_admissions"
    and "\<And>as elapsed d r c. P as c \<Longrightarrow>
      P (as @ [(elapsed, d, r)]) (counted (answer (d r)) (record_admission elapsed (respond say (d r)) c))"
  shows "P as (serve say as no_admissions)"
proof (induction as rule: rev_induct)
  case (snoc a as)
  obtain elapsed decide review where "a = (elapsed, decide, review)" by (cases a)
  with assms(2) [OF snoc] show ?case by (simp add: serve_snoc mutate_counts)
qed (use assms(1) in \<open>simp add: serve_snoc\<close>)

lemmas accounting = no_admissions_def answers_snoc counted_counters record_keeps

lemma outcomes_tally:
  "wc_skipped (serve say as no_admissions) = tally (\<lambda>a. a = Allow) (answers as) \<and>
   wc_patched (serve say as no_admissions) = tally patched_by (answers as) \<and>
   wc_other (serve say as no_admissions) = 0"
  by (induction rule: serve_induct) (simp_all add: accounting)

lemma reasons_tally:
  "wc_policy (serve say as no_admissions) = tally (refused_for POLICY) (answers as) \<and>
   wc_pinned (serve say as no_admissions) = tally (refused_for PINNED) (answers as) \<and>
   wc_malformed (serve say as no_admissions) = tally (refused_for MALFORMED) (answers as) \<and>
   wc_conflict (serve say as no_admissions) = tally (refused_for CONFLICT) (answers as)"
  by (induction rule: serve_induct) (simp_all add: accounting)

lemma refusals_add_up:
  "wc_refused (serve say as no_admissions) =
     wc_policy (serve say as no_admissions) + wc_pinned (serve say as no_admissions) +
     wc_malformed (serve say as no_admissions) + wc_conflict (serve say as no_admissions)"
proof (induction rule: serve_induct)
  case (more as elapsed d r c)
  then show ?case by (cases "answer (d r)" rule: answer_cases) (simp_all add: accounting)
qed (simp add: accounting)

lemma admissions_add_up:
  "wc_count (serve say as no_admissions) =
     wc_skipped (serve say as no_admissions) + wc_patched (serve say as no_admissions) +
     wc_refused (serve say as no_admissions)"
proof (induction rule: serve_induct)
  case (more as elapsed d r c)
  then show ?case by (cases "answer (d r)" rule: answer_cases) (simp_all add: accounting)
qed (simp add: accounting)

lemma admissions_are_counted: "wc_count (serve say as no_admissions) = of_nat (length as)"
  by (induction rule: serve_induct) (simp_all add: accounting)

text \<open>C17: every admission is counted once, under the outcome of its answer, and a refusal under the reason it
  was refused for; the counter of other reasons never moves.\<close>

theorem admissions_are_accounted_for:
  "let c = serve say as no_admissions; answered = answers as in
     wc_count c = of_nat (length as) \<and>
     wc_skipped c = tally (\<lambda>a. a = Allow) answered \<and>
     wc_patched c = tally patched_by answered \<and>
     wc_policy c = tally (refused_for POLICY) answered \<and>
     wc_pinned c = tally (refused_for PINNED) answered \<and>
     wc_malformed c = tally (refused_for MALFORMED) answered \<and>
     wc_conflict c = tally (refused_for CONFLICT) answered \<and>
     wc_other c = 0 \<and>
     wc_refused c = wc_policy c + wc_pinned c + wc_malformed c + wc_conflict c \<and>
     wc_count c = wc_skipped c + wc_patched c + wc_refused c"
  unfolding Let_def
  using admissions_are_counted outcomes_tally reasons_tally refusals_add_up admissions_add_up
  by (intro conjI) blast+

text \<open>A bucket counts the admissions that took no longer than its ceiling.\<close>

lemma durations_count:
  "wc_histogram (serve say as no_admissions) =
     map (\<lambda>most. tally (\<lambda>(elapsed, _). clamp_micros elapsed \<le> most) as) ADMISSION_BUCKETS"
proof (induction as rule: rev_induct)
  case Nil
  then show ?case by (simp add: serve_snoc no_admissions_def ADMISSION_BUCKETS_def)
next
  case (snoc a as)
  obtain elapsed decide review where a: "a = (elapsed, decide, review)" by (cases a)
  have "wc_histogram (record_admission elapsed j c) =
      map2 (\<lambda>bucket most. if clamp_micros elapsed \<le> most then bucket + 1 else bucket) (wc_histogram c) ADMISSION_BUCKETS"
    for j c by (simp add: record_admission_def Let_def split: option.split)
  then show ?case
    unfolding a serve_snoc mutate_counts counted_counters
    by (simp add: snoc ADMISSION_BUCKETS_def)
qed

lemma tally_mono:
  fixes P Q :: "'a \<Rightarrow> bool"
  assumes "\<And>x. P x \<Longrightarrow> Q x" and "length xs < 2 ^ 64"
  shows "tally P xs \<le> tally Q xs"
proof -
  have "length (List.filter P xs) \<le> length (List.filter Q xs)"
    using assms(1) by (induction xs) auto
  moreover have "length (List.filter Q xs) < 2 ^ 64"
    using assms(2) length_filter_le [of Q xs] by linarith
  ultimately show ?thesis by (simp add: tally_def word_le_nat_alt unat_of_nat)
qed

lemma scrape_sorted:
  "sorted (c # map fst bs) \<Longrightarrow> scrape_buckets c bs = map (\<lambda>(n, most). (most, n)) bs"
  by (induction bs arbitrary: c) (auto simp: max_absorb2)

text \<open>What a scrape shows of the durations is a cumulative histogram, and its last bucket counts no more
  than the total: while fewer than \<open>2 ^ 64\<close> admissions were served, no reading goes backwards.\<close>

theorem scraped_durations_are_cumulative:
  assumes "length as < 2 ^ 64"
  shows "let c = serve say as no_admissions in
    scrape_buckets 0 (zip (wc_histogram c) ADMISSION_BUCKETS) =
      map (\<lambda>most. (most, tally (\<lambda>(elapsed, _). clamp_micros elapsed \<le> most) as)) ADMISSION_BUCKETS \<and>
    sorted (map snd (scrape_buckets 0 (zip (wc_histogram c) ADMISSION_BUCKETS)) @ [wc_count c])"
proof -
  define n where "n most = tally (\<lambda>(elapsed, _). clamp_micros elapsed \<le> most) as" for most :: counter
  have le: "n a \<le> n b" if "a \<le> b" for a b
    unfolding n_def by (rule tally_mono) (use that assms in auto)
  have count: "wc_count (serve say as no_admissions) = tally (\<lambda>_. True) as"
    using admissions_are_counted by (simp add: tally_def)
  have top: "n a \<le> wc_count (serve say as no_admissions)" for a
    unfolding n_def count by (rule tally_mono) (use assms in auto)
  have h: "wc_histogram (serve say as no_admissions) = map n ADMISSION_BUCKETS"
    by (simp add: durations_count n_def)
  have "sorted (map n ADMISSION_BUCKETS @ [wc_count (serve say as no_admissions)])"
    by (simp add: ADMISSION_BUCKETS_def le top)
  then show ?thesis
    unfolding Let_def h n_def [symmetric]
    by (subst (1 2) scrape_sorted) (simp_all add: ADMISSION_BUCKETS_def)
qed

theorem scraped_durations_are_cumulative_witness:
  "\<exists>c :: counters. wc_count c = 1 \<and> map snd (scrape_buckets 0 (zip (wc_histogram c) ADMISSION_BUCKETS)) = [0, 0, 1, 1, 1, 1, 1]"
proof -
  let ?as = "[(700, \<lambda>_. \<lparr> uid = [], answer = Allow \<rparr>, JNull)] :: admission list"
  let ?say = "\<lparr> say_refusal = \<lambda>_. [], say_warning = \<lambda>_. [], say_deprecation = \<lambda>_. [] \<rparr>"
  have "wc_count (serve ?say ?as no_admissions) = 1"
    by (simp add: admissions_are_counted)
  moreover have "map snd (scrape_buckets 0 (zip (wc_histogram (serve ?say ?as no_admissions)) ADMISSION_BUCKETS)) =
      [0, 0, 1, 1, 1, 1, 1]"
    using scraped_durations_are_cumulative [of ?as ?say]
    by (simp add: Let_def ADMISSION_BUCKETS_def tally_def clamp_micros_def)
  ultimately show ?thesis by (intro exI [of _ "serve ?say ?as no_admissions"] conjI)
qed

section \<open>\<open>validate\<close> and the admission\<close>

lemma validate_judges_the_answer:
  "validate_file read from_yaml say decide path =
     (case rbind (read path) from_yaml of
        Inl e \<Rightarrow> (None, Inl e)
      | Inr pod \<Rightarrow>
          (Some (ve_said (judge path (respond say (decide (validate_review pod))))),
           case answer (decide (validate_review pod)) of
             Refuse _ _ _ \<Rightarrow> Inl ''the pod would be refused'' | _ \<Rightarrow> Inr ()))"
  unfolding validate_file_def judge_def answered_allowed
  by (simp add: Let_def as_bool_def split: sum.split answer.split)

text \<open>\<open>validate\<close> succeeds on the manifests it was given exactly when there is one, each was read, and the
  admission of none of them would be refused; it decides as for a namespace without a name, whatever the
  manifest's is, and knows no class.\<close>

theorem validate_agrees_with_the_admission:
  "snd (validate_main (validate_file read from_yaml say (admission_response to_vec env inst no_classes)) paths) = Inr () \<longleftrightarrow>
    paths \<noteq> [] \<and>
    list_all (\<lambda>path. case rbind (read path) from_yaml of
        Inl _ \<Rightarrow> False
      | Inr pod \<Rightarrow> (case with_class pod [] no_classes of
            Inl _ \<Rightarrow> False
          | Inr filled \<Rightarrow> (case pod_answer to_vec env inst [] (unwrap_or filled pod) of
                Refuse _ _ _ \<Rightarrow> False | _ \<Rightarrow> True))) paths"
proof -
  let ?decide = "admission_response to_vec env inst no_classes"
  have decided: "answer (?decide (validate_review pod)) =
      (case with_class pod [] no_classes of
         Inl (why, what) \<Rightarrow> Refuse 403 why what
       | Inr filled \<Rightarrow> pod_answer to_vec env inst [] (unwrap_or filled pod))" for pod
    by (simp add: admission_response_def validate_review_def answer_fields split: sum.split option.split)
  have "fails (validate_file read from_yaml say ?decide path) \<longleftrightarrow>
      \<not> (case rbind (read path) from_yaml of
        Inl _ \<Rightarrow> False
      | Inr pod \<Rightarrow> (case with_class pod [] no_classes of
            Inl _ \<Rightarrow> False
          | Inr filled \<Rightarrow> (case pod_answer to_vec env inst [] (unwrap_or filled pod) of
                Refuse _ _ _ \<Rightarrow> False | _ \<Rightarrow> True)))" for path
    unfolding validate_judges_the_answer fails_def decided
    by (simp split: sum.split answer.split prod.split)
  then show ?thesis
    by (auto simp: validate_main_def Let_def list_all_iff filter_empty_conv)
qed

text \<open>A manifest that cannot be read is counted with those that would be refused, and nothing is said of it.\<close>

lemma unreadable_manifest_is_silent:
  assumes "read path = Inl e"
  shows "validate_main (validate_file read from_yaml say decide) [path] =
    ([], Inl ''1 of 1 manifests would be refused'')"
proof -
  have "show_nat 1 = ''1''" by code_simp
  with assms show ?thesis
    by (simp add: validate_main_def validate_file_def fails_def map_filter_simps Let_def)
qed

section \<open>What the poll leaves\<close>

text \<open>The classes an admission sees are those of the last poll that was answered whole.\<close>

theorem classes_are_the_last_answer:
  assumes "poll_task parse_pem read (before @ (get, now_read) # refused) held = Inr seen"
    and "list_polled get now_read = Inr classes" and "\<forall>(g, r) \<in> set refused. \<exists>e. list_polled g r = Inl e"
  shows "seen = classes"
proof -
  have keep: "fold (\<lambda>(get, now_read). poll_once (list_polled get now_read)) refused c = c" for c
    using assms(3) by (induction refused) (auto simp: poll_once_def)
  show ?thesis
    using assms(1,2) keep by (auto simp: poll_task_def res_simps poll_once_def replace_classes_def)
qed

theorem classes_are_the_last_answer_witness:
  "\<exists>seen. poll_task (\<lambda>_. [Inr (PemCertificate ''c'')]) (\<lambda>_. Inr [])
     [(\<lambda>_ _. Inr JNull, \<lambda>_. Inr []), (\<lambda>_ _. Inl ''busy'', \<lambda>_. Inr [])] [([], ''team'') \<mapsto> team_class] = Inr seen \<and> seen = no_classes"
proof -
  let ?read = "\<lambda>_. Inr []" and ?pem = "\<lambda>_. [Inr (PemCertificate ''c'')]"
  let ?polls = "[] @ (\<lambda>_ _. Inr JNull, \<lambda>_. Inr []) # [(\<lambda>_ _. Inl ''busy'', \<lambda>_. Inr [])]"
  obtain seen where seen: "poll_task ?pem ?read ?polls [([], ''team'') \<mapsto> team_class] = Inr seen"
    by (simp add: poll_task_def cluster_roots_def root_of_def map_filter_simps)
  have "list_polled (\<lambda>_ _. Inr JNull) ?read = Inr no_classes" "list_polled (\<lambda>_ _. Inl ''busy'') ?read = Inl ''busy''"
    by (simp_all add: list_polled_def bearer_def list_classes_def from_list_def no_classes_def jget_def)
  with classes_are_the_last_answer [OF seen] have "seen = no_classes" by simp
  with seen show ?thesis by simp
qed

end
