(* ===== verification/Serving.thy ===== *)
theory Serving
  imports Webhook Rotation InstallationFile
begin

text \<open>
  The webhook as a server (\<open>tls.rs\<close> and the second half of its \<open>main.rs\<close>): the pair on disk, what loads
  from it and when it is looked at again, the accept loop, readiness, and the mode the process starts in.
  A disk is the files a path has at some moment, with their modification times; rustls' readers and its
  check of a pair are parameters. A config is what they make of the pair.
\<close>

section \<open>The material\<close>

record Material =
  ma_certificate :: string
  ma_key :: string

definition material_from_environment :: "(string \<Rightarrow> string option) \<Rightarrow> Material" where
  "material_from_environment env =
     \<lparr> ma_certificate = unwrap_or (env ''DYNAMIC_CONFIG_WEBHOOK_TLS_CERT'') ''/tls/tls.crt'',
       ma_key = unwrap_or (env ''DYNAMIC_CONFIG_WEBHOOK_TLS_KEY'') ''/tls/tls.key'' \<rparr>"

record tls_file =
  tf_text :: string
  tf_modified :: nat

type_synonym tls_disk = "string \<rightharpoonup> tls_file"

record rustls =
  read_chain :: "string \<Rightarrow> string + string list"
  read_key :: "string \<Rightarrow> string + string"
  refuses :: "string list \<Rightarrow> string \<Rightarrow> string option"

record server_config =
  sc_chain :: "string list"
  sc_key :: string
  sc_alpn :: "string list"

datatype load_error = NoFile string | Unusable string

definition present :: "Material \<Rightarrow> tls_disk \<Rightarrow> bool" where
  "present m d \<longleftrightarrow> d (ma_certificate m) \<noteq> None \<and> d (ma_key m) \<noteq> None"

definition file_text :: "string \<Rightarrow> tls_disk \<Rightarrow> load_error + string" where
  "file_text path d = ok_or (map_option tf_text (d path)) (NoFile path)"

definition load :: "rustls \<Rightarrow> Material \<Rightarrow> tls_disk \<Rightarrow> load_error + server_config" where
  "load lib m d =
     rbind (file_text (ma_certificate m) d) (\<lambda>pem.
     rbind (map_err Unusable (read_chain lib pem)) (\<lambda>chain.
     rbind (file_text (ma_key m) d) (\<lambda>secret.
     rbind (map_err Unusable (read_key lib secret)) (\<lambda>key.
     case refuses lib chain key of
       Some e \<Rightarrow> Inl (Unusable e)
     | None \<Rightarrow> Inr \<lparr> sc_chain = chain, sc_key = key, sc_alpn = [''http/1.1''] \<rparr>))))"

definition loadable :: "rustls \<Rightarrow> Material \<Rightarrow> tls_disk \<Rightarrow> bool" where
  "loadable lib m d \<longleftrightarrow> (case load lib m d of Inl _ \<Rightarrow> False | Inr _ \<Rightarrow> True)"

definition modified :: "Material \<Rightarrow> tls_disk \<Rightarrow> (nat \<times> nat) option" where
  "modified m d =
     Option.bind (d (ma_certificate m)) (\<lambda>c. Option.bind (d (ma_key m)) (\<lambda>k.
       Some (tf_modified c, tf_modified k)))"

section \<open>The accept loop\<close>

text \<open>Seconds, and for the backoff of a failed accept milliseconds.\<close>

definition HANDSHAKE_TIMEOUT :: nat where "HANDSHAKE_TIMEOUT = 10"
definition HEADER_TIMEOUT :: nat where "HEADER_TIMEOUT = 15"
definition DRAIN_TIMEOUT :: nat where "DRAIN_TIMEOUT = 30"
definition ACCEPT_BACKOFF :: nat where "ACCEPT_BACKOFF = 10"
definition RELOAD_INTERVAL :: nat where "RELOAD_INTERVAL = 60"

record serving =
  sv_current :: server_config
  sv_seen :: "(nat \<times> nat) option"

text \<open>The pair is read before its stamps are at the start, and after them at a tick: each look may be at a
  disk that has changed in between.\<close>

definition start_serving :: "rustls \<Rightarrow> Material \<Rightarrow> tls_disk \<Rightarrow> tls_disk \<Rightarrow> load_error + serving" where
  "start_serving lib m read dated =
     rbind (load lib m read) (\<lambda>config. Inr \<lparr> sv_current = config, sv_seen = modified m dated \<rparr>)"

definition reload_tick :: "rustls \<Rightarrow> Material \<Rightarrow> tls_disk \<Rightarrow> tls_disk \<Rightarrow> serving \<Rightarrow> serving" where
  "reload_tick lib m dated read s =
     (let now = modified m dated in
      if now \<noteq> None \<and> now \<noteq> sv_seen s
      then (case load lib m read of
              Inr fresh \<Rightarrow> s \<lparr> sv_current := fresh, sv_seen := now \<rparr>
            | Inl _ \<Rightarrow> s)
      else s)"

datatype tls_event =
    Shutdown
  | Tick tls_disk
  | Accepted
  | AcceptFailed

text \<open>The configs the handshakes are done with, in the order of the connections. What comes after the
  shutdown is not accepted.\<close>

fun handshakes :: "rustls \<Rightarrow> Material \<Rightarrow> tls_event list \<Rightarrow> serving \<Rightarrow> server_config list" where
  "handshakes lib m [] s = []"
| "handshakes lib m (Shutdown # rest) s = []"
| "handshakes lib m (Tick d # rest) s = handshakes lib m rest (reload_tick lib m d d s)"
| "handshakes lib m (Accepted # rest) s = sv_current s # handshakes lib m rest s"
| "handshakes lib m (AcceptFailed # rest) s = handshakes lib m rest s"

section \<open>Readiness and the mode\<close>

definition plaintext :: "(string \<Rightarrow> string option) \<Rightarrow> bool" where
  "plaintext env \<longleftrightarrow> env ''DYNAMIC_CONFIG_WEBHOOK_PLAINTEXT'' = Some ''1''"

definition readyz :: "rustls \<Rightarrow> (string \<Rightarrow> string option) \<Rightarrow> tls_disk \<Rightarrow> nat \<times> string" where
  "readyz lib env d =
     (if loadable lib (material_from_environment env) d \<or> plaintext env then (200, ''ok'')
      else (503, ''no certificate loaded''))"

datatype mode = OverTls | PlainHttp

definition serving_mode :: "(string \<Rightarrow> string option) \<Rightarrow> Material \<Rightarrow> tls_disk \<Rightarrow> string + mode" where
  "serving_mode env m d =
     (if present m d then Inr OverTls
      else if plaintext env then Inr PlainHttp
      else Inl (''no TLS material at '' @ ma_certificate m @ '' / '' @ ma_key m @
                '': an admission webhook cannot serve plain HTTP (set '' @
                ''DYNAMIC_CONFIG_WEBHOOK_PLAINTEXT=1 only for a local harness)''))"

text \<open>The looks at the disk while the first pair is minted, five seconds apart; nothing: it still waits.\<close>

fun wait_loadable :: "rustls \<Rightarrow> Material \<Rightarrow> tls_disk list \<Rightarrow> tls_disk option" where
  "wait_loadable lib m [] = None"
| "wait_loadable lib m (d # ds) = (if loadable lib m d then Some d else wait_loadable lib m ds)"

record process_plan =
  pp_polls_classes :: bool
  pp_scrape :: "string option"
  pp_address :: string
  pp_rotates :: "Settings option"

definition process_plan_of :: "(string \<Rightarrow> string option) \<Rightarrow> process_plan" where
  "process_plan_of env =
     \<lparr> pp_polls_classes = (env ''DYNAMIC_CONFIG_WEBHOOK_CLASSES'' = Some ''true''),
       pp_scrape = (let address = unwrap_or (env ''DYNAMIC_CONFIG_WEBHOOK_METRICS_ADDR'') [] in
                    if address = [] then None else Some address),
       pp_address = unwrap_or (env ''DYNAMIC_CONFIG_WEBHOOK_ADDR'') ''0.0.0.0:8443'',
       pp_rotates = settings_from_environment env \<rparr>"

text \<open>
  The installation a process runs under: the mounted document below its environment. \<open>parse\<close> is the reader
  the file's name selects, \<open>disk\<close> what the file system answers; the two \<open>say\<close> functions are the sentences.
\<close>

definition document_path :: "(string \<Rightarrow> string option) \<Rightarrow> string" where
  "document_path env =
     unwrap_or (env ''DYNAMIC_CONFIG_WEBHOOK_DEFAULTS_FILE'') ''/etc/dynamic-config/installation.yaml''"

definition process_installation :: "(string \<Rightarrow> doc_error \<Rightarrow> string) \<Rightarrow> (refusal \<Rightarrow> string)
    \<Rightarrow> (string \<Rightarrow> string \<Rightarrow> doc_error + json) \<Rightarrow> (string \<Rightarrow> file_read) \<Rightarrow> (string \<Rightarrow> string option)
    \<Rightarrow> string + Installation" where
  "process_installation say_doc say parse disk env =
     (let path = document_path env in
      rbind (map_err (say_doc path) (read_document (parse path) (disk path))) (\<lambda>mounted.
      map_err say (from_environment env mounted)))"

definition verify_installation :: "(string \<Rightarrow> doc_error \<Rightarrow> string) \<Rightarrow> (refusal \<Rightarrow> string)
    \<Rightarrow> (string \<Rightarrow> string \<Rightarrow> doc_error + json) \<Rightarrow> (string \<Rightarrow> file_read) \<Rightarrow> (string \<Rightarrow> string option)
    \<Rightarrow> string + unit" where
  "verify_installation say_doc say parse disk env =
     rbind (process_installation say_doc say parse disk env) (\<lambda>_. Inr ())"

text \<open>
  The start of the process: the installation verified, the cryptography chosen (for the first time, or the
  start is refused), the address bound, and the mode. \<open>d\<close> is the disk
  as it is found, \<open>ds\<close> at the looks of a webhook that waits for its own first pair.
\<close>

definition serve_forever :: "rustls \<Rightarrow> (string \<Rightarrow> string option) \<Rightarrow> string + unit \<Rightarrow> bool
    \<Rightarrow> (string \<Rightarrow> string + unit) \<Rightarrow> tls_disk \<Rightarrow> tls_disk list \<Rightarrow> (string + mode) option" where
  "serve_forever lib env verified first_provider bind_to d ds =
     (let plan = process_plan_of env; m = material_from_environment env in
      case rbind verified (\<lambda>_.
           rbind (ensure first_provider ''a rustls CryptoProvider was already installed'') (\<lambda>_.
           bind_to (pp_address plan))) of
        Inl e \<Rightarrow> Some (Inl e)
      | Inr _ \<Rightarrow>
          (case pp_rotates plan of
             None \<Rightarrow> Some (serving_mode env m d)
           | Some _ \<Rightarrow> map_option (serving_mode env m) (wait_loadable lib m ds)))"

text \<open>A webhook that serves has an installation, and the one it has is well formed.\<close>

theorem serving_webhook_has_an_installation:
  assumes "serve_forever lib env (verify_installation say_doc say parse disk env) first_provider bind_to d ds
      = Some (Inr mode)"
  obtains inst where "process_installation say_doc say parse disk env = Inr inst" and "installation_ok inst"
proof -
  obtain inst where inst: "process_installation say_doc say parse disk env = Inr inst"
    using assms by (auto simp: serve_forever_def Let_def verify_installation_def rbind_def split: sum.splits)
  have "installation_ok inst"
    using inst by (auto simp: process_installation_def Let_def from_environment_def rbind_eq_Inr map_err_eq_Inr
        dest: from_lookup_ok)
  with inst show thesis by (rule that)
qed

section \<open>What loads\<close>

lemma load_present: "load lib m d = Inr c \<Longrightarrow> present m d \<and> modified m d \<noteq> None"
  by (auto simp: load_def file_text_def present_def modified_def res_simps split: option.splits)

lemma loadable_iff: "loadable lib m d \<longleftrightarrow> (\<exists>c. load lib m d = Inr c)"
  by (auto simp: loadable_def split: sum.splits)

text \<open>The reference: at every look the newest pair that loads, and the one before it otherwise.\<close>

definition latest_of :: "rustls \<Rightarrow> Material \<Rightarrow> tls_disk \<Rightarrow> server_config \<Rightarrow> server_config" where
  "latest_of lib m d c = (case load lib m d of Inr fresh \<Rightarrow> fresh | Inl _ \<Rightarrow> c)"

fun latest_handshakes :: "rustls \<Rightarrow> Material \<Rightarrow> tls_event list \<Rightarrow> server_config \<Rightarrow> server_config list" where
  "latest_handshakes lib m [] c = []"
| "latest_handshakes lib m (Shutdown # rest) c = []"
| "latest_handshakes lib m (Tick d # rest) c = latest_handshakes lib m rest (latest_of lib m d c)"
| "latest_handshakes lib m (Accepted # rest) c = c # latest_handshakes lib m rest c"
| "latest_handshakes lib m (AcceptFailed # rest) c = latest_handshakes lib m rest c"

definition disks :: "tls_event list \<Rightarrow> tls_disk set" where
  "disks es = {d. Tick d \<in> set es}"

lemma disks_simps [simp]:
  "disks [] = {}" "disks (Tick d # es) = insert d (disks es)" "disks (Shutdown # es) = disks es"
  "disks (Accepted # es) = disks es" "disks (AcceptFailed # es) = disks es"
  by (auto simp: disks_def)

text \<open>The stamps tell one pair from another.\<close>

definition stamps_tell :: "rustls \<Rightarrow> Material \<Rightarrow> tls_disk set \<Rightarrow> bool" where
  "stamps_tell lib m D \<longleftrightarrow> (\<forall>a \<in> D. \<forall>b \<in> D. modified m a = modified m b \<longrightarrow> load lib m a = load lib m b)"

text \<open>What is served was loaded from the disk whose stamps were kept.\<close>

definition faithful :: "rustls \<Rightarrow> Material \<Rightarrow> tls_disk set \<Rightarrow> serving \<Rightarrow> bool" where
  "faithful lib m D s \<longleftrightarrow> (\<exists>d \<in> D. load lib m d = Inr (sv_current s) \<and> sv_seen s = modified m d)"

lemma tick_is_latest:
  assumes "faithful lib m D s" and "d \<in> D" and "stamps_tell lib m D"
  shows "sv_current (reload_tick lib m d d s) = latest_of lib m d (sv_current s)"
    and "faithful lib m D (reload_tick lib m d d s)"
proof -
  obtain a where a: "a \<in> D" "load lib m a = Inr (sv_current s)" "sv_seen s = modified m a"
    using assms(1) by (auto simp: faithful_def)
  show "sv_current (reload_tick lib m d d s) = latest_of lib m d (sv_current s)"
  proof (cases "modified m d = sv_seen s")
    case True
    then have "modified m d = modified m a" using a(3) by (rule trans)
    then have "load lib m d = load lib m a"
      using assms(2,3) a(1) unfolding stamps_tell_def by blast
    then have "load lib m d = Inr (sv_current s)" using a(2) by (rule trans)
    then show ?thesis using True by (simp add: reload_tick_def latest_of_def)
  next
    case False
    then show ?thesis
      using load_present [of lib m d]
      by (cases "load lib m d") (simp_all add: reload_tick_def latest_of_def Let_def)
  qed
  show "faithful lib m D (reload_tick lib m d d s)"
    using assms(1,2) by (cases "load lib m d") (auto simp: faithful_def reload_tick_def Let_def)
qed

lemma handshakes_are_latest:
  assumes "faithful lib m D s" and "disks es \<subseteq> D" and "stamps_tell lib m D"
  shows "handshakes lib m es s = latest_handshakes lib m es (sv_current s)"
  using assms(1,2)
proof (induction es arbitrary: s)
  case (Cons e es)
  then show ?case
    using tick_is_latest [OF _ _ assms(3)] by (cases e) auto
qed simp

text \<open>C16: where no file of the pair is replaced between the first read and the first look at the stamps, nor between
  the two halves of a later look, and where different pairs carry different stamps, every connection is served
  with the newest pair that loaded at a look before it: a renewal is taken at the next look, and a pair that does
  not load leaves the one before it in place and is looked at again.\<close>

theorem connections_get_the_latest_pair:
  assumes "start_serving lib m read dated = Inr s" and "modified m read = modified m dated"
    and "stamps_tell lib m (insert read (disks es))"
  shows "handshakes lib m es s = latest_handshakes lib m es (sv_current s)"
proof (rule handshakes_are_latest [OF _ _ assms(3)])
  show "faithful lib m (insert read (disks es)) s"
    using assms(1,2) by (auto simp: start_serving_def faithful_def res_simps)
qed auto

definition plain_lib :: rustls where
  "plain_lib = \<lparr> read_chain = (\<lambda>t. if t = [] then Inl ''empty'' else Inr [t]),
     read_key = (\<lambda>t. if t = [] then Inl ''empty'' else Inr t),
     refuses = (\<lambda>chain key. if chain = [key] then None else Some ''mismatch'') \<rparr>"

definition pair_disk :: "string \<Rightarrow> string \<Rightarrow> nat \<Rightarrow> nat \<Rightarrow> tls_disk" where
  "pair_disk c k tc tk = [''c'' \<mapsto> \<lparr> tf_text = c, tf_modified = tc \<rparr>, ''k'' \<mapsto> \<lparr> tf_text = k, tf_modified = tk \<rparr>]"

definition example_material :: Material where
  "example_material = \<lparr> ma_certificate = ''c'', ma_key = ''k'' \<rparr>"

text \<open>A renewal written one file at a time.\<close>

definition renewal :: "tls_event list" where
  "renewal = [Accepted, Tick (pair_disk ''b'' ''a'' 2 1), Accepted, Tick (pair_disk ''b'' ''b'' 2 2), Accepted]"

lemma example_loads:
  "load plain_lib example_material (pair_disk c k tc tk) =
     (if c = [] then Inl (Unusable ''empty'') else if k = [] then Inl (Unusable ''empty'')
      else if c = k then Inr \<lparr> sc_chain = [c], sc_key = k, sc_alpn = [''http/1.1''] \<rparr> else Inl (Unusable ''mismatch''))"
  "modified example_material (pair_disk c k tc tk) = Some (tc, tk)"
  by (simp_all add: load_def file_text_def plain_lib_def example_material_def pair_disk_def modified_def)

theorem connections_get_the_latest_pair_witness:
  "\<exists>s. start_serving plain_lib example_material (pair_disk ''a'' ''a'' 1 1) (pair_disk ''a'' ''a'' 1 1) = Inr s \<and>
     map sc_chain (handshakes plain_lib example_material renewal s) = [[''a''], [''a''], [''b'']]"
proof -
  let ?d = "pair_disk ''a'' ''a'' 1 1"
  let ?s = "\<lparr> sv_current = \<lparr> sc_chain = [''a''], sc_key = ''a'', sc_alpn = [''http/1.1''] \<rparr>, sv_seen = Some (1, 1) \<rparr>"
  have start: "start_serving plain_lib example_material ?d ?d = Inr ?s"
    by (simp add: start_serving_def example_loads)
  have "stamps_tell plain_lib example_material (insert ?d (disks renewal))"
    by (simp add: stamps_tell_def renewal_def example_loads)
  from connections_get_the_latest_pair [OF start refl this] show ?thesis
    using start by (simp add: renewal_def latest_of_def example_loads)
qed

text \<open>A renewal that lands between the first read and the first stamps is not looked at again: it is served
  when the next one comes.\<close>

lemma renewal_before_the_stamps_is_missed:
  assumes "start_serving lib m old new = Inr s"
  shows "reload_tick lib m new new s = s \<and> load lib m old = Inr (sv_current s)"
  using assms by (auto simp: start_serving_def reload_tick_def Let_def res_simps)

text \<open>One that lands between the stamps and the read of a tick is read at the next.\<close>

lemma renewal_during_a_tick_is_served:
  assumes "load lib m new = Inr config" and "modified m old \<noteq> modified m new"
    and "modified m old \<noteq> None" "modified m old \<noteq> sv_seen s"
  shows "sv_current (reload_tick lib m new new (reload_tick lib m old new s)) = config"
  using assms load_present [OF assms(1)] by (auto simp: reload_tick_def Let_def)

section \<open>A webhook that mints its own pair\<close>

lemma wait_loadable_Some:
  "wait_loadable lib m ds = Some d \<Longrightarrow> d \<in> set ds \<and> loadable lib m d"
  by (induction ds) (auto split: if_splits)

lemma wait_loadable_None: "wait_loadable lib m ds = None \<longleftrightarrow> (\<forall>d \<in> set ds. \<not> loadable lib m d)"
  by (induction ds) auto

text \<open>C22: with \<open>selfRotate\<close> the process neither fails nor serves before a pair has landed: as long as no look
  finds one that loads it waits, unready unless plain HTTP was asked for; at the first that does it is ready
  and serves over TLS with what it found.\<close>

theorem self_rotation_waits_for_its_pair:
  fixes env :: "string \<Rightarrow> string option"
  defines "m \<equiv> material_from_environment env"
  assumes "settings_from_environment env \<noteq> None" and "bind_to (pp_address (process_plan_of env)) = Inr ()"
  shows "case serve_forever lib env (Inr ()) True bind_to d ds of
      None \<Rightarrow> (\<forall>look \<in> set ds. \<not> loadable lib m look \<and> (fst (readyz lib env look) = 200 \<longrightarrow> plaintext env))
    | Some r \<Rightarrow> r = Inr OverTls \<and>
        (\<exists>look \<in> set ds. wait_loadable lib m ds = Some look \<and> fst (readyz lib env look) = 200 \<and>
           (\<exists>s. start_serving lib m look look = Inr s))"
proof (cases "wait_loadable lib m ds")
  case None
  then show ?thesis
    using assms wait_loadable_None [of lib m ds]
    by (auto simp: serve_forever_def process_plan_of_def Let_def readyz_def)
next
  case (Some look)
  then have look: "look \<in> set ds" "loadable lib m look" using wait_loadable_Some by blast+
  then obtain c where "load lib m look = Inr c" by (auto simp: loadable_iff)
  then have "serving_mode env m look = Inr OverTls" "start_serving lib m look look \<noteq> Inl e" for e
    using load_present by (auto simp: serving_mode_def start_serving_def)
  then have "\<exists>s. start_serving lib m look look = Inr s" by (cases "start_serving lib m look look") auto
  with Some look \<open>serving_mode env m look = Inr OverTls\<close> show ?thesis
    using assms by (auto simp: serve_forever_def process_plan_of_def Let_def readyz_def)
qed

definition rotating_env :: "string \<Rightarrow> string option" where
  "rotating_env =
     [''DYNAMIC_CONFIG_WEBHOOK_SELF_ROTATE'' \<mapsto> ''1'', ''DYNAMIC_CONFIG_WEBHOOK_NAMESPACE'' \<mapsto> ''ns'',
      ''DYNAMIC_CONFIG_WEBHOOK_SERVICE'' \<mapsto> ''svc'', ''DYNAMIC_CONFIG_WEBHOOK_TLS_SECRET'' \<mapsto> ''tls'',
      ''DYNAMIC_CONFIG_WEBHOOK_MWC'' \<mapsto> ''mwc'', ''DYNAMIC_CONFIG_WEBHOOK_TLS_CERT'' \<mapsto> ''c'',
      ''DYNAMIC_CONFIG_WEBHOOK_TLS_KEY'' \<mapsto> ''k'']"

theorem self_rotation_waits_for_its_pair_witness:
  "serve_forever plain_lib rotating_env (Inr ()) True (\<lambda>_. Inr ()) Map.empty
     [pair_disk [] [] 1 1, pair_disk ''a'' ''a'' 2 2] = Some (Inr OverTls) \<and>
   serve_forever plain_lib rotating_env (Inr ()) True (\<lambda>_. Inr ()) Map.empty [pair_disk [] [] 1 1] = None"
proof -
  have m: "material_from_environment rotating_env = example_material"
    by (simp add: material_from_environment_def rotating_env_def example_material_def)
  have settings: "settings_from_environment rotating_env \<noteq> None"
    by (simp add: settings_from_environment_def rotating_env_def)
  have loads: "loadable plain_lib example_material (pair_disk ''a'' ''a'' 2 2)"
    "\<not> loadable plain_lib example_material (pair_disk [] [] 1 1)"
    by (simp_all add: loadable_def example_loads)
  note waits = self_rotation_waits_for_its_pair
    [OF settings, where bind_to = "\<lambda>_. Inr ()" and lib = plain_lib and d = Map.empty]
  have "serve_forever plain_lib rotating_env (Inr ()) True (\<lambda>_. Inr ()) Map.empty
     [pair_disk [] [] 1 1, pair_disk ''a'' ''a'' 2 2] = Some (Inr OverTls)"
    using waits [where ds = "[pair_disk [] [] 1 1, pair_disk ''a'' ''a'' 2 2]"] loads by (simp add: m split: option.splits)
  moreover have "serve_forever plain_lib rotating_env (Inr ()) True (\<lambda>_. Inr ()) Map.empty [pair_disk [] [] 1 1] = None"
    using waits [where ds = "[pair_disk [] [] 1 1]"] loads by (simp add: m split: option.splits)
  ultimately show ?thesis ..
qed

section \<open>Serving across a rotation\<close>

lemma handshakes_loaded:
  "c \<in> set (handshakes lib m es s) \<Longrightarrow> c = sv_current s \<or> (\<exists>d \<in> disks es. load lib m d = Inr c)"
proof (induction es arbitrary: s)
  case (Cons e es)
  show ?case
  proof (cases e)
    case (Tick d)
    have "sv_current (reload_tick lib m d d s) = sv_current s \<or> load lib m d = Inr (sv_current (reload_tick lib m d d s))"
      by (simp add: reload_tick_def Let_def split: sum.split)
    with Cons.IH [of "reload_tick lib m d d s"] Cons.prems Tick show ?thesis by auto
  qed (use Cons in auto)
qed simp

text \<open>C15: once a rotation has completed, whichever of the two pairs the kubelet has delivered to this replica at
  each look, and whatever fails to load in between: every connection it accepts is with a leaf that every
  caBundle trusts.\<close>

theorem connections_are_trusted_across_a_rotation:
  assumes "one_block (mi_ca m)" and "issued (trim (first_certificate (mi_ca m))) (mi_leaf m)"
    and "pk_secret s = Some old" and "ts_ca old = Some ca" and "one_block ca"
    and "issued (trim (first_certificate ca)) (ts_leaf old)"
    and "2 \<le> landed" and "start_serving lib mat d d = Inr server"
    and "\<forall>look \<in> insert d (disks es). \<forall>c. load lib mat look = Inr c \<longrightarrow>
           sc_chain c = [ts_leaf old] \<or> sc_chain c = [mi_leaf m]"
  shows "\<forall>c \<in> set (handshakes lib mat es server). \<forall>b \<in> set (pk_bundles (rotate life dated ended m landed s)).
    \<exists>leaf. sc_chain c = [leaf] \<and> trusts issued b leaf"
proof (intro ballI)
  fix c b
  assume c: "c \<in> set (handshakes lib mat es server)" and b: "b \<in> set (pk_bundles (rotate life dated ended m landed s))"
  have "load lib mat d = Inr (sv_current server)"
    using assms(8) by (auto simp: start_serving_def res_simps)
  then have "sc_chain c = [ts_leaf old] \<or> sc_chain c = [mi_leaf m]"
    using handshakes_loaded [OF c] assms(9) by blast
  moreover have "b = bundle_of m s" using rotated_bundles [OF assms(7) b] .
  ultimately show "\<exists>leaf. sc_chain c = [leaf] \<and> trusts issued b leaf"
    using bundle_of_both [OF assms(1,3-5)] assms(2,6) by (auto simp: trusts_def)
qed

definition rotated_pki :: pki where
  "rotated_pki = example_pki \<lparr> pk_secret := Some \<lparr> ts_leaf = ''a'', ts_key = ''a'',
     ts_ca = Some (example_ca CHR ''A''), ts_not_after = Some 9 \<rparr> \<rparr>"

theorem connections_are_trusted_across_a_rotation_witness:
  "\<exists>server. start_serving plain_lib example_material (pair_disk ''a'' ''a'' 1 1) (pair_disk ''a'' ''a'' 1 1) = Inr server \<and>
     map sc_chain (handshakes plain_lib example_material renewal server) = [[''a''], [''a''], [''b'']] \<and>
     (\<exists>b. pk_bundles (rotate 86400 0 0 \<lparr> mi_ca = example_ca CHR ''B'', mi_leaf = ''b'', mi_key = ''b'' \<rparr> 2 rotated_pki) = [b, b] \<and>
       trusts (\<lambda>ca leaf. (hd ca = CHR ''A'') = (leaf = ''a'')) b ''a'' \<and>
       trusts (\<lambda>ca leaf. (hd ca = CHR ''A'') = (leaf = ''a'')) b ''b'')"
proof -
  let ?d = "pair_disk ''a'' ''a'' 1 1" and ?issued = "\<lambda>ca leaf. (hd ca = CHR ''A'') = (leaf = ''a'')"
  let ?m = "\<lparr> mi_ca = example_ca CHR ''B'', mi_leaf = ''b'', mi_key = ''b'' \<rparr>"
  let ?s = "\<lparr> sv_current = \<lparr> sc_chain = [''a''], sc_key = ''a'', sc_alpn = [''http/1.1''] \<rparr>, sv_seen = Some (1, 1) \<rparr>"
  have start: "start_serving plain_lib example_material ?d ?d = Inr ?s"
    by (simp add: start_serving_def example_loads)
  have trimmed: "trim (CHR ''A'' # END_MARK) = CHR ''A'' # END_MARK" "trim (CHR ''B'' # END_MARK) = CHR ''B'' # END_MARK"
    by code_simp+
  have shown: "map sc_chain (handshakes plain_lib example_material renewal ?s) = [[''a''], [''a''], [''b'']]"
    by (simp add: renewal_def reload_tick_def Let_def example_loads)
  obtain b where b: "pk_bundles (rotate 86400 0 0 ?m 2 rotated_pki) = [b, b]"
    by (simp add: rotate_def write_bundles_def write_secret_def rotated_pki_def example_pki_def Let_def numeral_2_eq_2)
  have "\<forall>c \<in> set (handshakes plain_lib example_material renewal ?s).
      \<forall>b \<in> set (pk_bundles (rotate 86400 0 0 ?m 2 rotated_pki)). \<exists>leaf. sc_chain c = [leaf] \<and> trusts ?issued b leaf"
    by (rule connections_are_trusted_across_a_rotation [where old = "the (pk_secret rotated_pki)"
          and ca = "example_ca CHR ''A''" and m = ?m and d = ?d])
      (simp_all add: start_serving_def rotated_pki_def example_ca_block example_ca_first trimmed renewal_def example_loads)
  then have "\<forall>chain \<in> set (map sc_chain (handshakes plain_lib example_material renewal ?s)).
      \<exists>leaf. chain = [leaf] \<and> trusts ?issued b leaf"
    by (simp add: b)
  then have "trusts ?issued b ''a''" "trusts ?issued b ''b''" unfolding shown by simp_all
  with b start shown show ?thesis
    by (intro exI [of _ ?s] exI [of _ b] conjI)
qed

end
