(* ===== verification/Utf8.thy ===== *)
theory Utf8
  imports Prelude
begin

text \<open>
  Texts and their bytes: which byte sequences are UTF-8, and the words of a line. Of the standard library.
\<close>

definition between :: "nat \<Rightarrow> nat \<Rightarrow> 8 word \<Rightarrow> bool" where
  "between lo hi b \<longleftrightarrow> lo \<le> unat b \<and> unat b \<le> hi"

abbreviation continues :: "8 word \<Rightarrow> bool" where
  "continues \<equiv> between 0x80 0xBF"

text \<open>What the standard library's \<open>from_utf8\<close> takes: the well-formed sequences of the Unicode standard.\<close>

fun utf8 :: "8 word list \<Rightarrow> bool" where
  "utf8 [] = True"
| "utf8 [a] = between 0 0x7F a"
| "utf8 [a, b] = (if between 0 0x7F a then utf8 [b] else between 0xC2 0xDF a \<and> continues b)"
| "utf8 [a, b, c] =
     (if between 0 0x7F a then utf8 [b, c]
      else if between 0xC2 0xDF a then continues b \<and> utf8 [c]
      else (if between 0xE0 0xE0 a then between 0xA0 0xBF b
            else if between 0xED 0xED a then between 0x80 0x9F b
            else between 0xE1 0xEF a \<and> continues b) \<and> continues c)"
| "utf8 (a # b # c # d # r) =
     (if between 0 0x7F a then utf8 (b # c # d # r)
      else if between 0xC2 0xDF a then continues b \<and> utf8 (c # d # r)
      else if between 0xE0 0xEF a
      then (if between 0xE0 0xE0 a then between 0xA0 0xBF b
            else if between 0xED 0xED a then between 0x80 0x9F b else continues b) \<and> continues c \<and> utf8 (d # r)
      else (if between 0xF0 0xF0 a then between 0x90 0xBF b
            else if between 0xF4 0xF4 a then between 0x80 0x8F b
            else between 0xF1 0xF3 a \<and> continues b) \<and> continues c \<and> continues d \<and> utf8 r)"

definition bytes_of :: "string \<Rightarrow> 8 word list" where
  "bytes_of s = map of_char s"

definition text_of :: "8 word list \<Rightarrow> string option" where
  "text_of bs = (if utf8 bs then Some (map (\<lambda>b. char_of (unat b)) bs) else None)"

lemma byte_back: "char_of (unat (of_char c :: 8 word)) = c"
proof -
  have "(of_char c :: 8 word) = of_nat (of_char c)" by (simp add: of_nat_of_char)
  moreover have "of_char c < (256 :: nat)" by (rule nat_of_char_less_256)
  ultimately have "unat (of_char c :: 8 word) = of_char c" by (simp only: unat_of_nat) simp
  then show ?thesis by simp
qed

lemma bytes_back: "map (\<lambda>b. char_of (unat b)) (bytes_of s) = s"
  by (induction s) (simp_all add: bytes_of_def byte_back)

text \<open>\<open>split_whitespace\<close>.\<close>

fun words_from :: "string \<Rightarrow> string \<Rightarrow> string list" where
  "words_from w [] = (if w = [] then [] else [w])"
| "words_from w (c # cs) =
     (if is_space c then (if w = [] then words_from [] cs else w # words_from [] cs)
      else words_from (w @ [c]) cs)"

lemma words_from_word: "list_all (\<lambda>c. \<not> is_space c) v \<Longrightarrow> words_from w (v @ cs) = words_from (w @ v) cs"
  by (induction v arbitrary: w) simp_all

lemma first_words:
  assumes "list_all (\<lambda>c. \<not> is_space c) a" "a \<noteq> []" "list_all (\<lambda>c. \<not> is_space c) b" "b \<noteq> []" "is_space s"
  shows "words_from [] (a @ s # b @ s # cs) = a # b # words_from [] cs"
  using assms by (simp add: words_from_word)

end
