(* ===== verification/Filters.thy ===== *)
theory Filters
  imports Codec Json Utf8
begin

text \<open>
  The filters and the formatter a template is rendered with (\<open>render.rs\<close>: \<open>templated\<close> and
  \<open>register_filters\<close>). A value of the template engine is undefined or a document's value; the engine
  itself, its escaping and the JSON and YAML writers are parameters.
\<close>

datatype tvalue = Undefined | Defined json

record writers =
  wr_json :: "tvalue \<Rightarrow> string + string"
  wr_yaml :: "tvalue \<Rightarrow> string + string"
  wr_display :: "tvalue \<Rightarrow> string"
  wr_quoted :: "string \<Rightarrow> string + string"
  wr_escape :: "tvalue \<Rightarrow> string"

datatype filter_error = NotAString | UnknownFilter | Invalid string

section \<open>The filters\<close>

definition string_argument :: "tvalue \<Rightarrow> filter_error + string" where
  "string_argument v = (case v of Defined (JString s) \<Rightarrow> Inr s | _ \<Rightarrow> Inl NotAString)"

definition b64encode :: "string \<Rightarrow> string" where
  "b64encode s = agent_base64 (bytes_of s)"

definition b64decode :: "string \<Rightarrow> filter_error + string" where
  "b64decode s =
     rbind (ok_or (unbase64 s) (Invalid ''b64decode: not base64'')) (\<lambda>bytes.
     ok_or (text_of bytes) (Invalid ''b64decode: not UTF-8''))"

definition required :: "tvalue \<Rightarrow> string option \<Rightarrow> filter_error + tvalue" where
  "required v message =
     (if v = Defined JNull \<or> v = Undefined \<or> v = Defined (JString [])
      then Inl (Invalid (unwrap_or message ''required: the value is empty''))
      else Inr v)"

definition apply_filter :: "writers \<Rightarrow> string \<Rightarrow> tvalue \<Rightarrow> string option \<Rightarrow> filter_error + tvalue" where
  "apply_filter w name v argument =
     (let text = (\<lambda>s. Inr (Defined (JString s))) in
      if name = ''b64encode'' then rbind (string_argument v) (\<lambda>s. text (b64encode s))
      else if name = ''b64decode'' then rbind (string_argument v) (\<lambda>s. rbind (b64decode s) text)
      else if name = ''json'' then rbind (map_err (\<lambda>e. Invalid (''json: '' @ e)) (wr_json w v)) text
      else if name = ''yaml'' then rbind (map_err (\<lambda>e. Invalid (''yaml: '' @ e)) (wr_yaml w v)) text
      else if name = ''quote''
      then text (case wr_quoted w (wr_display w v) of Inr q \<Rightarrow> q | Inl _ \<Rightarrow> [CHR 0x22, CHR 0x22])
      else if name = ''required'' then required v argument
      else Inl UnknownFilter)"

text \<open>How a value is printed: booleans as every format spells them.\<close>

definition format_value :: "writers \<Rightarrow> tvalue \<Rightarrow> string" where
  "format_value w v =
     (case v of Defined (JBool b) \<Rightarrow> if b then ''true'' else ''false'' | _ \<Rightarrow> wr_escape w v)"

section \<open>Facts\<close>

text \<open>What \<open>b64encode\<close> wrote \<open>b64decode\<close> reads, whatever the text.\<close>

theorem filters_read_back:
  assumes "utf8 (bytes_of s)"
  shows "rbind (apply_filter w ''b64encode'' (Defined (JString s)) None) (\<lambda>v. apply_filter w ''b64decode'' v None)
    = Inr (Defined (JString s))"
  using assms
  by (simp add: apply_filter_def string_argument_def b64encode_def b64decode_def agent_codec.reads_back
      base64_reads_back text_of_def bytes_back Let_def)

theorem filters_read_back_witness:
  "b64decode (b64encode [CHR 0xC3, CHR 0xA9]) = Inr [CHR 0xC3, CHR 0xA9]"
proof -
  have "utf8 (bytes_of [CHR 0xC3, CHR 0xA9])" by code_simp
  from filters_read_back [OF this, of undefined] show ?thesis
    by (simp add: apply_filter_def string_argument_def Let_def res_simps split: sum.splits)
qed

text \<open>\<open>required\<close> stops a render exactly at a value that is missing, null or the empty text, and lets any other
  through as it is.\<close>

lemma required_refuses:
  "(\<exists>e. apply_filter w ''required'' v m = Inl e) \<longleftrightarrow> v \<in> {Undefined, Defined JNull, Defined (JString [])}"
  "apply_filter w ''required'' v m = Inr u \<Longrightarrow> u = v"
  by (auto simp: apply_filter_def required_def Let_def split: if_splits)

end
