(* ===== verification/Supervisor.thy ===== *)
theory Supervisor
  imports Served Utf8
begin

text \<open>
  The agent's process (\<open>main.rs\<close>): what is set before the loop starts, the loop started again with a new
  client when the store's trust material moved, and how the process ends. One life is one call of
  \<open>sidecar::run\<close>; the moments between its events, and what the store and the disk answer, come with the
  rules. The sentence a store's client cannot be built with is a parameter, as in \<open>Sources\<close>.
\<close>

section \<open>Before the loop\<close>

definition boot_metrics :: "Spec \<Rightarrow> metrics \<Rightarrow> metrics" where
  "boot_metrics spec m =
     (let m1 = (if sp_tls_skip_verify spec then m \<lparr> mt_tls_verification_skipped := 1 \<rparr> else m) in
      case sp_max_staleness spec of
        None \<Rightarrow> m1
      | Some most \<Rightarrow> set_max_staleness (of_nat most) m1)"

definition readiness :: "Spec \<Rightarrow> u64 \<Rightarrow> metrics \<Rightarrow> bool" where
  "readiness spec = (if sp_require_ack spec then rendered_and_applied else rendered_at_least_once)"

text \<open>What one call of \<open>run\<close> sets up for itself: the client it was given, a reporter when Events were asked
  for and one could be built, the cohort of this pod, and the trust material as it is now.\<close>

definition life_of :: "('p, 'x) loop_scheme \<Rightarrow> source \<Rightarrow> (string \<Rightarrow> string option) \<Rightarrow> bool \<Rightarrow> disk
    \<Rightarrow> ('p, 'x) loop_scheme" where
  "life_of lp client env reporter d =
     lp \<lparr> lp_source := client,
          lp_material := (if sp_tls_reload (ag_spec lp) then material_of (ag_sha lp) d (ag_spec lp) else None),
          lp_reporting := sp_events (ag_spec lp) \<and> reporter,
          lp_cohort := map_option (\<lambda>_. bucket (ag_sha lp) (unwrap_or (env ''DYNAMIC_CONFIG_POD_NAME'') ''unnamed''))
                         (sp_canary (ag_spec lp)),
          lp_hears := False \<rparr>"

section \<open>The process\<close>

text \<open>
  \<open>alive lp v m evs D old life s\<close>: a process that started over the volume \<open>v\<close> is in its life \<open>life\<close>, in the
  state \<open>s\<close>, after the events \<open>evs\<close> of all its lives, and was handed the documents \<open>D\<close>. A resync that was in
  flight when a life ended is not stopped with it: it answers in a later one, to a slot and a signal that nobody
  reads any more. \<open>old\<close> are the lives that left one behind.
\<close>

definition straggler :: "('p, 'x) loop_scheme \<Rightarrow> world \<Rightarrow> answer \<Rightarrow> 'p sidecar \<Rightarrow> 'p sidecar" where
  "straggler spawner w fetched s =
     (resync_task spawner w fetched s) \<lparr> sc_slot := sc_slot s, sc_gone := sc_gone s \<rparr>"

inductive alive :: "(call list \<Rightarrow> string option) \<Rightarrow> (string \<Rightarrow> string option) \<Rightarrow> ('p, 'x) loop_scheme \<Rightarrow> volume
    \<Rightarrow> metrics \<Rightarrow> event list \<Rightarrow> Fetched set \<Rightarrow> ('p, 'x) loop_scheme list \<Rightarrow> ('p, 'x) loop_scheme \<Rightarrow> 'p sidecar \<Rightarrow> bool"
  for refuses env lp v m where
  starts: "build refuses (ag_spec lp) = Inr client \<Longrightarrow> life = life_of lp client env reporter d \<Longrightarrow>
    begin_loop life w first v (boot_metrics (ag_spec lp) m) = (s, Inr ()) \<Longrightarrow>
    alive refuses env lp v m [] (answered first) [] life s"
| moves: "alive refuses env lp v m evs D old life s \<Longrightarrow> step life w c s ev t None \<Longrightarrow>
    alive refuses env lp v m (evs @ [ev]) (D \<union> event_documents ev) old life t"
| straggles: "alive refuses env lp v m evs D (xs @ spawner # ys) life s \<Longrightarrow>
    alive refuses env lp v m (evs @ [ResyncAnswers fetched]) D (xs @ ys) life (straggler spawner w fetched s)"
| rebuilds: "alive refuses env lp v m evs D old life s \<Longrightarrow> step life w c s ev t (Some Rebuild) \<Longrightarrow>
    build refuses (ag_spec lp) = Inr client \<Longrightarrow> life' = life_of lp client env reporter d \<Longrightarrow>
    begin_loop life' w' first (sg_volume t) (sg_metrics t) = (u, Inr ()) \<Longrightarrow>
    alive refuses env lp v m (evs @ [ev]) (D \<union> answered first)
      (if sc_resyncing t = Some True then old @ [life] else old) life' u"

text \<open>A process at any moment between two events: in a life, at the end of one, or where a life was refused.\<close>

inductive lived :: "(call list \<Rightarrow> string option) \<Rightarrow> (string \<Rightarrow> string option) \<Rightarrow> ('p, 'x) loop_scheme \<Rightarrow> volume
    \<Rightarrow> metrics \<Rightarrow> event list \<Rightarrow> Fetched set \<Rightarrow> 'p sidecar \<Rightarrow> bool"
  for refuses env lp v m where
  living: "alive refuses env lp v m evs D old life s \<Longrightarrow> lived refuses env lp v m evs D s"
| ended: "alive refuses env lp v m evs D old life s \<Longrightarrow> step life w c s ev t (Some e) \<Longrightarrow>
    lived refuses env lp v m (evs @ [ev]) (D \<union> event_documents ev) t"
| refused: "build refuses (ag_spec lp) = Inr client \<Longrightarrow>
    begin_loop (life_of lp client env reporter d) w first v (boot_metrics (ag_spec lp) m) = (s, Inl e) \<Longrightarrow>
    lived refuses env lp v m [] (answered first) s"
| refused_later: "alive refuses env lp v m evs D old life s \<Longrightarrow> step life w c s ev t (Some Rebuild) \<Longrightarrow>
    build refuses (ag_spec lp) = Inr client \<Longrightarrow>
    begin_loop (life_of lp client env reporter d) w' first (sg_volume t) (sg_metrics t) = (u, Inl e) \<Longrightarrow>
    lived refuses env lp v m (evs @ [ev]) (D \<union> answered first) u"

datatype exit_code = SUCCESS | FAILURE

text \<open>How it ends, with the state its last life was left in, if one was.\<close>

inductive exits :: "(call list \<Rightarrow> string option) \<Rightarrow> (string \<Rightarrow> string option) \<Rightarrow> ('p, 'x) loop_scheme \<Rightarrow> volume
    \<Rightarrow> metrics \<Rightarrow> exit_code \<Rightarrow> 'p sidecar option \<Rightarrow> bool" for refuses env lp v m where
  unbuilt: "build refuses (ag_spec lp) = Inl e \<Longrightarrow> exits refuses env lp v m FAILURE None"
| unstarted: "build refuses (ag_spec lp) = Inr client \<Longrightarrow>
    begin_loop (life_of lp client env reporter d) w first v (boot_metrics (ag_spec lp) m) = (s, Inl e) \<Longrightarrow>
    exits refuses env lp v m FAILURE (Some s)"
| stops: "alive refuses env lp v m evs D old life s \<Longrightarrow> step life w c s ev t (Some Stopped) \<Longrightarrow>
    exits refuses env lp v m SUCCESS (Some t)"
| dies: "alive refuses env lp v m evs D old life s \<Longrightarrow> step life w c s ev t (Some (Died e)) \<Longrightarrow>
    exits refuses env lp v m FAILURE (Some t)"
| not_rebuilt: "alive refuses env lp v m evs D old life s \<Longrightarrow> step life w c s ev t (Some Rebuild) \<Longrightarrow>
    build refuses (ag_spec lp) = Inl x \<Longrightarrow> exits refuses env lp v m FAILURE (Some t)"
| not_restarted: "alive refuses env lp v m evs D old life s \<Longrightarrow> step life w c s ev t (Some Rebuild) \<Longrightarrow>
    build refuses (ag_spec lp) = Inr client \<Longrightarrow>
    begin_loop (life_of lp client env reporter d) w' first (sg_volume t) (sg_metrics t) = (u, Inl e) \<Longrightarrow>
    exits refuses env lp v m FAILURE (Some u)"

inductive_cases successE: "exits refuses env lp v m SUCCESS s"

section \<open>Lives\<close>

lemma life_fields [simp]:
  "ag_spec (life_of lp client env reporter d) = ag_spec lp"
  "ag_engine (life_of lp client env reporter d) = ag_engine lp"
  "ag_sha (life_of lp client env reporter d) = ag_sha lp"
  "outputs_open (life_of lp client env reporter d) = outputs_open lp"
  by (simp_all add: life_of_def outputs_open_def)

lemma serving_cong:
  assumes "ag_spec lp = ag_spec lp'" and "ag_engine lp = ag_engine lp'"
  shows "serving lp v D s = serving lp' v D s"
  using assms by (simp add: serving_def files_ok_def set_ok_def [abs_def] allowed_def rendered_from_def)

lemma files_ok_cong:
  assumes "ag_spec lp = ag_spec lp'" and "ag_engine lp = ag_engine lp'"
  shows "files_ok lp v D u = files_ok lp' v D u"
  using assms by (simp add: files_ok_def allowed_def rendered_from_def)

text \<open>A life that is refused its start leaves the files as one that starts would.\<close>

lemma recovered_files:
  assumes "recovered w (ag_spec lp) e s = (t, r)" and "outputs_open lp"
  shows "files_ok lp (sg_volume s) D (sg_volume t)"
proof (cases "sp_startup_policy (ag_spec lp)")
  case BestEffort
  let ?spec = "ag_spec lp" and ?v = "sg_volume s"
  have outs: "open_path (sp_out ?spec)" "\<forall>r \<in> set (sp_also ?spec). open_path (rd_out r)"
    using assms(2) by (auto simp: outputs_open_def outputs_def)
  have first: "files_ok lp ?v D (fst (write_file w (sp_out ?spec) [] m ?v))" for m
    by (rule files_ok_empty [OF outs(1) files_ok_refl])
  have "files_ok lp ?v D u" if "touch_missing w (sp_also ?spec) x = (u, b)" "files_ok lp ?v D x" for x u b
    using touch_missing_ok [OF that(2) outs(2), of w] that(1) by simp
  then show ?thesis
    using assms(1) BestEffort first files_ok_refl [of lp ?v D]
    by (auto simp: recovered_def Let_def split: prod.splits if_splits) (metis fst_conv)+
qed (use assms(1) in \<open>auto simp: recovered_def files_ok_refl split: option.splits if_splits\<close>)

lemma begin_files:
  assumes "begin_loop lp w first v m = (s, r)" and "outputs_open lp"
  shows "files_ok lp v (answered first) (sg_volume s)"
proof (cases r)
  case (Inr x)
  then show ?thesis using serving_begin [OF _ assms(2)] assms(1) by (simp add: serving_def)
next
  case (Inl e)
  have fresh: "sg_volume (fresh_sidecar lp v m) = v" by (simp add: fresh_sidecar_def)
  show ?thesis
  proof (cases first)
    case (Got d)
    then have t: "first_document lp w d (fresh_sidecar lp v m) = (s, Inl e)"
      using assms(1) Inl by (auto simp: begin_loop_def Let_def split: prod.splits sum.splits)
    show ?thesis
    proof (cases "render_all (ag_engine lp) d (ag_spec lp)")
      case (Inl x)
      then show ?thesis using t fresh by (simp add: first_document_def files_ok_refl)
    next
      case (Inr ps)
      then have "publish (base lp) w ps (ft_revision d) (fresh_sidecar lp v m) = (s, False)"
        using t by (auto simp: first_document_def Let_def split: prod.splits bool.splits option.splits)
      from files_ok_publish [OF this rendered_set_ok [OF Inr] assms(2)] show ?thesis
        using Got by (simp add: fresh files_ok_refl)
    qed
  qed (use assms(1) Inl recovered_files [OF _ assms(2), of w _ "fresh_sidecar lp v m"] in
      \<open>auto simp: begin_loop_def Let_def fresh split: prod.splits sum.splits\<close>)
qed

text \<open>What a life may show over what the one before it may show.\<close>

lemma allowed_over:
  assumes "files_ok lp v0 D v" and "open_path p" and "allowed lp v E p x"
  shows "allowed lp v0 (D \<union> E) p x"
proof -
  have "allowed lp v0 D p x" if "read_file v p = Some x"
    using assms(1,2) that by (auto simp: files_ok_def allowed_def)
  then show ?thesis
    using assms(3) allowed_mono [of lp v0 D p x "D \<union> E"] rendered_from_mono [of lp E p x "D \<union> E"]
    by (auto simp: allowed_def)
qed

lemma files_over:
  assumes "files_ok lp v0 D v" and "files_ok lp v E u"
  shows "files_ok lp v0 (D \<union> E) u"
  unfolding files_ok_def
proof (intro allI impI)
  fix p
  assume p: "open_path p"
  have "read_file u p = read_file v p \<or> (\<exists>x. read_file u p = Some x \<and> allowed lp v E p x)"
    using assms(2) p by (simp add: files_ok_def)
  then show "read_file u p = read_file v0 p \<or> (\<exists>x. read_file u p = Some x \<and> allowed lp v0 (D \<union> E) p x)"
    using allowed_over [OF assms(1) p] assms(1) p allowed_mono [of lp v0 D p _ "D \<union> E"]
    unfolding files_ok_def by (metis Un_upper1)
qed

lemma serving_over:
  assumes "serving lp v E s" and "files_ok lp v0 D v" and "outputs_open lp"
  shows "serving lp v0 (D \<union> E) s"
proof -
  have sets: "set_ok lp v0 (D \<union> E) ps" if ps: "set_ok lp v E ps" for ps
    using set_ok_outs(1) [OF ps assms(3)] ps allowed_over [OF assms(2)] by (simp add: set_ok_def)
  have "files_ok lp v E (sg_volume s)" using assms(1) by (simp add: serving_def)
  then have "files_ok lp v0 (D \<union> E) (sg_volume s)" by (rule files_over [OF assms(2)])
  then show ?thesis
    using assms(1) sets by (auto simp: serving_def pred_option_def)
qed

lemma step_serves:
  assumes "step life w c s ev t e" and "serving lp v D s" and "outputs_open lp" and "\<not> by_another ev"
    and "event_documents ev \<subseteq> D" and same: "ag_spec life = ag_spec lp" "ag_engine life = ag_engine lp"
  shows "serving lp v D t"
proof -
  have "outputs_open life" using assms(3) same by (simp add: outputs_open_def)
  moreover have "serving life v D s" using assms(2) by (rule serving_cong [OF same, THEN iffD2])
  ultimately have "serving life v D t" by (intro serving_step [OF assms(1,4,5)])
  then show ?thesis by (rule serving_cong [OF same, THEN iffD1])
qed

lemma life_serves:
  assumes "begin_loop (life_of lp client env reporter d) w first v m = (s, Inr ())" and "outputs_open lp"
  shows "serving lp v (answered first) s"
  by (rule serving_cong [THEN iffD1, OF _ _ serving_begin [OF assms(1)]]) (simp_all add: assms(2))

lemma rebuild_brings_nothing: "step life w c s ev t (Some Rebuild) \<Longrightarrow> event_documents ev = {} \<and> \<not> by_another ev"
  by (cases rule: step.cases) (auto simp: drift_arm_def split: if_splits option.splits OnDrift.splits prod.splits)

lemma straggler_serves:
  assumes "serving lp v D s" and "outputs_open lp" and "ag_spec spawner = ag_spec lp"
  shows "serving lp v D (straggler spawner w fetched s)"
proof (cases fetched)
  case (Absent e)
  have "files_ok lp v D (empty_files w (outputs (ag_spec lp)) (sg_volume s))"
    using assms(1,2) by (intro files_ok_empty_files) (simp_all add: serving_def outputs_open_def)
  then show ?thesis
    using Absent assms(1,3) by (auto simp: straggler_def resync_task_def Let_def serving_def split: OnDelete.splits)
qed (use assms(1) in \<open>simp_all add: straggler_def resync_task_def serving_def\<close>)

text \<open>What holds of a process in a life: the invariant of the loop, and lives that share what they were asked.\<close>

lemma rebuilt_serving:
  assumes "step life w c s ev t (Some Rebuild)" and "serving lp v D s" and "outputs_open lp"
    and "ag_spec life = ag_spec lp" and "ag_engine life = ag_engine lp"
  shows "files_ok lp v D (sg_volume t)"
proof -
  have "serving lp v D t"
    by (rule step_serves [OF assms(1,2,3) _ _ assms(4,5)]) (simp_all add: rebuild_brings_nothing [OF assms(1)])
  then show ?thesis by (simp add: serving_def)
qed

lemma alive_serving:
  assumes "alive refuses env lp v m evs D old life s" and "outputs_open lp" and "\<forall>ev \<in> set evs. \<not> by_another ev"
  shows "serving lp v D s \<and> (\<forall>l \<in> set (life # old). ag_spec l = ag_spec lp \<and> ag_engine l = ag_engine lp)"
  using assms
proof (induction rule: alive.induct)
  case (starts client life reporter d w first s)
  then show ?case using life_serves by simp
next
  case (moves evs D old life s w c ev t)
  then have s: "serving lp v D s"
    and lives: "\<forall>l \<in> set (life # old). ag_spec l = ag_spec lp \<and> ag_engine l = ag_engine lp"
    and own: "\<not> by_another ev" by auto
  have "serving lp v (D \<union> event_documents ev) s" by (rule serving_mono [OF s Un_upper1])
  then have "serving lp v (D \<union> event_documents ev) t"
    by (rule step_serves [OF moves.hyps(2) _ moves.prems(1) own Un_upper2]) (use bspec [OF lives, of life] in simp_all)
  then show ?case using lives by (rule conjI)
next
  case (straggles evs D xs spawner ys life s fetched w)
  then have s: "serving lp v D s"
    and lives: "\<forall>l \<in> set (life # xs @ spawner # ys). ag_spec l = ag_spec lp \<and> ag_engine l = ag_engine lp" by simp_all
  have "serving lp v D (straggler spawner w fetched s)"
    by (rule straggler_serves [OF s straggles.prems(1)]) (use bspec [OF lives, of spawner] in simp)
  then show ?case using lives by simp
next
  case (rebuilds evs D old life s w c ev t client life' reporter d w' first u)
  have "\<forall>ev \<in> set evs. \<not> by_another ev" using rebuilds.prems(2) by simp
  note held = rebuilds.IH [OF rebuilds.prems(1) this]
  have s: "serving lp v D s" using held by (rule conjunct1)
  have lives: "\<forall>l \<in> set (life # old). ag_spec l = ag_spec lp \<and> ag_engine l = ag_engine lp"
    using held by (rule conjunct2)
  have "files_ok lp v D (sg_volume t)"
    by (intro rebuilt_serving [OF rebuilds.hyps(2) s rebuilds.prems(1)]) (use bspec [OF lives, of life] in simp_all)
  moreover have "serving lp (sg_volume t) (answered first) u"
    by (rule life_serves [OF rebuilds.hyps(5) [unfolded rebuilds.hyps(4)] rebuilds.prems(1)])
  ultimately have "serving lp v (D \<union> answered first) u" using serving_over rebuilds.prems(1) by blast
  then show ?case using lives rebuilds.hyps(4) by simp
qed

lemma alive_parts:
  assumes "alive refuses env lp v m evs D old life s" and "outputs_open lp" and "\<forall>ev \<in> set evs. \<not> by_another ev"
  shows "serving lp v D s" and "ag_spec life = ag_spec lp" and "ag_engine life = ag_engine lp"
  using alive_serving [OF assms] by simp_all

lemma lived_files:
  assumes "lived refuses env lp v m evs D s" and "outputs_open lp" and "\<forall>ev \<in> set evs. \<not> by_another ev"
  shows "files_ok lp v D (sg_volume s)"
  using assms(1)
proof (cases rule: lived.cases)
  case (living old life)
  then show ?thesis using alive_parts(1) [OF _ assms(2,3)] by (simp add: serving_def)
next
  case (ended evs' D' old life s' w c ev e)
  then have others: "\<forall>ev \<in> set evs'. \<not> by_another ev" and own: "\<not> by_another ev" using assms(3) by simp_all
  note parts = alive_parts [OF ended(3) assms(2) others]
  have "serving lp v (D' \<union> event_documents ev) s'" by (rule serving_mono [OF parts(1) Un_upper1])
  then have "serving lp v (D' \<union> event_documents ev) s"
    by (rule step_serves [OF ended(4) _ assms(2) own Un_upper2 parts(2,3)])
  then show ?thesis unfolding ended(2) by (simp add: serving_def)
next
  case (refused client reporter d w first e)
  have "files_ok (life_of lp client env reporter d) v D (sg_volume s)"
    using begin_files [OF refused(4)] refused(2) assms(2) by simp
  then show ?thesis by (rule files_ok_cong [THEN iffD1, rotated 2]) simp_all
next
  case (refused_later evs' D' old life s' w c ev t client reporter d w' first e)
  then have others: "\<forall>ev \<in> set evs'. \<not> by_another ev" using assms(3) by simp
  note parts = alive_parts [OF refused_later(3) assms(2) others]
  have "files_ok lp v D' (sg_volume t)" by (rule rebuilt_serving [OF refused_later(4) parts(1) assms(2) parts(2,3)])
  moreover have "files_ok (life_of lp client env reporter d) (sg_volume t) (answered first) (sg_volume s)"
    using begin_files [OF refused_later(6)] assms(2) by simp
  then have "files_ok lp (sg_volume t) (answered first) (sg_volume s)" by (rule files_ok_cong [THEN iffD1, rotated 2]) simp_all
  ultimately show ?thesis unfolding refused_later(2) by (rule files_over)
qed

text \<open>
  Who writes an application's files beside the loop: somebody else, and the task of a resync that finds the
  document deleted under \<open>--on-delete remove\<close>. The task runs on a thread of its own, with the scratch files the
  loop writes through, and an emptying that overlaps a publication tears the file.
\<close>

fun writes_beside :: "OnDelete \<Rightarrow> event \<Rightarrow> bool" where
  "writes_beside policy (Elsewhere op) = True"
| "writes_beside policy (ResyncAnswers (Absent e)) = (policy = Remove)"
| "writes_beside policy ev = False"

lemma writes_beside_another: "by_another ev \<Longrightarrow> writes_beside policy ev"
  by (cases ev) simp_all

lemma overlapping_emptying_tears:
  assumes "visible p" and "write_atomically p c m = Some ops" and "write_atomically p [] None = Some empties"
  shows "\<exists>scratch u. hd ops = WriteFile scratch c \<and> empties = [WriteFile scratch [], RenameFile scratch p] \<and>
    fs_apply_all [WriteFile scratch [], WriteFile scratch (take n c), RenameFile scratch p] v = Some u \<and>
    read_file u p = Some (take n c)"
proof -
  obtain scratch where scratch: "scratch_path p = Some scratch" "\<not> visible scratch"
    using assms(1) by (rule visible_scratch)
  then have "scratch \<noteq> p" using assms(1) by blast
  then show ?thesis
    using assms(2,3) scratch(1) by (intro exI [of _ scratch]) (auto simp: write_atomically_def read_file_def map_of_written)
qed

text \<open>C1: over all the lives of a process, in every order of deliveries, resyncs, renewals, checks, restarts of the
  watch and answers that come a life too late, however often the client is built anew, whether the last life runs, has
  ended or was refused its start: as long as no writer but the loop touches them, somebody else or the emptying
  of a document found deleted under \<open>--on-delete remove\<close>, an application's files hold what they held
  before the process started, or nothing, or the whole render, for that very file, of a document the store
  handed out.\<close>

theorem files_are_renders_across_rebuilds:
  assumes "outputs_open lp" and "lived refuses env lp v m evs D s"
    and "\<forall>ev \<in> set evs. \<not> writes_beside (sp_on_delete (ag_spec lp)) ev" and "open_path p"
    and "read_file (sg_volume s) p = Some x" and "read_file v p \<noteq> Some x" and "x \<noteq> []"
  shows "\<exists>d \<in> D. \<exists>ps. render_all (ag_engine lp) d (ag_spec lp) = Inr ps \<and>
    (\<exists>q \<in> set ps. pb_out q = p \<and> pb_document q = x)"
proof -
  have "files_ok lp v D (sg_volume s)"
    using lived_files [OF assms(2,1)] assms(3) writes_beside_another by blast
  then have "read_file (sg_volume s) p = read_file v p \<or>
      (\<exists>y. read_file (sg_volume s) p = Some y \<and> allowed lp v D p y)"
    using assms(4) by (simp add: files_ok_def)
  then show ?thesis using assms(5-7) by (auto simp: allowed_def rendered_from_def)
qed

lemma life_base [simp]: "base (life_of lp client env reporter d) = base lp"
  by (simp add: base_def life_of_def agent.defs)

lemma quiet_builds: "\<exists>client. build (\<lambda>_. None) quiet_spec = Inr client"
  by (simp add: quiet_spec_def settings.defs Spec.defs initial_draft_def build_def
      consul_calls_def timed_def secured_def optional_def wants_tls_def tls_config_def res_simps Let_def)

theorem files_are_renders_across_rebuilds_witness:
  "\<exists>s D. lived (\<lambda>_. None) (\<lambda>_. None) quiet_loop [] no_metrics [] D s \<and>
     (\<exists>d \<in> D. \<exists>ps. render_all quiet_engine d quiet_spec = Inr ps \<and>
       (\<exists>q \<in> set ps. pb_out q = ''/c/a.json'' \<and> pb_document q = ''{}'' @ newline))"
proof -
  obtain client where client: "build (\<lambda>_. None) (ag_spec quiet_loop) = Inr client" using quiet_builds by auto
  let ?life = "life_of quiet_loop client (\<lambda>_. None) False (\<lambda>_. None)"
  have "base ?life = quiet_agent" by (simp add: quiet_base)
  then obtain s where s: "begin_loop ?life calm (Got quiet_fetched) [] (boot_metrics (ag_spec quiet_loop) no_metrics) = (s, Inr ())"
    "read_file (sg_volume s) ''/c/a.json'' = Some (''{}'' @ newline)"
    using quiet_agent_begins [of ?life "boot_metrics (ag_spec quiet_loop) no_metrics"] by metis
  have alive: "lived (\<lambda>_. None) (\<lambda>_. None) quiet_loop [] no_metrics [] (answered (Got quiet_fetched)) s"
    by (rule living, rule starts [OF client refl s(1)])
  have "\<exists>d \<in> answered (Got quiet_fetched). \<exists>ps. render_all (ag_engine quiet_loop) d (ag_spec quiet_loop) = Inr ps \<and>
      (\<exists>q \<in> set ps. pb_out q = ''/c/a.json'' \<and> pb_document q = ''{}'' @ newline)"
    by (rule files_are_renders_across_rebuilds [OF quiet_outputs_open alive])
      (use s(2) open_example in \<open>simp_all add: read_file_def\<close>)
  then show ?thesis using alive by (intro exI conjI) auto
qed

section \<open>How a process ends\<close>

text \<open>A process succeeds only when it was asked to stop, and its last act is the hand-back of what it held.\<close>

lemma success_is_a_stop:
  assumes "exits refuses env lp v m SUCCESS u"
  shows "\<exists>evs D old life s reply. alive refuses env lp v m evs D old life s \<and> u = Some (stop_arm life reply s)"
proof -
  obtain evs D old life s w c ev t where t: "u = Some t" "alive refuses env lp v m evs D old life s"
    "step life w c s ev t (Some Stopped)"
    using assms by (rule successE)
  from t(3) have "\<exists>reply. t = stop_arm life reply s"
    by (cases rule: step.cases) (auto simp: trust_arm_def drift_arm_def Let_def
        split: if_splits option.splits OnDrift.splits prod.splits bool.splits)
  with t show ?thesis by blast
qed

text \<open>A rebuild keeps the counters and the volume, and leaves behind the lease and what the canary held
  back: nothing is handed back, and the first document of the next life is published whatever the cohort.\<close>

lemma rebuild_abandons_the_lease:
  assumes "step life w c s (TrustTick d1 d2 d3) t (Some Rebuild)"
  shows "sc_revoked t = sc_revoked s \<and> sc_lease t = sc_lease s"
  using assms
proof (cases rule: step.cases)
  case trusts
  then show ?thesis by (auto simp: trust_arm_def split: if_splits)
qed

lemma next_life_forgets_the_lease:
  assumes "begin_loop life w (Got d) v m = (u, Inr ())"
  shows "sc_lease u = ft_lease d \<and> sc_revoked u = [] \<and> sc_withheld u = None"
  using assms publish_keeps
  by (fastforce simp: begin_loop_def first_document_def fresh_sidecar_def Let_def
      split: sum.splits prod.splits bool.splits option.splits)

section \<open>Readiness\<close>

text \<open>With \<open>--require-ack\<close> a ready pod is one whose application runs the document in its files; and before the
  ceiling is set no probe is answered, so a configured one holds from the first.\<close>

lemma readiness_needs_the_acknowledgement:
  "sp_require_ack spec \<Longrightarrow> readiness spec now m \<Longrightarrow> applied m"
  by (simp add: readiness_def rendered_and_applied_def)

lemma boot_sets_the_ceiling:
  "sp_max_staleness spec = Some most \<Longrightarrow> mt_max_staleness (boot_metrics spec m) = of_nat most"
  by (simp add: boot_metrics_def set_max_staleness_def Let_def)

section \<open>What a log may show of the configuration\<close>

text \<open>The fields \<open>{:?}\<close> prints, as values whose display is the standard library's.\<close>

datatype shown = Text string | Optional "string option" | Interval "nat option"

definition spec_debug :: "Spec \<Rightarrow> (string \<times> shown) list" where
  "spec_debug s =
     [(''source'', Text (sp_source s)), (''endpoint'', Text (sp_endpoint s)), (''key'', Text (sp_key s)),
      (''out'', Text (sp_out s)), (''watch'', Interval (sp_watch s)), (''auth'', Optional (sp_auth s)),
      (''token'', Optional (map_option (\<lambda>_. ''***'') (sp_token s))),
      (''password'', Optional (map_option (\<lambda>_. ''***'') (sp_password s)))]"

text \<open>It is the same whatever the secrets are.\<close>

lemma debug_discloses_no_secret:
  "spec_debug (s \<lparr> sp_token := Some t, sp_password := Some p \<rparr>) =
   spec_debug (s \<lparr> sp_token := Some t', sp_password := Some p' \<rparr>)"
  by (simp add: spec_debug_def)

section \<open>Telling the application\<close>

text \<open>\<open>Endpoint::call\<close>: how far the exchange came, or nothing within the deadline of two seconds.\<close>

datatype exchange = Connecting string | Writing string | Reading string | Responded string

definition status_of :: "string \<Rightarrow> nat option" where
  "status_of response =
     (let line = takeWhile (\<lambda>c. c \<noteq> CHR 0x0A) response in
      if \<not> utf8 (bytes_of line) then None
      else (case words_from [] line of _ # code # _ \<Rightarrow> parse_uint 10 16 code | _ \<Rightarrow> None))"

definition notify_call :: "exchange option \<Rightarrow> string + nat" where
  "notify_call ex =
     (case ex of
        None \<Rightarrow> Inl ''no answer within 2s''
      | Some (Connecting e) \<Rightarrow> Inl (''connecting: '' @ e)
      | Some (Writing e) \<Rightarrow> Inl (''writing: '' @ e)
      | Some (Reading e) \<Rightarrow> Inl (''reading: '' @ e)
      | Some (Responded t) \<Rightarrow> ok_or (status_of (take 8192 t)) ''the answer was not an HTTP status line'')"

definition told :: "exchange option \<Rightarrow> 'a stage_scheme \<Rightarrow> 'a stage_scheme" where
  "told ex s = call_answered (case notify_call ex of Inl _ \<Rightarrow> None | Inr n \<Rightarrow> Some n) s"

text \<open>A status line is read as it was written, and one notification moves one of the two counters by one.\<close>

lemma status_line_is_read:
  assumes "list_all (\<lambda>c. \<not> is_space c) v" "v \<noteq> []" "list_all (\<lambda>c. \<not> is_space c) code" "code \<noteq> []"
    and "CHR 0x0A \<notin> set phrase" and "utf8 (bytes_of (v @ '' '' @ code @ '' '' @ phrase))"
  shows "status_of (v @ '' '' @ code @ '' '' @ phrase @ CHR 0x0A # rest) = parse_uint 10 16 code"
proof -
  have clean: "\<forall>c \<in> set w. c \<noteq> CHR 0x0A" if "list_all (\<lambda>c. \<not> is_space c) w" for w
    using that by (auto simp: list_all_iff is_space_def)
  have line: "takeWhile (\<lambda>c. c \<noteq> CHR 0x0A) ((v @ '' '' @ code @ '' '' @ phrase) @ CHR 0x0A # rest)
      = v @ '' '' @ code @ '' '' @ phrase"
    using clean [OF assms(1)] clean [OF assms(3)] assms(5)
    by (subst takeWhile_append2) auto
  have "words_from [] (v @ '' '' @ code @ '' '' @ phrase) = v # code # words_from [] phrase"
    using first_words [OF assms(1-4), of "CHR '' ''" phrase] by (simp add: is_space_def)
  then show ?thesis using line assms(6) by (simp add: status_of_def Let_def)
qed

lemma told_moves_one_counter:
  "sg_metrics (told ex s) \<in> {notified (sg_metrics s), notification_failed (sg_metrics s)}"
  "notify_call ex = Inl e \<Longrightarrow> sg_metrics (told ex s) = notification_failed (sg_metrics s)"
  "sg_volume (told ex s) = sg_volume s"
  by (simp_all add: told_def call_answered_def split: sum.split option.split)

end
