(* ===== verification/Processes.thy ===== *)
theory Processes
  imports NodeAgent Election
begin

text \<open>
  How the node plugin and the operator start (their \<open>main.rs\<close>), what the plugin answers beside publishing
  (\<open>csi.rs\<close>, \<open>lib.rs\<close>), and the telemetry every process installs first. The gRPC and HTTP servers, the
  socket's listener and the exporters are other crates: what they return is an argument.
\<close>

section \<open>The plugin's other answers\<close>

definition DRIVER :: string where "DRIVER = ''config.dynamic-config.rs''"

record plugin_info =
  pi_name :: string
  pi_version :: string

definition get_plugin_info :: "string \<Rightarrow> plugin_info" where
  "get_plugin_info version = \<lparr> pi_name = DRIVER, pi_version = version \<rparr>"

text \<open>No controller, no staging, no statistics, no expansion; and no word on readiness, which means ready.\<close>

definition plugin_capabilities :: "string list" where "plugin_capabilities = []"
definition probe_ready :: "bool option" where "probe_ready = None"
definition node_capabilities :: "string list" where "node_capabilities = []"

record node_info =
  ni_node :: string
  ni_max_volumes :: int
  ni_topology :: "(string \<times> string) list option"

definition node_get_info :: "string \<Rightarrow> node_info" where
  "node_get_info name = \<lparr> ni_node = name, ni_max_volumes = 0, ni_topology = None \<rparr>"

datatype unimplemented = StageVolume | UnstageVolume | VolumeStats | ExpandVolume

definition unimplemented_answer :: "unimplemented \<Rightarrow> string" where
  "unimplemented_answer call =
     (case call of
        StageVolume \<Rightarrow> ''this driver stages nothing''
      | UnstageVolume \<Rightarrow> ''this driver stages nothing''
      | VolumeStats \<Rightarrow> ''a document has no capacity to report''
      | ExpandVolume \<Rightarrow> ''a document has no size to expand'')"

definition new_node :: "volume \<Rightarrow> node" where
  "new_node v = \<lparr> nd_published = {}, nd_registry = [], nd_volume = v, nd_stopped = [] \<rparr>"

section \<open>The node's metrics\<close>

definition crlf :: string where "crlf = [CHR 0x0D, CHR 0x0A]"

definition node_gauge :: "string \<Rightarrow> nat \<Rightarrow> string" where
  "node_gauge name n =
     ''# TYPE dynamic_config_node_agent_'' @ name @ '' gauge'' @ [CHR 0x0A] @
     ''dynamic_config_node_agent_'' @ name @ '' '' @ show_nat n @ [CHR 0x0A]"

definition node_metrics_body :: "registry \<Rightarrow> string" where
  "node_metrics_body reg =
     (case counts reg of (held, reading) \<Rightarrow> node_gauge ''documents'' held @ node_gauge ''readers'' reading)"

definition node_metrics_answer :: "registry \<Rightarrow> string" where
  "node_metrics_answer reg =
     (let body = node_metrics_body reg in
      ''HTTP/1.1 200 OK'' @ crlf @ ''content-type: text/plain; version=0.0.4'' @ crlf @
      ''content-length: '' @ show_nat (length body) @ crlf @ ''connection: close'' @ crlf @ crlf @ body)"

section \<open>The plugin's process\<close>

definition SOCKET :: string where "SOCKET = ''/csi/csi.sock''"

record node_process =
  np_node :: string
  np_metrics :: "string option"
  np_plugin :: node

text \<open>The steps before the server: the socket of a container before this one is removed, the directory made,
  the listener bound; each may fail. \<open>paths\<close> are those that exist.\<close>

record socket_calls =
  so_remove :: "string \<Rightarrow> string + unit"
  so_directory :: "string \<Rightarrow> string + unit"
  so_bind :: "string \<Rightarrow> string set \<Rightarrow> string + unit"

definition node_main :: "(string \<Rightarrow> string option) \<Rightarrow> socket_calls \<Rightarrow> string set \<Rightarrow> volume \<Rightarrow> string + node_process" where
  "node_main env calls paths v =
     rbind (ok_or (env ''KUBE_NODE_NAME'')
       ''KUBE_NODE_NAME is not set; the DaemonSet sets it from spec.nodeName'') (\<lambda>name.
     rbind (if SOCKET \<in> paths then so_remove calls SOCKET else Inr ()) (\<lambda>_.
     rbind (so_directory calls ''/csi'') (\<lambda>_.
     rbind (so_bind calls SOCKET (paths - {SOCKET})) (\<lambda>_.
     Inr \<lparr> np_node = name, np_metrics = env ''DYNAMIC_CONFIG_METRICS_ADDR'', np_plugin = new_node v \<rparr>))))"

section \<open>The operator's process\<close>

datatype operator_start = PrintsManifests string | Reconciles "string option" operator_lead
  and operator_lead = Unelected | Contends string string

definition operator_metrics :: "(string \<Rightarrow> string option) \<Rightarrow> string option" where
  "operator_metrics env =
     (let address = unwrap_or (env ''DYNAMIC_CONFIG_OPERATOR_METRICS_ADDR'') ''0.0.0.0:9090'' in
      if address = [] then None else Some address)"

text \<open>\<open>manifests\<close> and \<open>client\<close>: what printing the CRDs and connecting to the cluster give.\<close>

definition operator_main :: "string list \<Rightarrow> (string \<Rightarrow> string option) \<Rightarrow> string + string \<Rightarrow> bool \<Rightarrow> string + unit
    \<Rightarrow> string + operator_start" where
  "operator_main arguments env manifests first_provider client =
     (if 1 < length arguments \<and> arguments ! 1 = ''--crds'' then rbind manifests (\<lambda>m. Inr (PrintsManifests m))
      else
        rbind (ensure first_provider ''a rustls CryptoProvider was already installed'') (\<lambda>_.
        rbind client (\<lambda>_.
        Inr (Reconciles (operator_metrics env)
          (case (env ''POD_NAMESPACE'', env ''POD_NAME'') of
             (Some namespace, Some name) \<Rightarrow> Contends namespace name
           | _ \<Rightarrow> Unelected)))))"

text \<open>
  Acquiring the lease: another replica leading means asking again, an error ends the process. \<open>None\<close>: these
  answers do not settle it; otherwise whether it leads.
\<close>

fun acquires :: "answer list \<Rightarrow> bool option" where
  "acquires [] = None"
| "acquires (Leads True # rest) = Some True"
| "acquires (Leads False # rest) = acquires rest"
| "acquires (ApiError # rest) = Some False"

text \<open>What is reconciling while it leads: until the lease is lost, which ends the process. \<open>own_end\<close> is when the
  reconciler ended of itself and how, \<open>renewals\<close> what the lease's renewals were answered.\<close>

definition leads_until :: "(int \<times> (string + unit)) option \<Rightarrow> (answer \<times> int) list \<Rightarrow> int
    \<Rightarrow> (int \<times> (string + unit)) option" where
  "leads_until own_end renewals since =
     (case (own_end, stands_down renewals since since) of
        (None, None) \<Rightarrow> None
      | (Some e, None) \<Rightarrow> Some e
      | (None, Some at) \<Rightarrow> Some (at, Inl ''the leader lease was lost'')
      | (Some (t, r), Some at) \<Rightarrow> if t \<le> at then Some (t, r) else Some (at, Inl ''the leader lease was lost''))"

section \<open>Telemetry\<close>

record telemetry =
  te_filter :: string
  te_exports :: bool

text \<open>\<open>directives\<close>: the filter of the environment, when it parses; \<open>exporter\<close>: whether the pipeline could be built.\<close>

definition telemetry_install :: "(string \<Rightarrow> string option) \<Rightarrow> string option \<Rightarrow> string + unit \<Rightarrow> telemetry" where
  "telemetry_install env directives exporter =
     \<lparr> te_filter = unwrap_or directives ''info'',
       te_exports = (env ''OTEL_EXPORTER_OTLP_ENDPOINT'' \<noteq> None \<and> (case exporter of Inr _ \<Rightarrow> True | Inl _ \<Rightarrow> False)) \<rparr>"

definition resource_attributes :: "string \<Rightarrow> string \<Rightarrow> (string \<Rightarrow> string option) \<Rightarrow> (string \<times> string) list" where
  "resource_attributes service version env =
     [(''service.name'', service), (''service.version'', version)] @
     List.map_filter (\<lambda>(variable, attribute). map_option (Pair attribute) (env variable))
       [(''POD_NAME'', ''k8s.pod.name''), (''POD_NAMESPACE'', ''k8s.namespace.name''), (''NODE_NAME'', ''k8s.node.name'')]"

section \<open>Facts\<close>

text \<open>A socket that was left behind does not keep a new container from starting: where removing it, making
  the directory and binding a free path succeed, so does the process.\<close>

lemma left_behind_socket_is_replaced:
  assumes "env ''KUBE_NODE_NAME'' = Some name" and "so_remove calls SOCKET = Inr ()"
    and "so_directory calls ''/csi'' = Inr ()" and "\<And>paths. SOCKET \<notin> paths \<Longrightarrow> so_bind calls SOCKET paths = Inr ()"
  shows "\<exists>p. node_main env calls paths v = Inr p \<and> np_node p = name \<and> registry_ok (nd_registry (np_plugin p))"
  using assms by (simp add: node_main_def new_node_def registry_ok_def)

text \<open>An operator that leads ends no later than it stands down, and then with an error, so that its pod
  restarts and contends again.\<close>

lemma lost_lease_ends_the_process:
  assumes "stands_down renewals since since = Some at"
  shows "\<exists>t r. leads_until own_end renewals since = Some (t, r) \<and> t \<le> at \<and>
    (own_end = None \<longrightarrow> t = at \<and> r = Inl ''the leader lease was lost'')"
  using assms by (auto simp: leads_until_def split: option.split)

lemma without_a_pod_there_is_no_election:
  "env ''POD_NAME'' = None \<Longrightarrow>
     operator_main [program] env manifests True (Inr ()) = Inr (Reconciles (operator_metrics env) Unelected)"
  by (simp add: operator_main_def split: option.split)

text \<open>No process needs a collector: it starts with its logs, whatever becomes of the exporter.\<close>

lemma nothing_is_exported_unless_asked:
  "env ''OTEL_EXPORTER_OTLP_ENDPOINT'' = None \<Longrightarrow> \<not> te_exports (telemetry_install env directives exporter)"
  by (simp add: telemetry_install_def)

lemma present_attributes:
  "(a, v) \<in> set (List.map_filter (\<lambda>(variable, attribute). map_option (Pair attribute) (env variable)) xs) \<Longrightarrow>
     \<exists>x. env x = Some v"
  by (induction xs) (auto simp: map_filter_simps split: option.splits)

lemma attributes_are_never_made_up:
  assumes "(a, v) \<in> set (resource_attributes service version env)"
  shows "(a, v) \<in> {(''service.name'', service), (''service.version'', version)} \<or> (\<exists>x. env x = Some v)"
proof -
  from assms consider "(a, v) \<in> set [(''service.name'', service), (''service.version'', version)]"
    | "\<exists>x. env x = Some v"
    unfolding resource_attributes_def set_append Un_iff by (blast dest: present_attributes)
  then show ?thesis by (cases; simp only: list.set; blast)
qed

end
