(* ===== verification/Spec2Isabelle.thy ===== *)
theory Spec2Isabelle
  imports Codec InstallationFile Accepted Injected Admission Handshake Asked
    History Render Metrics Canary Trust Publish Sources Sidecar Served Loop Shared NodeAgent
    Operator Election Rotation Events Webhook Serving Filters Supervisor Processes
begin

text \<open>
  A verification development for dynamic-config-k8s: the programs that put a rendered configuration
  document in front of Kubernetes workloads.

  \<^bold>\<open>The program.\<close> Five programs share one job. The \<^emph>\<open>webhook\<close> reads the annotations of a pod that is
  being created and answers with a JSON patch that injects the agent, or with a refusal. The injected
  \<^emph>\<open>agent\<close> fetches the document from a store, renders it and keeps the files of the pod's volume up to
  date. The \<^emph>\<open>node plugin\<close> does the same for many volumes of one node, with one watch for each document.
  The \<^emph>\<open>operator\<close> renders documents into ConfigMaps and Secrets. Each logs and traces through a small
  \<^emph>\<open>telemetry\<close> library. They meet at a few places, and those are stated across theories: the command line
  the webhook writes is one the agent reads, and reads as it was asked (\<open>Handshake\<close>, \<open>Asked\<close>), a patched pod is not patched again
  (\<open>Injected\<close>), the plugin and the operator render with the agent's own functions, and the pair the webhook
  serves with is the one its rotation writes (\<open>Serving\<close>).

  \<^bold>\<open>The theories, and the code they translate.\<close> Every definition carries the name of what it models where
  HOL allows it.

  \<^item> \<open>Prelude\<close>, \<open>Json\<close>, \<open>Paths\<close>, \<open>Utf8\<close>, \<open>Kubelet\<close>: what is shared. Fallible results (\<open>rbind\<close> is \<open>?\<close>), the
    parts of Rust's strings, numbers and paths the sources call, sorted association lists for \<open>BTreeMap\<close>,
    \<open>serde_json\<close> values, and the files the kubelet mounts. Strings are byte strings.
  \<^item> \<open>Contract\<close>, \<open>Knobs\<close>, \<open>Request\<close>, \<open>Annotations\<close> (webhook \<open>annotations.rs\<close>): the registry of annotations,
    the installation's defaults and pins, and every parser and cross-field rule from \<open>of_pod_with\<close> down.
    \<open>Rules\<close> and \<open>Pins\<close> state what the contract promises of one agent's line and what a pin leaves of it, without
    the code's order of checks; \<open>Accepted\<close> joins them for a whole request. \<open>InstallationFile\<close> is \<open>installation_file.rs\<close>, \<open>Classes\<close> is \<open>classes.rs\<close>.
  \<^item> \<open>Codec\<close>, \<open>Patch\<close>, \<open>Injected\<close>, \<open>Admission\<close> (webhook \<open>patch.rs\<close>): base64, the operations of a patch,
    what they leave of a pod, and the admission handler with its gates.
  \<^item> \<open>Webhook\<close>, \<open>Serving\<close> (webhook \<open>main.rs\<close>, \<open>tls.rs\<close>, and the poll of \<open>classes.rs\<close>): the counters, the audit
    line, the scrape, \<open>validate\<close>; the certificate on disk and its reload, the accept loop, readiness, start.
  \<^item> \<open>Election\<close>, \<open>Rotation\<close> (operator \<open>election.rs\<close>, webhook \<open>selfrotate.rs\<close>): the two elections over a
    Lease, and the certificates the webhook mints for itself.
  \<^item> \<open>Notify\<close>, \<open>AgentSpec\<close>, \<open>Setters\<close> (agent \<open>notify.rs\<close>, \<open>spec.rs\<close>): the agent's command line and what each
    flag sets; \<open>Handshake\<close>, \<open>Asked\<close>: the line the webhook writes and the settings the agent takes from it.
  \<^item> \<open>Files\<close>, \<open>History\<close>, \<open>Render\<close>, \<open>Filters\<close>, \<open>Publish\<close> (agent \<open>render.rs\<close>): the volume as a map from paths
    to files, atomic writes as sequences of file operations, the history beside a file, the formats, the
    template filters, and the publication of a rendered set.
  \<^item> \<open>Metrics\<close>, \<open>Canary\<close>, \<open>Trust\<close>, \<open>Sources\<close>, \<open>Events\<close> (agent \<open>metrics.rs\<close>, \<open>canary.rs\<close>, \<open>trust.rs\<close>,
    \<open>sources.rs\<close>, \<open>events.rs\<close>): counters and probes, the cohort, the trust material, the slot and the
    calls a store's client is built with, and Kubernetes Events.
  \<^item> \<open>Sidecar\<close>, \<open>Served\<close>, \<open>Loop\<close>, \<open>Supervisor\<close> (agent \<open>sidecar.rs\<close>, \<open>main.rs\<close>): the loop as a step relation,
    the invariant of its runs, what each arm does, and the process around it.
  \<^item> \<open>Shared\<close>, \<open>NodeAgent\<close> (node plugin \<open>shared.rs\<close>, \<open>publish.rs\<close>, \<open>csi.rs\<close>), \<open>Operator\<close> (operator
    \<open>crds.rs\<close>), \<open>Processes\<close> (how these two start, and the telemetry library).

  \<^bold>\<open>State and steps.\<close> A component's state is a record named after the code's: \<open>metrics\<close> and \<open>counters\<close> for the
  process-wide atomics (words of 64 bits that wrap), \<open>sidecar\<close> for the loop's local variables, \<open>registry\<close> for the
  plugin's shared map, \<open>serving\<close> for the certificate in use, \<open>pki\<close> for the Secret and the caBundles in the
  cluster. An arm of \<open>select!\<close> is one constructor of an event and one rule of \<open>step\<close>; the watch, the spawned
  resync, the notifications and other writers take steps of their own, in any order. Steps do not overlap; the one
  place where the code's writes to a file may, a resync that empties the files of a deleted document while the loop
  publishes, is stated apart (\<open>Supervisor.overlapping_emptying_tears\<close>) and excluded from what is claimed of the
  files over whole runs. The replicas of an election interleave the same way (\<open>contends\<close>, on one clock). The lives
  of an agent follow each other (\<open>alive\<close>, and \<open>lived\<close> with the ends and the refused starts), and a resync a life
  left in flight answers in a later one. What
  the store, the disk, the clock or the API server answers comes with the step and is arbitrary.

  \<^bold>\<open>Interfaces.\<close> A client that relies on another component's promises states them as a locale, and the
  component's own definitions interpret it: \<open>pinning\<close> (what a pinned key resolves to), \<open>gate\<close> (who passed was
  allowed), \<open>codec\<close> (what was encoded reads back), \<open>latest\<close> and \<open>one_slot\<close> (readers see the newest value),
  \<open>atomic_store\<close> (a reader finds the old or the new), \<open>fenced_store\<close> and \<open>lease_protocol\<close> (one write for each
  version; who may replace a lease, and when), the last interpreted for the operator and for the rotation.

  \<^bold>\<open>What the lemmas show.\<close>

  \<^item> \<^emph>\<open>Admission.\<close> An accepted request satisfies the cross-field rules of the contract (\<open>request_ok\<close>) and keeps
    the installation's pins (\<open>request_keeps\<close>); a patched pod passed every gate; a patched pod is left alone; each
    answer is counted once, under its own reason. When no pass-through annotation is empty, the command line is read
    by the agent flag for flag, the settings it runs with are those the request asked for, and certificates are
    verified unless the installation offers otherwise.
  \<^item> \<^emph>\<open>Files.\<close> A reader finds an old file or a whole new one; a publication that is cut short has written a
    prefix; in every run of the loop, over all lives of the process, a file nobody else writes holds what was there
    before, nothing, or the whole render of a document the store handed out; a history holds no more than its limit
    and what the volume would not remove.
  \<^item> \<^emph>\<open>The loop.\<close> A document is refused, held back or published whole; leases are extended, replaced, kept or
    handed back; the policies for a failed start, a deletion and drift do what they say; a held document is
    published when the cohort widens.
  \<^item> \<^emph>\<open>Rendering.\<close> What is published satisfies the schema; a .properties file has a line for each leaf, with its separators escaped; an agent that
    started from a command line does not panic while rendering or while building its client.
  \<^item> \<^emph>\<open>Certificates.\<close> Wherever a rotation is cut short the leaf before it stays trusted, and after a completed one
    both leaves are, whichever pair a replica was delivered. A replica serves the newest pair that loaded at a look,
    where its stamps tell pairs apart; one that mints its own waits for it. A rotation is due before the leaf
    expires, for lives long enough that the five minutes' skew is within three tenths of them.
  \<^item> \<^emph>\<open>Elections.\<close> Leadership changes hands only after a full term, and a leader cut off stands down.
  \<^item> \<^emph>\<open>Node plugin and operator.\<close> A volume's file stays in its directory, a document fanned out reaches every reader,
    every watch has a reader; the operator writes only where its boundary allows, claims readiness only for
    what it wrote, leaves a settled target alone once it has observed the Render's generation, and its retries back off within bounds.
  \<^item> \<^emph>\<open>Time.\<close> The date of an Event is the calendar's.

  Where modelling showed that the code does something else than its comments or its purpose say, a lemma beside
  the component states what it does (\<open>Handshake.empty_value_swallows_a_flag\<close>, \<open>Asked.empty_section_turns_verification_off\<close>,
  \<open>Loop.returned_document_stays_unwritten\<close>, \<open>Loop.repair_undoes_a_deletion\<close>, \<open>Supervisor.rebuild_abandons_the_lease\<close>,
  \<open>Supervisor.overlapping_emptying_tears\<close>, \<open>Serving.renewal_before_the_stamps_is_missed\<close>,
  \<open>Rotation.short_lives_end_before_they_are_due\<close>, \<open>Render.properties_left_unescaped\<close> and others).

  \<^bold>\<open>Parameters.\<close> Code that is not in the repository is an argument of the definitions that use it: the
  configuration engine, the emitters of JSON, TOML and YAML, the template engine and the schema validator (the
  record \<open>engine\<close>), SHA-256, the pacing of retries (\<open>lp_pace\<close> and its companions), the stores' clients, the TLS
  library and what mints a certificate, PEM and YAML readers, and the API server. Hypotheses on them are the
  named premises of the theorems, and each theorem with premises has a witness at concrete values.

  \<^bold>\<open>Bounds.\<close> No definition runs on fuel: recursion follows the data or has a measure. Time is a count of
  seconds, or of micro- or nanoseconds where the code has them, as a natural number or an integer; counters,
  revisions and CRD numbers are words of their width; numbers parsed from text are bounded by the width they
  are parsed at. The display of a quotient of floats is exact up to fifteen digits and stated so.

  \<^bold>\<open>Not modelled.\<close> The texts of refusals, warnings and log lines (values name the cause, the sentences are
  parameters where an answer carries them); the HTTP, gRPC and TLS servers, sockets and signals below the
  requests and events they deliver; generated protobuf code; the CRD schemas as printed by \<open>--crds\<close>; Unicode
  whitespace outside ASCII; the crates' clients and everything else listed under the parameters. Tests,
  charts, dashboards and examples are not part of the programs.
\<close>

end
